theory Spec2Isabelle
  imports Complex_Main "HOL-Library.Multiset"
begin

section \<open>JavaScript numbers\<close>

text \<open>
  A JavaScript number is a finite value, one of the two infinities, or NaN. A
  finite number is held as the real it denotes. The operations \<open>js_add\<close>,
  \<open>js_sub\<close>, \<open>js_mul\<close> and \<open>js_div\<close> are the exact operations on these
  values, with the special values as IEEE 754 has them; the operations of the
  code, which round, are \<open>fl_add\<close>, \<open>fl_sub\<close>, \<open>fl_mul\<close> and \<open>fl_div\<close>
  below. Comparisons with NaN are false, \<open>Math.min\<close> and \<open>Math.max\<close>
  return NaN when an argument is NaN.
\<close>

datatype jsnum = NaN | NegInf | Fin real | PosInf

fun isFinite :: "jsnum \<Rightarrow> bool" where
  "isFinite (Fin a) = True"
| "isFinite _ = False"

fun js_neg :: "jsnum \<Rightarrow> jsnum" where
  "js_neg NaN = NaN"
| "js_neg NegInf = PosInf"
| "js_neg (Fin a) = Fin (- a)"
| "js_neg PosInf = NegInf"

fun js_add :: "jsnum \<Rightarrow> jsnum \<Rightarrow> jsnum" where
  "js_add (Fin a) (Fin b) = Fin (a + b)"
| "js_add NaN y = NaN"
| "js_add x NaN = NaN"
| "js_add PosInf NegInf = NaN"
| "js_add NegInf PosInf = NaN"
| "js_add PosInf y = PosInf"
| "js_add x PosInf = PosInf"
| "js_add NegInf y = NegInf"
| "js_add x NegInf = NegInf"

definition js_sub :: "jsnum \<Rightarrow> jsnum \<Rightarrow> jsnum" where
  "js_sub x y = js_add x (js_neg y)"

text \<open>The sign of a number that is not NaN: -1, 0 or 1.\<close>

fun js_sign :: "jsnum \<Rightarrow> int" where
  "js_sign NaN = 0"
| "js_sign NegInf = - 1"
| "js_sign (Fin a) = (if a < 0 then - 1 else if a = 0 then 0 else 1)"
| "js_sign PosInf = 1"

fun js_mul :: "jsnum \<Rightarrow> jsnum \<Rightarrow> jsnum" where
  "js_mul (Fin a) (Fin b) = Fin (a * b)"
| "js_mul NaN y = NaN"
| "js_mul x NaN = NaN"
| "js_mul x y =
     (let s = js_sign x * js_sign y
      in if s = 0 then NaN else if 0 < s then PosInf else NegInf)"

fun js_div :: "jsnum \<Rightarrow> jsnum \<Rightarrow> jsnum" where
  "js_div (Fin a) (Fin b) =
     (if b = 0 then (if a = 0 then NaN else if 0 < a then PosInf else NegInf)
      else Fin (a / b))"
| "js_div NaN y = NaN"
| "js_div x NaN = NaN"
| "js_div (Fin a) y = Fin 0"
| "js_div x (Fin b) =
     (if (0 \<le> b) = (x = PosInf) then PosInf else NegInf)"
| "js_div x y = NaN"

fun js_lt :: "jsnum \<Rightarrow> jsnum \<Rightarrow> bool" where
  "js_lt (Fin a) (Fin b) = (a < b)"
| "js_lt NaN y = False"
| "js_lt x NaN = False"
| "js_lt x NegInf = False"
| "js_lt PosInf y = False"
| "js_lt NegInf y = True"
| "js_lt x PosInf = True"

fun js_le :: "jsnum \<Rightarrow> jsnum \<Rightarrow> bool" where
  "js_le (Fin a) (Fin b) = (a \<le> b)"
| "js_le NaN y = False"
| "js_le x NaN = False"
| "js_le NegInf y = True"
| "js_le x PosInf = True"
| "js_le x NegInf = False"
| "js_le PosInf y = False"

definition js_gt :: "jsnum \<Rightarrow> jsnum \<Rightarrow> bool" where
  "js_gt x y = js_lt y x"

text \<open>\<open>Math.min(x, y)\<close> and \<open>Math.max(x, y)\<close>.\<close>

definition js_min :: "jsnum \<Rightarrow> jsnum \<Rightarrow> jsnum" where
  "js_min x y = (if x = NaN \<or> y = NaN then NaN else if js_lt x y then x else y)"

definition js_max :: "jsnum \<Rightarrow> jsnum \<Rightarrow> jsnum" where
  "js_max x y = (if x = NaN \<or> y = NaN then NaN else if js_lt x y then y else x)"

text \<open>\<open>Math.log2\<close>.\<close>

fun js_log2 :: "jsnum \<Rightarrow> jsnum" where
  "js_log2 (Fin a) = (if a < 0 then NaN else if a = 0 then NegInf else Fin (log 2 a))"
| "js_log2 PosInf = PosInf"
| "js_log2 x = NaN"

text \<open>
  \<open>Number.isFinite(x) ? x : null\<close>: the value of a nullable numeric field,
  \<open>None\<close> standing for \<open>null\<close>.
\<close>

fun finiteOrNull :: "jsnum \<Rightarrow> real option" where
  "finiteOrNull (Fin a) = Some a"
| "finiteOrNull _ = None"

text \<open>\<open>clamp(n, a, b) = Math.max(a, Math.min(b, n))\<close>.\<close>

definition clamp :: "jsnum \<Rightarrow> jsnum \<Rightarrow> jsnum \<Rightarrow> jsnum" where
  "clamp n a b = js_max a (js_min b n)"

subsection \<open>Rounding to binary64\<close>

text \<open>
  The arithmetic of the code is IEEE 754 binary64 with rounding to nearest, ties
  to even. \<open>pow2 k\<close> is 2 to the power \<open>k\<close>; \<open>rhe\<close> rounds a real to the
  nearest integer, a tie to the even one; \<open>expo x\<close> is the binary exponent of
  \<open>x\<close>, held at -1022 for the subnormal numbers; \<open>round64 x\<close> keeps 53
  significant bits of \<open>x\<close>, and overflows to an infinity from 2 to the power
  1024 on. Finite numbers stay reals: the finite values that occur in a run are
  those that \<open>round64\<close> leaves unchanged. The sign of zero is not modelled.
\<close>

definition pow2 :: "int \<Rightarrow> real" where
  "pow2 k = (if 0 \<le> k then 2 ^ nat k else 1 / 2 ^ nat (- k))"

definition rhe :: "real \<Rightarrow> int" where
  "rhe x =
     (let f = \<lfloor>x\<rfloor>; d = x - of_int f
      in if d < 1 / 2 then f else if 1 / 2 < d then f + 1 else if even f then f else f + 1)"

definition expo :: "real \<Rightarrow> int" where
  "expo x = max \<lfloor>log 2 \<bar>x\<bar>\<rfloor> (- 1022)"

definition round64 :: "real \<Rightarrow> jsnum" where
  "round64 x =
     (if x = 0 then Fin 0
      else (let q = pow2 (expo x - 52);
                r = of_int (rhe (x / q)) * q
            in if pow2 1024 \<le> \<bar>r\<bar> then (if 0 < r then PosInf else NegInf) else Fin r))"

text \<open>
  \<open>x + y\<close>, \<open>x - y\<close>, \<open>x * y\<close> and \<open>x / y\<close> on numbers: the exact result of
  two finite operands is rounded; the special values are as above.
\<close>

definition fl_add :: "jsnum \<Rightarrow> jsnum \<Rightarrow> jsnum" where
  "fl_add x y = (case (x, y) of (Fin a, Fin b) \<Rightarrow> round64 (a + b) | _ \<Rightarrow> js_add x y)"

definition fl_sub :: "jsnum \<Rightarrow> jsnum \<Rightarrow> jsnum" where
  "fl_sub x y = (case (x, y) of (Fin a, Fin b) \<Rightarrow> round64 (a - b) | _ \<Rightarrow> js_sub x y)"

definition fl_mul :: "jsnum \<Rightarrow> jsnum \<Rightarrow> jsnum" where
  "fl_mul x y = (case (x, y) of (Fin a, Fin b) \<Rightarrow> round64 (a * b) | _ \<Rightarrow> js_mul x y)"

definition fl_div :: "jsnum \<Rightarrow> jsnum \<Rightarrow> jsnum" where
  "fl_div x y =
     (case (x, y) of
        (Fin a, Fin b) \<Rightarrow> if b = 0 then js_div x y else round64 (a / b)
      | _ \<Rightarrow> js_div x y)"

text \<open>
  The number a decimal literal or a parsed cell denotes: the nearest binary64
  value.
\<close>

definition dbl :: "real \<Rightarrow> real" where
  "dbl x = (case round64 x of Fin r \<Rightarrow> r | _ \<Rightarrow> 0)"

section \<open>Fills, open lots and closed trades\<close>

datatype action = OPEN | CLOSE | UNKNOWN_ACTION

datatype direction = LONG | SHORT | UNKNOWN_DIRECTION

text \<open>
  A fill as \<open>parseBloFinRows\<close> produces it. \<open>time\<close> is the value of
  \<open>getTime()\<close> of a valid date (milliseconds); \<open>avgFill\<close> and \<open>qty\<close> are
  numbers, NaN when the cell did not parse; \<open>pnl\<close>, \<open>pnlPct\<close> and \<open>fee\<close> are
  finite or null.
\<close>

record fill =
  symbol :: string
  action :: action
  direction :: direction
  time :: int
  avgFill :: jsnum
  qty :: jsnum
  pnl :: "real option"
  pnlPct :: "real option"
  fee :: "real option"

record lot =
  lot_time :: int
  lot_price :: jsnum
  lot_qty :: jsnum

record trade =
  exchange :: string
  trade_symbol :: string
  trade_direction :: direction
  entryPrice :: "real option"
  exitPrice :: "real option"
  trade_qty :: "real option"
  trade_pnl :: "real option"
  trade_pnlPct :: "real option"
  holdMins :: "real option"
  closeTime :: int
  trade_note :: "string option"

fun direction_str :: "direction \<Rightarrow> string" where
  "direction_str LONG = ''LONG''"
| "direction_str SHORT = ''SHORT''"
| "direction_str UNKNOWN_DIRECTION = ''UNKNOWN''"

definition getKey :: "fill \<Rightarrow> string" where
  "getKey f = symbol f @ ''|'' @ direction_str (direction f)"

text \<open>
  \<open>getStack\<close> creates the queue of a key on first use; a key that is not in
  the map yet reads as the empty queue.
\<close>

definition getStack :: "(string \<rightharpoonup> lot list) \<Rightarrow> string \<Rightarrow> lot list" where
  "getStack stacks key = (case stacks key of None \<Rightarrow> [] | Some stack \<Rightarrow> stack)"

text \<open>\<open>minsBetween(a, b)\<close> on two valid dates.\<close>

definition minsBetween :: "int \<Rightarrow> int \<Rightarrow> jsnum" where
  "minsBetween a b =
     (let ms = b - a in if ms < 0 then NaN else fl_div (Fin (real_of_int ms)) (Fin 60000))"

text \<open>
  The measure of the matching loop: the queue shrinks, or the remaining
  quantity stops being positive, possibly one iteration after the head lot's
  quantity became NaN.
\<close>

definition matchMeasure :: "jsnum \<times> lot list \<times> (jsnum \<times> jsnum \<times> int option) \<Rightarrow> nat" where
  "matchMeasure = (\<lambda>(remaining, stack, acc).
     3 * length stack +
     (if js_gt remaining (Fin 0)
      then (case stack of [] \<Rightarrow> 0 | l # _ \<Rightarrow> if lot_qty l = NaN then 1 else 2)
      else 0))"

text \<open>
  The \<open>while (remaining > 0 && stack.length > 0)\<close> loop of a CLOSE fill. The
  accumulator is (\<open>entryQtyTotal\<close>, \<open>entryNotional\<close>, \<open>entryTime\<close>); the result
  is the final \<open>remaining\<close>, the queue as the loop leaves it, and the
  accumulator. The literal \<open>1e-12\<close> is the binary64 value nearest to it.
\<close>

function matchLots ::
  "jsnum \<Rightarrow> lot list \<Rightarrow> jsnum \<times> jsnum \<times> int option
     \<Rightarrow> jsnum \<times> lot list \<times> (jsnum \<times> jsnum \<times> int option)" where
  "matchLots remaining [] acc = (remaining, [], acc)"
| "matchLots remaining (lot # rest) (entryQtyTotal, entryNotional, entryTime) =
     (if js_gt remaining (Fin 0) then
        (let take = js_min remaining (lot_qty lot);
             entryQtyTotal' = fl_add entryQtyTotal take;
             entryNotional' = fl_add entryNotional (fl_mul take (lot_price lot));
             entryTime' = (case entryTime of
                             None \<Rightarrow> Some (lot_time lot)
                           | Some et \<Rightarrow> if lot_time lot < et then Some (lot_time lot) else Some et);
             lot' = lot\<lparr>lot_qty := fl_sub (lot_qty lot) take\<rparr>;
             remaining' = fl_sub remaining take
         in if js_le (lot_qty lot') (round64 (1 / 10 ^ 12))
            then matchLots remaining' rest (entryQtyTotal', entryNotional', entryTime')
            else matchLots remaining' (lot' # rest) (entryQtyTotal', entryNotional', entryTime'))
      else (remaining, lot # rest, (entryQtyTotal, entryNotional, entryTime)))"
  by pat_completeness auto

termination
proof (relation "measure matchMeasure")
  show "wf (measure matchMeasure)" by simp
next
  fix remaining :: jsnum and lot :: lot and rest :: "lot list"
    and entryQtyTotal entryNotional :: jsnum and entryTime :: "int option"
    and take entryQtyTotal' entryNotional' remaining' :: jsnum
    and entryTime' :: "int option" and lot' :: lot
  assume "js_gt remaining (Fin 0)"
    and "take = js_min remaining (lot_qty lot)"
    and "remaining' = fl_sub remaining take"
  then show "((remaining', rest, entryQtyTotal', entryNotional', entryTime'),
              (remaining, lot # rest, entryQtyTotal, entryNotional, entryTime))
             \<in> measure matchMeasure"
    by (simp add: matchMeasure_def split: list.splits)
next
  fix remaining :: jsnum and lot :: lot and rest :: "lot list"
    and entryQtyTotal entryNotional :: jsnum and entryTime :: "int option"
    and take entryQtyTotal' entryNotional' remaining' :: jsnum
    and entryTime' :: "int option" and lot' :: lot
  assume pos: "js_gt remaining (Fin 0)"
    and take: "take = js_min remaining (lot_qty lot)"
    and lot': "lot' = lot\<lparr>lot_qty := fl_sub (lot_qty lot) take\<rparr>"
    and rem': "remaining' = fl_sub remaining take"
    and keep: "\<not> js_le (lot_qty lot') (round64 (1 / 10 ^ 12))"
  have p2: "0 < pow2 k" for k
    by (simp add: pow2_def)
  have dust: "js_le (Fin 0) (round64 (1 / 10 ^ 12))"
  proof -
    define x :: real where "x = 1 / 10 ^ 12"
    define q where "q = pow2 (expo x - 52)"
    have "0 \<le> x / q" using p2 [of "expo x - 52"] by (simp add: x_def q_def)
    then have "0 \<le> rhe (x / q)" by (auto simp: rhe_def Let_def)
    then have "0 \<le> of_int (rhe (x / q)) * q"
      using p2 [of "expo x - 52"] by (simp add: q_def)
    then have "js_le (Fin 0) (round64 x)"
      using p2 [of 1024] by (auto simp: round64_def Let_def q_def)
    then show ?thesis by (simp only: x_def)
  qed
  have zero: "round64 0 = Fin 0" by (simp add: round64_def)
  have progress: "fl_sub q (js_min r q) = NaN"
    if "js_gt r (Fin 0)" and "q \<noteq> NaN"
      and "\<not> js_le (fl_sub q (js_min r q)) (round64 (1 / 10 ^ 12))"
      and "js_gt (fl_sub r (js_min r q)) (Fin 0)" for r q
    using that dust
    by (cases r; cases q)
      (auto simp: js_gt_def fl_sub_def js_sub_def js_min_def zero split: if_splits)
  have nan_stops: "\<not> js_gt (fl_sub r (js_min r NaN)) (Fin 0)" for r
    by (cases r) (simp_all add: js_gt_def fl_sub_def js_sub_def js_min_def)
  show "((remaining', lot' # rest, entryQtyTotal', entryNotional', entryTime'),
         (remaining, lot # rest, entryQtyTotal, entryNotional, entryTime))
        \<in> measure matchMeasure"
  proof (cases "lot_qty lot = NaN")
    case True
    then show ?thesis
      using pos take rem' nan_stops [of remaining]
      by (simp add: matchMeasure_def)
  next
    case False
    have "js_gt remaining' (Fin 0) \<Longrightarrow> lot_qty lot' = NaN"
      using progress [OF pos False] keep take lot' rem'
      by simp
    then show ?thesis
      using pos False by (auto simp: matchMeasure_def)
  qed
qed

text \<open>
  The body of \<open>for (const f of sorted)\<close>: the state is the map of queues and
  the list of closed trades built so far.
\<close>

definition processFill ::
  "(string \<rightharpoonup> lot list) \<times> trade list \<Rightarrow> fill \<Rightarrow> (string \<rightharpoonup> lot list) \<times> trade list" where
  "processFill state f =
     (case state of (stacks, closedTrades) \<Rightarrow>
        let key = getKey f;
            stack = getStack stacks key
        in if action f = OPEN then
             (stacks(key \<mapsto> stack @ [\<lparr>lot_time = time f, lot_price = avgFill f, lot_qty = qty f\<rparr>]),
              closedTrades)
           else if action f = CLOSE then
             (case matchLots (qty f) stack (Fin 0, Fin 0, None) of
                (remaining, stack', (entryQtyTotal, entryNotional, entryTime)) \<Rightarrow>
                  let entryPrice = (if js_gt entryQtyTotal (Fin 0)
                                    then fl_div entryNotional entryQtyTotal else NaN);
                      exitPrice = avgFill f;
                      holdMins = (case entryTime of
                                    None \<Rightarrow> NaN
                                  | Some et \<Rightarrow> minsBetween et (time f))
                  in (stacks(key \<mapsto> stack'),
                      closedTrades @
                      [\<lparr>exchange = ''BloFin'',
                        trade_symbol = symbol f,
                        trade_direction = direction f,
                        entryPrice = finiteOrNull entryPrice,
                        exitPrice = finiteOrNull exitPrice,
                        trade_qty = finiteOrNull (qty f),
                        trade_pnl = pnl f,
                        trade_pnlPct = pnlPct f,
                        holdMins = finiteOrNull holdMins,
                        closeTime = time f,
                        trade_note = (if js_gt entryQtyTotal (Fin 0) then None
                                      else Some ''No matching open found (CSV may be partial).'')\<rparr>]))
           else (stacks(key \<mapsto> stack), closedTrades))"

text \<open>
  \<open>fills.slice().sort((a, b) => a.time.getTime() - b.time.getTime())\<close>:
  \<open>Array.prototype.sort\<close> is stable, as is \<open>sort_key\<close>.
\<close>

definition sortFills :: "fill list \<Rightarrow> fill list" where
  "sortFills fills = sort_key time fills"

definition runFills :: "fill list \<Rightarrow> (string \<rightharpoonup> lot list) \<times> trade list" where
  "runFills fs = foldl processFill (Map.empty, []) fs"

definition buildClosedTradesFromFills :: "fill list \<Rightarrow> trade list" where
  "buildClosedTradesFromFills fills = snd (runFills (sortFills fills))"

subsection \<open>Sample fills\<close>

definition openFill :: "int \<Rightarrow> real \<Rightarrow> real \<Rightarrow> fill" where
  "openFill t p q =
     \<lparr>symbol = ''BTCUSDT'', action = OPEN, direction = LONG, time = t, avgFill = Fin p,
      qty = Fin q, pnl = None, pnlPct = None, fee = None\<rparr>"

definition closeFill :: "int \<Rightarrow> real \<Rightarrow> real \<Rightarrow> fill" where
  "closeFill t p q =
     \<lparr>symbol = ''BTCUSDT'', action = CLOSE, direction = LONG, time = t, avgFill = Fin p,
      qty = Fin q, pnl = Some 7, pnlPct = None, fee = None\<rparr>"

definition sampleLot :: "int \<Rightarrow> real \<Rightarrow> real \<Rightarrow> lot" where
  "sampleLot t p q = \<lparr>lot_time = t, lot_price = Fin p, lot_qty = Fin q\<rparr>"


section \<open>Hindsight evaluation\<close>

text \<open>
  A candle as \<open>indexKlines\<close> produces it: the open time in milliseconds, and
  the high and the low as numbers.
\<close>

record candle =
  candle_t :: int
  candle_high :: jsnum
  candle_low :: jsnum

text \<open>
  The \<open>for (const c of series)\<close> loop of \<open>bestPriceInWindow\<close>, with its
  \<open>continue\<close> and its \<open>break\<close>; the state is (\<open>best\<close>, \<open>found\<close>).
\<close>

fun bestLoop :: "candle list \<Rightarrow> int \<Rightarrow> int \<Rightarrow> direction \<Rightarrow> jsnum \<Rightarrow> bool \<Rightarrow> jsnum \<times> bool" where
  "bestLoop [] startMs endMs d best found = (best, found)"
| "bestLoop (c # cs) startMs endMs d best found =
     (if candle_t c < startMs then bestLoop cs startMs endMs d best found
      else if candle_t c > endMs then (best, found)
      else bestLoop cs startMs endMs d
             (if d = SHORT then js_min best (candle_low c) else js_max best (candle_high c))
             True)"

definition bestPriceInWindow :: "candle list \<Rightarrow> int \<Rightarrow> int \<Rightarrow> direction \<Rightarrow> jsnum option" where
  "bestPriceInWindow series startMs endMs d =
     (case bestLoop series startMs endMs d (if d = SHORT then PosInf else NegInf) False of
        (best, found) \<Rightarrow> if \<not> found then None else Some best)"

text \<open>
  A hindsight result: the closed trade and the fields \<open>runHindsight\<close> adds.
  \<open>None\<close> is \<open>null\<close>, or a field that is not set.
\<close>

record hindsight =
  h_trade :: trade
  bestExit :: "jsnum option"
  potentialPnl :: "jsnum option"
  potentialPct :: "jsnum option"
  realizedPnl :: "real option"
  fumbled :: "jsnum option"

text \<open>\<open>clamp(Number(realismPct) / 100, 0, 1)\<close>, the slider's value being a number.\<close>

definition realismOf :: "real \<Rightarrow> jsnum" where
  "realismOf realismPct = clamp (fl_div (Fin realismPct) (Fin 100)) (Fin 0) (Fin 1)"

definition noData :: "trade \<Rightarrow> hindsight" where
  "noData t =
     \<lparr>h_trade = t, bestExit = None, potentialPnl = None, potentialPct = None,
      realizedPnl = trade_pnl t, fumbled = None\<rparr>"

text \<open>
  The callback of \<open>closedTrades.map\<close> in \<open>runHindsight\<close>; \<open>series\<close> is
  \<open>symbolSeries.get(sym)\<close>, \<open>None\<close> when the symbol has no series.
\<close>

definition hindsightTrade :: "jsnum \<Rightarrow> int \<Rightarrow> candle list option \<Rightarrow> trade \<Rightarrow> hindsight" where
  "hindsightTrade realism lookaheadMs series t =
     (case series of
        None \<Rightarrow> noData t
      | Some series \<Rightarrow>
          let startMs = closeTime t;
              endMs = startMs + lookaheadMs;
              bestExitRaw = bestPriceInWindow series startMs endMs (trade_direction t)
          in (case bestExitRaw of
                Some (Fin raw) \<Rightarrow>
                  let bestExit = (case exitPrice t of
                                     Some exit \<Rightarrow>
                                       fl_add (Fin exit) (fl_mul (fl_sub (Fin raw) (Fin exit)) realism)
                                   | None \<Rightarrow> Fin raw);
                      potentialPnl = (case (entryPrice t, bestExit, trade_qty t) of
                                        (Some entry, Fin b, Some q) \<Rightarrow>
                                          Some (if trade_direction t = SHORT
                                                then fl_mul (fl_sub (Fin entry) (Fin b)) (Fin q)
                                                else fl_mul (fl_sub (Fin b) (Fin entry)) (Fin q))
                                      | _ \<Rightarrow> None);
                      realized = trade_pnl t;
                      fumbled = (case (potentialPnl, realized) of
                                   (Some (Fin p), Some r) \<Rightarrow>
                                     Some (js_max (Fin 0) (fl_sub (Fin p) (Fin r)))
                                 | _ \<Rightarrow> None);
                      potentialPct = (case (entryPrice t, bestExit) of
                                        (Some entry, Fin b) \<Rightarrow>
                                          (let raw = fl_mul (fl_div (fl_sub (Fin b) (Fin entry)) (Fin entry))
                                                       (Fin 100)
                                           in Some (if trade_direction t = SHORT then js_neg raw else raw))
                                      | _ \<Rightarrow> None)
                  in \<lparr>h_trade = t, bestExit = Some bestExit, potentialPnl = potentialPnl,
                      potentialPct = potentialPct, realizedPnl = realized, fumbled = fumbled\<rparr>
              | _ \<Rightarrow> noData t))"

text \<open>The value of a finite number, for stating results as reals.\<close>

fun the_fin :: "jsnum \<Rightarrow> real" where
  "the_fin (Fin a) = a"
| "the_fin _ = 0"

subsection \<open>Sample candles and trades\<close>

definition sampleCandle :: "int \<Rightarrow> real \<Rightarrow> real \<Rightarrow> candle" where
  "sampleCandle t h l = \<lparr>candle_t = t, candle_high = Fin h, candle_low = Fin l\<rparr>"

text \<open>A CLOSE fill whose average fill price did not parse.\<close>

definition closeNoPrice :: fill where
  "closeNoPrice =
     \<lparr>symbol = ''BTCUSDT'', action = CLOSE, direction = LONG, time = 0, avgFill = NaN,
      qty = Fin 1, pnl = Some 7, pnlPct = None, fee = None\<rparr>"

definition sampleTrade :: trade where
  "sampleTrade =
     \<lparr>exchange = ''BloFin'', trade_symbol = ''BTCUSDT'', trade_direction = LONG,
      entryPrice = Some 100, exitPrice = Some 110, trade_qty = Some 1, trade_pnl = Some 10,
      trade_pnlPct = None, holdMins = Some 5, closeTime = 0, trade_note = None\<rparr>"

section \<open>Behavioural summary\<close>

text \<open>
  The summary is stated over the exact operations: its score goes through
  \<open>Math.log2\<close>, whose rounding the language leaves to the implementation.
\<close>

text \<open>\<open>mean(arr)\<close> over values that are finite or null.\<close>

definition mean :: "real option list \<Rightarrow> jsnum" where
  "mean arr =
     (let a = map the (filter (\<lambda>x. x \<noteq> None) arr)
      in if length a = 0 then NaN
         else js_div (Fin (foldl (+) 0 a)) (Fin (real (length a))))"

record summary =
  summary_n :: nat
  winRate :: jsnum
  totalPnl :: jsnum
  paperhands :: jsnum
  fumbleScore :: jsnum

definition summarizeClosedTrades :: "trade list \<Rightarrow> summary" where
  "summarizeClosedTrades trades =
     (let n = length trades;
          wins = filter (\<lambda>t. case trade_pnl t of Some p \<Rightarrow> p > 0 | None \<Rightarrow> False) trades;
          losses = filter (\<lambda>t. case trade_pnl t of Some p \<Rightarrow> p < 0 | None \<Rightarrow> False) trades;
          winRate = (if n > 0 then js_div (Fin (real (length wins))) (Fin (real n)) else NaN);
          totalPnl = Fin (foldl (+) 0 (map the (filter (\<lambda>x. x \<noteq> None) (map trade_pnl trades))));
          avgWinHold = mean (map holdMins wins);
          avgLossHold = mean (map holdMins losses);
          paperhands = (if isFinite avgWinHold \<and> isFinite avgLossHold \<and> js_gt avgLossHold (Fin 0)
                        then js_div avgWinHold avgLossHold else NaN);
          fumbleScore = (if isFinite paperhands
                         then (let raw = js_sub (Fin 60) (js_mul (Fin 20) (js_log2 paperhands))
                               in clamp raw (Fin 0) (Fin 100))
                         else NaN)
      in \<lparr>summary_n = n, winRate = winRate, totalPnl = totalPnl, paperhands = paperhands,
          fumbleScore = fumbleScore\<rparr>)"

definition scoreTrades :: "trade list" where
  "scoreTrades =
     [sampleTrade\<lparr>holdMins := Some 2\<rparr>,
      sampleTrade\<lparr>trade_pnl := Some (- 3), holdMins := Some 1\<rparr>]"

section \<open>Price series fetcher\<close>

text \<open>
  A kline \<open>k\<close> of the price source: \<open>k[0]\<close> is the open time, and the high and
  the low are kept as the numbers \<open>Number(k[2])\<close> and \<open>Number(k[3])\<close> that
  \<open>indexKlines\<close> reads.
\<close>

record kline =
  kline_openTime :: int
  kline_high :: jsnum
  kline_low :: jsnum

definition indexKlines :: "kline list \<Rightarrow> candle list" where
  "indexKlines klines =
     map (\<lambda>k. \<lparr>candle_t = kline_openTime k, candle_high = kline_high k, candle_low = kline_low k\<rparr>)
       klines"

text \<open>The query of one request; the row cap is the constant 1000.\<close>

record klineRequest =
  req_symbol :: string
  req_interval :: string
  req_startTime :: int
  req_endTime :: int

text \<open>An error object: its name and its message.\<close>

datatype js_error = JsError string string

text \<open>\<open>e?.message || String(e)\<close>.\<close>

fun errText :: "js_error \<Rightarrow> string" where
  "errText (JsError name msg) = (if msg \<noteq> [] then msg else name)"

text \<open>
  What one \<open>fetch\<close> brings back: a rejection (a network error, with its
  message), or a response with a status and a body; the body is a JSON array of
  klines, or does not parse (with the message of the parse error).
\<close>

datatype response = NetworkError string | HttpResponse nat "string + kline list"

text \<open>
  The price source: the response to the request that is issued as the \<open>n\<close>-th
  of the run to a base. Any behaviour of the two endpoints over one run is such a
  function.
\<close>

type_synonym net = "nat \<Rightarrow> string \<Rightarrow> klineRequest \<Rightarrow> response"

function show_nat :: "nat \<Rightarrow> string" where
  "show_nat n =
     (if n < 10 then [char_of (48 + n)]
      else show_nat (n div 10) @ [char_of (48 + n mod 10)])"
  by pat_completeness auto

termination
  by (relation "measure id") auto

declare show_nat.simps [simp del]

text \<open>The body of the \<open>try\<close> for one base: the data, or the error thrown.\<close>

definition attempt :: "response \<Rightarrow> js_error + kline list" where
  "attempt res =
     (case res of
        NetworkError m \<Rightarrow> Inl (JsError ''TypeError'' m)
      | HttpResponse status body \<Rightarrow>
          if \<not> (200 \<le> status \<and> status \<le> 299)
          then Inl (JsError ''Error'' (''HTTP '' @ show_nat status))
          else (case body of
                  Inl m \<Rightarrow> Inl (JsError ''SyntaxError'' m)
                | Inr data \<Rightarrow> Inr data))"

definition BINANCE_BASES :: "string list" where
  "BINANCE_BASES = [''https://api.binance.com'', ''https://data-api.binance.vision'']"

text \<open>
  \<open>for (const base of BINANCE_BASES)\<close> with its \<open>try\<close> and \<open>catch\<close>. The
  last argument is the log of the requests issued so far, as (base, query).
\<close>

fun tryBases ::
  "net \<Rightarrow> string list \<Rightarrow> klineRequest \<Rightarrow> js_error option \<Rightarrow> (string \<times> klineRequest) list
     \<Rightarrow> (js_error + kline list) \<times> (string \<times> klineRequest) list" where
  "tryBases net [] req lastErr reqs =
     (Inl (case lastErr of Some e \<Rightarrow> e | None \<Rightarrow> JsError ''Error'' ''Failed to fetch klines''), reqs)"
| "tryBases net (base # bases) req lastErr reqs =
     (case attempt (net (length reqs) base req) of
        Inr data \<Rightarrow> (Inr data, reqs @ [(base, req)])
      | Inl e \<Rightarrow> tryBases net bases req (Some e) (reqs @ [(base, req)]))"

definition fetchKlinesAnyBase ::
  "net \<Rightarrow> klineRequest \<Rightarrow> (string \<times> klineRequest) list
     \<Rightarrow> (js_error + kline list) \<times> (string \<times> klineRequest) list" where
  "fetchKlinesAnyBase net req reqs = tryBases net BINANCE_BASES req None reqs"

text \<open>
  The log tells which chunk requests failed: a chunk request fails exactly when
  its request to the fallback base fails. \<open>fallbackFailed net reqs i\<close> says that
  the \<open>i\<close>-th request of the log went to the fallback base and failed.
\<close>

definition fallbackFailed :: "net \<Rightarrow> (string \<times> klineRequest) list \<Rightarrow> nat \<Rightarrow> bool" where
  "fallbackFailed net reqs i \<longleftrightarrow>
     i < length reqs \<and> fst (reqs ! i) = ''https://data-api.binance.vision'' \<and>
     isl (attempt (net i (fst (reqs ! i)) (snd (reqs ! i))))"

definition INTERVALS :: "(string \<times> int) list" where
  "INTERVALS = [(''1m'', 60000), (''5m'', 300000), (''15m'', 900000)]"

text \<open>\<open>INTERVALS.find((x) => x.label === interval)?.ms ?? 300_000\<close>.\<close>

definition intervalMsOf :: "string \<Rightarrow> int" where
  "intervalMsOf interval =
     (case find (\<lambda>x. fst x = interval) INTERVALS of Some x \<Rightarrow> snd x | None \<Rightarrow> 300000)"

text \<open>
  The state of the page: the React state of \<open>App\<close> that \<open>runHindsight\<close> reads
  and writes, and the log of the requests issued to the price source. The
  characters of the status messages outside ASCII are left out.
\<close>

record app =
  closedTrades :: "trade list"
  interval :: string
  lookaheadHours :: int
  realismPct :: real
  error :: string
  hStatus :: string
  hLoading :: bool
  hData :: "hindsight list option"
  requests :: "(string \<times> klineRequest) list"

text \<open>The cursor after a chunk: lines 326 to 332 of the source.\<close>

definition nextCursor :: "int \<Rightarrow> int \<Rightarrow> kline list \<Rightarrow> int" where
  "nextCursor intervalMs chunkEnd kl =
     (if length kl > 0 then kline_openTime (last kl) + intervalMs else chunkEnd)"

text \<open>
  The \<open>while (t < endTime)\<close> loop of \<open>fetchAllKlines\<close>. It need not terminate,
  so it is a partial function: \<open>None\<close> is a loop that runs forever. A chunk that
  fails on every base throws, which ends the loop with the error. The pause of
  120 ms between requests has no counterpart in the model.
\<close>

partial_function (option) fetchLoop ::
  "net \<Rightarrow> (nat \<Rightarrow> int \<Rightarrow> int \<Rightarrow> app \<Rightarrow> app) \<Rightarrow> string \<Rightarrow> string \<Rightarrow> int \<Rightarrow> int
     \<Rightarrow> int \<Rightarrow> kline list \<Rightarrow> nat \<Rightarrow> app \<Rightarrow> ((js_error + kline list) \<times> app) option" where
  "fetchLoop net onProgress symbol' itv intervalMs endTime t out chunk a =
     (if t < endTime then
        (let maxSpan = intervalMs * 1000;
             chunkEnd = min endTime (t + maxSpan);
             a1 = onProgress (Suc chunk) t chunkEnd a
         in case fetchKlinesAnyBase net
                   \<lparr>req_symbol = symbol', req_interval = itv, req_startTime = t, req_endTime = chunkEnd\<rparr>
                   (requests a1) of
              (Inl e, reqs) \<Rightarrow> Some (Inl e, a1\<lparr>requests := reqs\<rparr>)
            | (Inr kl, reqs) \<Rightarrow>
                fetchLoop net onProgress symbol' itv intervalMs endTime
                  (nextCursor intervalMs chunkEnd kl) (out @ kl) (Suc chunk)
                  (a1\<lparr>requests := reqs\<rparr>))
      else Some (Inr out, a))"

text \<open>The deduplication loop: \<open>seen\<close> is the set of open times met so far.\<close>

fun dedupLoop :: "kline list \<Rightarrow> int set \<Rightarrow> kline list \<Rightarrow> kline list" where
  "dedupLoop [] seen dedup = dedup"
| "dedupLoop (k # ks) seen dedup =
     (if kline_openTime k \<in> seen then dedupLoop ks seen dedup
      else dedupLoop ks (insert (kline_openTime k) seen) (dedup @ [k]))"

text \<open>What \<open>fetchAllKlines\<close> does with the concatenated chunks: lines 341 to 352.\<close>

definition dedupSort :: "kline list \<Rightarrow> kline list" where
  "dedupSort out = sort_key kline_openTime (dedupLoop out {} [])"

definition fetchAllKlines ::
  "net \<Rightarrow> (nat \<Rightarrow> int \<Rightarrow> int \<Rightarrow> app \<Rightarrow> app) \<Rightarrow> string \<Rightarrow> string \<Rightarrow> int \<Rightarrow> int \<Rightarrow> app
     \<Rightarrow> ((js_error + kline list) \<times> app) option" where
  "fetchAllKlines net onProgress symbol' itv startTime endTime a =
     (case fetchLoop net onProgress symbol' itv (intervalMsOf itv) endTime startTime [] 0 a of
        None \<Rightarrow> None
      | Some (Inl e, a') \<Rightarrow> Some (Inl e, a')
      | Some (Inr out, a') \<Rightarrow> Some (Inr (dedupSort out), a'))"

subsection \<open>A sample price source and page\<close>

text \<open>
  A source that answers every request with the candle before the requested start
  and the candle at it, its high telling which request it answers: consecutive
  chunks overlap.
\<close>

definition sampleNet :: net where
  "sampleNet n base req =
     HttpResponse 200
       (Inr [\<lparr>kline_openTime = req_startTime req - 300000, kline_high = Fin (real n),
              kline_low = Fin 0\<rparr>,
             \<lparr>kline_openTime = req_startTime req, kline_high = Fin (real n),
              kline_low = Fin 0\<rparr>])"

definition sampleKline :: "int \<Rightarrow> real \<Rightarrow> kline" where
  "sampleKline t h = \<lparr>kline_openTime = t, kline_high = Fin h, kline_low = Fin 0\<rparr>"

definition sampleApp :: app where
  "sampleApp =
     \<lparr>closedTrades = [sampleTrade], interval = ''5m'', lookaheadHours = 1, realismPct = 80,
      error = '''', hStatus = '''', hLoading = False, hData = None, requests = []\<rparr>"

definition sampleRequest :: "int \<Rightarrow> int \<Rightarrow> klineRequest" where
  "sampleRequest s e =
     \<lparr>req_symbol = ''BTCUSDT'', req_interval = ''5m'', req_startTime = s, req_endTime = e\<rparr>"

definition overlappingChunks :: "kline list" where
  "overlappingChunks =
     [sampleKline 0 1, sampleKline 300000 1, sampleKline 300000 2, sampleKline 0 3,
      sampleKline (- 5) 4]"

section \<open>The hindsight run\<close>

text \<open>
  \<open>normalizeToBinanceSymbol\<close>, on ASCII: upper case, hyphens and slashes
  removed, white space trimmed at both ends.
\<close>

definition toUpperChar :: "char \<Rightarrow> char" where
  "toUpperChar c =
     (let n = (of_char c :: nat) in if 97 \<le> n \<and> n \<le> 122 then char_of (n - 32) else c)"

definition isSpaceChar :: "char \<Rightarrow> bool" where
  "isSpaceChar c = ((of_char c :: nat) \<in> {9, 10, 11, 12, 13, 32})"

definition trim :: "string \<Rightarrow> string" where
  "trim s = rev (dropWhile isSpaceChar (rev (dropWhile isSpaceChar s)))"

definition normalizeToBinanceSymbol :: "string \<Rightarrow> string" where
  "normalizeToBinanceSymbol s =
     trim (filter (\<lambda>c. c \<noteq> CHR ''/'') (filter (\<lambda>c. c \<noteq> CHR ''-'') (map toUpperChar s)))"

text \<open>
  \<open>bySymbol\<close>, a \<open>Map\<close> in insertion order, as an association list: the loop
  that groups the trades by normalised symbol.
\<close>

definition addTrade :: "(string \<times> trade list) list \<Rightarrow> trade \<Rightarrow> (string \<times> trade list) list" where
  "addTrade bySymbol t =
     (let s = normalizeToBinanceSymbol (trade_symbol t)
      in if s = [] then bySymbol
         else (case map_of bySymbol s of
                 None \<Rightarrow> bySymbol @ [(s, [t])]
               | Some ts \<Rightarrow> map (\<lambda>(k, v). if k = s then (k, v @ [t]) else (k, v)) bySymbol))"

definition groupBySymbol :: "trade list \<Rightarrow> (string \<times> trade list) list" where
  "groupBySymbol trades = foldl addTrade [] trades"

text \<open>\<open>symbolSeries.set(sym, series)\<close>.\<close>

definition mapSet :: "string \<Rightarrow> 'v \<Rightarrow> (string \<times> 'v) list \<Rightarrow> (string \<times> 'v) list" where
  "mapSet k v m =
     (if k \<in> fst ` set m then map (\<lambda>(k', v'). if k' = k then (k', v) else (k', v')) m
      else m @ [(k, v)])"

text \<open>
  \<open>for (const [sym, trades] of bySymbol.entries())\<close>: one \<open>fetchAllKlines\<close>
  per symbol, in order; an error thrown by one of them leaves the loop.
\<close>

fun fetchSymbols ::
  "net \<Rightarrow> string \<Rightarrow> int \<Rightarrow> int \<Rightarrow> nat \<Rightarrow> (string \<times> trade list) list \<Rightarrow> nat
     \<Rightarrow> (string \<times> candle list) list \<Rightarrow> app
     \<Rightarrow> ((js_error + (string \<times> candle list) list) \<times> app) option" where
  "fetchSymbols net itv intervalMs lookaheadMs nSymbols [] symIdx symbolSeries a =
     Some (Inr symbolSeries, a)"
| "fetchSymbols net itv intervalMs lookaheadMs nSymbols ((s, trades) # rest) symIdx symbolSeries a =
     (let minClose = Min (set (map closeTime trades));
          maxClose = Max (set (map closeTime trades));
          startTime = minClose - intervalMs * 2;
          endTime = maxClose + lookaheadMs + intervalMs * 2;
          a1 = a\<lparr>hStatus := ''Fetching '' @ s @ '' candles ('' @ show_nat (Suc symIdx) @ ''/''
                            @ show_nat nSymbols @ '')...''\<rparr>
      in case fetchAllKlines net
                (\<lambda>chunk start end a. a\<lparr>hStatus := ''Fetching '' @ s @ '' candles... chunk ''
                                                   @ show_nat chunk\<rparr>)
                s itv startTime endTime a1 of
           None \<Rightarrow> None
         | Some (Inl e, a2) \<Rightarrow> Some (Inl e, a2)
         | Some (Inr klines, a2) \<Rightarrow>
             fetchSymbols net itv intervalMs lookaheadMs nSymbols rest (Suc symIdx)
               (mapSet s (indexKlines klines) symbolSeries) a2)"

text \<open>
  \<open>runHindsight\<close>, from the state of the page to the state it leaves; \<open>None\<close>
  when a fetch never returns. The \<open>catch\<close> sets the error and clears the status,
  the \<open>finally\<close> clears \<open>hLoading\<close>.
\<close>

definition runHindsight :: "net \<Rightarrow> app \<Rightarrow> app option" where
  "runHindsight net a =
     (if length (closedTrades a) = 0 then Some a
      else
        (let a1 = a\<lparr>hLoading := True, hStatus := ''Warming up the roast...'', error := '''',
                    hData := None\<rparr>;
             intervalMs = intervalMsOf (interval a);
             lookaheadMs = lookaheadHours a * 3600000;
             bySymbol = groupBySymbol (closedTrades a)
         in case fetchSymbols net (interval a) intervalMs lookaheadMs (length bySymbol) bySymbol 0 [] a1 of
              None \<Rightarrow> None
            | Some (Inl e, a2) \<Rightarrow>
                Some (a2\<lparr>error := ''Hindsight failed: '' @ errText e, hStatus := '''',
                         hLoading := False\<rparr>)
            | Some (Inr symbolSeries, a2) \<Rightarrow>
                (let a3 = a2\<lparr>hStatus := ''Computing fumbles...''\<rparr>;
                     realism = realismOf (realismPct a);
                     computed = map (\<lambda>t. hindsightTrade realism lookaheadMs
                                            (map_of symbolSeries (normalizeToBinanceSymbol (trade_symbol t))) t)
                                  (closedTrades a)
                 in Some (a3\<lparr>hData := Some computed, hStatus := ''Roast complete'',
                             hLoading := False\<rparr>))))"

text \<open>
  A source whose first response carries data and whose later responses fail: the
  primary with status 500, the fallback with a network error.
\<close>

definition failingNet :: net where
  "failingNet n base req =
     (if n = 0 then sampleNet n base req
      else if base = ''https://api.binance.com'' then HttpResponse 500 (Inl ''Unexpected token'')
      else NetworkError ''Failed to fetch'')"

text \<open>
  A page with closed trades of two symbols, and a source that answers the
  requests for the first symbol with one candle at the end of the requested
  range, and fails on both bases for every other symbol.
\<close>

definition twoSymbolApp :: app where
  "twoSymbolApp = sampleApp\<lparr>closedTrades := [sampleTrade, sampleTrade\<lparr>trade_symbol := ''ETHUSDT''\<rparr>]\<rparr>"

definition laterSymbolFails :: net where
  "laterSymbolFails n base req =
     (if req_symbol req = ''BTCUSDT''
      then HttpResponse 200
             (Inr [\<lparr>kline_openTime = req_endTime req, kline_high = Fin 120, kline_low = Fin 90\<rparr>])
      else if base = ''https://api.binance.com'' then HttpResponse 500 (Inl ''Unexpected token'')
      else NetworkError ''Failed to fetch'')"


section \<open>Properties of binary64 rounding\<close>

lemma pow2_powr: "pow2 k = 2 powr (real_of_int k)"
  by (simp add: pow2_def powr_int)

lemma pow2_pos [simp]: "0 < pow2 k"
  by (simp add: pow2_powr)

lemma pow2_nonzero [simp]: "pow2 k \<noteq> 0"
  using pow2_pos [of k] by linarith

lemma pow2_nonneg [simp]: "0 \<le> pow2 k"
  using pow2_pos [of k] by linarith

lemma pow2_not_le [simp]: "\<not> pow2 k \<le> 0"
  using pow2_pos [of k] by linarith

lemma pow2_add: "pow2 (a + b) = pow2 a * pow2 b"
  by (simp add: pow2_powr powr_add)

lemma pow2_mono: "a \<le> b \<Longrightarrow> pow2 a \<le> pow2 b"
  by (simp add: pow2_powr)

lemma pow2_less_iff: "pow2 a < pow2 b \<longleftrightarrow> a < b"
  by (simp add: pow2_powr)

lemma pow2_nonneg_int: "0 \<le> k \<Longrightarrow> pow2 k = of_int (2 ^ nat k)"
  by (simp add: pow2_def)

lemma rhe_of_int [simp]: "rhe (of_int n) = n"
  by (simp add: rhe_def)

lemma rhe_nonneg: "0 \<le> x \<Longrightarrow> 0 \<le> rhe x"
  by (auto simp: rhe_def Let_def)

lemma rhe_le: "x \<le> of_int n \<Longrightarrow> rhe x \<le> n"
proof (cases "x = of_int n")
  case True
  then show ?thesis by simp
next
  case False
  assume "x \<le> of_int n"
  with False have "x < of_int n" by simp
  then have "\<lfloor>x\<rfloor> < n" by (simp add: floor_less_iff)
  then show ?thesis by (auto simp: rhe_def Let_def)
qed

lemma expo_ge: "- 1022 \<le> expo x"
  by (simp add: expo_def)

lemma expo_upper: "x \<noteq> 0 \<Longrightarrow> \<bar>x\<bar> < pow2 (expo x + 1)"
proof -
  assume "x \<noteq> 0"
  then have pos: "0 < \<bar>x\<bar>" by simp
  have "\<bar>x\<bar> < 2 powr (real_of_int (\<lfloor>log 2 \<bar>x\<bar>\<rfloor> + 1))"
    using floor_log_eq_powr_iff [OF pos, of 2 "\<lfloor>log 2 \<bar>x\<bar>\<rfloor>"] by simp
  also have "\<dots> \<le> pow2 (expo x + 1)"
    by (simp add: pow2_powr expo_def)
  finally show ?thesis .
qed

lemma expo_eq:
  assumes "pow2 e \<le> \<bar>x\<bar>" and "\<bar>x\<bar> < pow2 (e + 1)" and "- 1022 \<le> e"
  shows "expo x = e"
proof -
  have pos: "0 < \<bar>x\<bar>" using assms(1) pow2_pos [of e] by linarith
  have "\<lfloor>log 2 \<bar>x\<bar>\<rfloor> = e"
    using floor_log_eq_powr_iff [OF pos, of 2 e] assms by (simp add: pow2_powr)
  with assms(3) show ?thesis by (simp add: expo_def)
qed

lemma expo_subnormal:
  assumes "x \<noteq> 0" and "\<bar>x\<bar> < pow2 (- 1022)"
  shows "expo x = - 1022"
proof -
  have pos: "0 < \<bar>x\<bar>" using assms(1) by simp
  have "log 2 \<bar>x\<bar> < - 1022"
    using assms(2) pos by (simp add: pow2_powr log_less_iff)
  then have "\<lfloor>log 2 \<bar>x\<bar>\<rfloor> \<le> - 1022"
    by (metis floor_less_iff less_imp_le of_int_minus of_int_numeral floor_mono floor_of_int order.strict_implies_order)
  then show ?thesis by (simp add: expo_def)
qed


lemma expo_lower:
  assumes "pow2 (- 1022) \<le> \<bar>x\<bar>"
  shows "pow2 (expo x) \<le> \<bar>x\<bar>"
proof -
  have pos: "0 < \<bar>x\<bar>" using assms pow2_pos [of "- 1022"] by linarith
  have a: "2 powr (real_of_int \<lfloor>log 2 \<bar>x\<bar>\<rfloor>) \<le> \<bar>x\<bar>"
    using floor_log_eq_powr_iff [OF pos, of 2 "\<lfloor>log 2 \<bar>x\<bar>\<rfloor>"] by simp
  show ?thesis
  proof (cases "- 1022 \<le> \<lfloor>log 2 \<bar>x\<bar>\<rfloor>")
    case True
    then have "expo x = \<lfloor>log 2 \<bar>x\<bar>\<rfloor>" by (simp add: expo_def)
    with a show ?thesis by (simp add: pow2_powr)
  next
    case False
    then have "expo x = - 1022" by (simp add: expo_def)
    with assms show ?thesis by simp
  qed
qed

lemma round64_zero [simp]: "round64 0 = Fin 0"
  by (simp add: round64_def)

lemma round64_at:
  assumes "pow2 e \<le> \<bar>x\<bar>" and "\<bar>x\<bar> < pow2 (e + 1)" and "- 1022 \<le> e"
  shows "round64 x =
     (let q = pow2 (e - 52);
          r = of_int (rhe (x / q)) * q
      in if pow2 1024 \<le> \<bar>r\<bar> then (if 0 < r then PosInf else NegInf) else Fin r)"
proof -
  have "x \<noteq> 0" using assms(1) pow2_pos [of e] by auto
  then show ?thesis by (simp add: round64_def expo_eq [OF assms])
qed

lemma round64_nonneg:
  assumes "0 \<le> x"
  shows "js_le (Fin 0) (round64 x)"
proof (cases "x = 0")
  case True
  then show ?thesis by simp
next
  case False
  let ?q = "pow2 (expo x - 52)"
  let ?r = "of_int (rhe (x / ?q)) * ?q"
  have "0 \<le> x / ?q" using assms by simp
  then have "0 \<le> rhe (x / ?q)" by (rule rhe_nonneg)
  then have r: "0 \<le> ?r" by simp
  show ?thesis
  proof (cases "pow2 1024 \<le> \<bar>?r\<bar>")
    case True
    with r have "0 < ?r" using pow2_pos [of 1024] by linarith
    with True False show ?thesis by (simp add: round64_def Let_def)
  next
    case big: False
    with False r show ?thesis by (simp add: round64_def Let_def)
  qed
qed

lemma round64_repr:
  assumes m: "\<bar>m\<bar> < 2 ^ 53" and j: "- 1074 \<le> j"
    and fin: "\<bar>of_int m * pow2 j\<bar> < pow2 1024"
  shows "round64 (of_int m * pow2 j) = Fin (of_int m * pow2 j)"
proof (cases "m = 0")
  case True
  then show ?thesis by simp
next
  case False
  let ?x = "of_int m * pow2 j"
  let ?e = "expo ?x"
  have x0: "?x \<noteq> 0" using False by simp
  have ax: "\<bar>?x\<bar> = of_int \<bar>m\<bar> * pow2 j" by (simp add: abs_mult)
  have "of_int \<bar>m\<bar> < (of_int (2 ^ 53) :: real)" using m by (simp only: of_int_less_iff)
  then have "\<bar>?x\<bar> < of_int (2 ^ 53) * pow2 j" unfolding ax by (intro mult_strict_right_mono) simp_all
  also have "\<dots> = pow2 53 * pow2 j" by (simp add: pow2_def)
  also have "\<dots> = pow2 (j + 53)" using pow2_add [of 53 j] by (simp add: add.commute)
  finally have up: "\<bar>?x\<bar> < pow2 (j + 53)" .
  have ej: "?e \<le> j + 52"
  proof (cases "- 1022 < ?e")
    case True
    then have "pow2 (- 1022) \<le> \<bar>?x\<bar>"
      using expo_subnormal [of ?x] x0 by (metis not_le order_less_irrefl)
    then have "pow2 ?e \<le> \<bar>?x\<bar>" by (rule expo_lower)
    with up have "pow2 ?e < pow2 (j + 53)" by linarith
    then show ?thesis by (simp add: pow2_less_iff)
  next
    case False
    with expo_ge [of ?x] have "?e = - 1022" by simp
    with j show ?thesis by simp
  qed
  define e where "e = ?e"
  define x where "x = ?x"
  define d where "d = j + 52 - e"
  have d0: "0 \<le> d" using ej by (simp add: d_def e_def)
  have pj: "pow2 d * pow2 (e - 52) = pow2 j"
    using pow2_add [of d "e - 52"] by (simp add: d_def)
  have "x = of_int m * (pow2 d * pow2 (e - 52))" unfolding pj by (simp add: x_def)
  then have xq: "x / pow2 (e - 52) = of_int m * pow2 d" by simp
  also have "\<dots> = of_int (m * 2 ^ nat d)" using d0 by (simp add: pow2_def)
  finally have "rhe (x / pow2 (e - 52)) = m * 2 ^ nat d" by (simp only: rhe_of_int)
  then have "of_int (rhe (x / pow2 (e - 52))) * pow2 (e - 52)
      = of_int m * pow2 d * pow2 (e - 52)"
    using d0 by (simp add: pow2_def)
  also have "\<dots> = x" unfolding x_def pj [symmetric] by simp
  finally have r: "of_int (rhe (x / pow2 (expo x - 52))) * pow2 (expo x - 52) = x"
    unfolding e_def x_def .
  have "x \<noteq> 0" "\<bar>x\<bar> < pow2 1024" using x0 fin by (simp_all add: x_def)
  then have "round64 x = Fin x" by (simp add: round64_def Let_def r)
  then show ?thesis by (simp only: x_def)
qed

lemma round64_int:
  assumes "\<bar>n\<bar> < 2 ^ 53"
  shows "round64 (of_int n) = Fin (of_int n)"
proof -
  have "\<bar>of_int n * pow2 0\<bar> < pow2 1024"
  proof -
    have "\<bar>real_of_int n\<bar> < of_int (2 ^ 53)" using assms by (simp only: of_int_abs [symmetric] of_int_less_iff)
    also have "\<dots> = pow2 53" by (simp add: pow2_def)
    also have "\<dots> < pow2 1024" by (simp add: pow2_less_iff)
    finally show ?thesis by (simp add: pow2_def)
  qed
  from round64_repr [OF assms _ this] show ?thesis by (simp add: pow2_def)
qed

lemma round64_numeral [simp]:
  "numeral k < (9007199254740992::int) \<Longrightarrow> round64 (numeral k) = Fin (numeral k)"
  using round64_int [of "numeral k"] by simp

lemma round64_neg_numeral [simp]:
  "numeral k < (9007199254740992::int) \<Longrightarrow> round64 (- numeral k) = Fin (- numeral k)"
  using round64_int [of "- numeral k"] by simp

lemma round64_one [simp]: "round64 1 = Fin 1"
  using round64_int [of 1] by simp

lemma rhe_ge: "of_int n \<le> x \<Longrightarrow> n \<le> rhe x"
proof -
  assume "of_int n \<le> x"
  then have "n \<le> \<lfloor>x\<rfloor>" by (simp add: le_floor_iff)
  then show ?thesis by (auto simp: rhe_def Let_def)
qed

lemma rhe_mono: "x \<le> y \<Longrightarrow> rhe x \<le> rhe y"
proof (cases "\<lfloor>x\<rfloor> = \<lfloor>y\<rfloor>")
  case True
  assume "x \<le> y"
  then show ?thesis using True by (auto simp: rhe_def Let_def)
next
  case False
  assume "x \<le> y"
  then have "\<lfloor>x\<rfloor> \<le> \<lfloor>y\<rfloor>" by (rule floor_mono)
  with False have "\<lfloor>x\<rfloor> + 1 \<le> \<lfloor>y\<rfloor>" by simp
  moreover have "rhe x \<le> \<lfloor>x\<rfloor> + 1" by (auto simp: rhe_def Let_def)
  moreover have "\<lfloor>y\<rfloor> \<le> rhe y" by (auto simp: rhe_def Let_def)
  ultimately show ?thesis by linarith
qed

lemma expo_mono:
  assumes "0 < x" and "x \<le> y"
  shows "expo x \<le> expo y"
proof -
  have "log 2 \<bar>x\<bar> \<le> log 2 \<bar>y\<bar>" using assms by simp
  then have "\<lfloor>log 2 \<bar>x\<bar>\<rfloor> \<le> \<lfloor>log 2 \<bar>y\<bar>\<rfloor>" by (rule floor_mono)
  then show ?thesis by (simp add: expo_def)
qed

text \<open>The rounded value before the test for overflow.\<close>

lemma round64_cases:
  assumes "x \<noteq> 0"
  shows "round64 x =
     (if pow2 1024 \<le> \<bar>of_int (rhe (x / pow2 (expo x - 52))) * pow2 (expo x - 52)\<bar>
      then (if 0 < of_int (rhe (x / pow2 (expo x - 52))) * pow2 (expo x - 52) then PosInf else NegInf)
      else Fin (of_int (rhe (x / pow2 (expo x - 52))) * pow2 (expo x - 52)))"
  using assms by (simp add: round64_def Let_def)

lemma rounded_upper:
  assumes "0 < x"
  shows "of_int (rhe (x / pow2 (expo x - 52))) * pow2 (expo x - 52) \<le> pow2 (expo x + 1)"
proof -
  let ?q = "pow2 (expo x - 52)"
  have "x < pow2 (expo x + 1)" using expo_upper [of x] assms by simp
  also have "\<dots> = pow2 53 * ?q" using pow2_add [of 53 "expo x - 52"] by (simp add: add.commute)
  finally have "x / ?q < pow2 53" by (simp add: pos_divide_less_eq)
  also have "\<dots> = of_int (2 ^ 53)" by (simp add: pow2_def)
  finally have "rhe (x / ?q) \<le> 2 ^ 53" by (intro rhe_le) simp
  then have "of_int (rhe (x / ?q)) \<le> (of_int (2 ^ 53) :: real)" by (simp only: of_int_le_iff)
  then have "of_int (rhe (x / ?q)) * ?q \<le> of_int (2 ^ 53) * ?q"
    by (intro mult_right_mono) simp_all
  also have "\<dots> = pow2 53 * ?q" by (simp add: pow2_def)
  also have "\<dots> = pow2 (expo x + 1)" using pow2_add [of 53 "expo x - 52"] by (simp add: add.commute)
  finally show ?thesis .
qed

lemma rounded_lower:
  assumes "0 < x" and "- 1022 < expo x"
  shows "pow2 (expo x) \<le> of_int (rhe (x / pow2 (expo x - 52))) * pow2 (expo x - 52)"
proof -
  let ?q = "pow2 (expo x - 52)"
  have "pow2 (- 1022) \<le> \<bar>x\<bar>"
    using expo_subnormal [of x] assms by (metis not_le order_less_irrefl)
  then have "pow2 (expo x) \<le> x" using expo_lower [of x] assms(1) by simp
  moreover have e: "pow2 (expo x) = pow2 52 * ?q" using pow2_add [of 52 "expo x - 52"] by simp
  ultimately have "pow2 52 \<le> x / ?q" by (simp add: pos_le_divide_eq)
  moreover have "pow2 52 = of_int (2 ^ 52)" by (simp add: pow2_def)
  ultimately have "2 ^ 52 \<le> rhe (x / ?q)" by (intro rhe_ge) simp
  then have "(of_int (2 ^ 52) :: real) \<le> of_int (rhe (x / ?q))" by (simp only: of_int_le_iff)
  then have "of_int (2 ^ 52) * ?q \<le> of_int (rhe (x / ?q)) * ?q"
    by (intro mult_right_mono) simp_all
  moreover have "of_int (2 ^ 52) * ?q = pow2 (expo x)" unfolding e by (simp add: pow2_def)
  ultimately show ?thesis by (simp only:)
qed

lemma rounded_mono:
  assumes "0 < x" and "x \<le> y"
  shows "of_int (rhe (x / pow2 (expo x - 52))) * pow2 (expo x - 52)
       \<le> of_int (rhe (y / pow2 (expo y - 52))) * pow2 (expo y - 52)"
proof (cases "expo x = expo y")
  case True
  let ?q = "pow2 (expo y - 52)"
  have "x / ?q \<le> y / ?q" using assms(2) by (simp add: divide_right_mono)
  then have "rhe (x / ?q) \<le> rhe (y / ?q)" by (rule rhe_mono)
  then have "(of_int (rhe (x / ?q)) :: real) \<le> of_int (rhe (y / ?q))" by (simp only: of_int_le_iff)
  then have "of_int (rhe (x / ?q)) * ?q \<le> of_int (rhe (y / ?q)) * ?q"
    by (intro mult_right_mono) simp_all
  then show ?thesis by (simp only: True)
next
  case False
  have ypos: "0 < y" using assms by simp
  from expo_mono [OF assms] False have lt: "expo x < expo y" by simp
  with expo_ge [of x] have "- 1022 < expo y" by simp
  from rounded_lower [OF ypos this] have lo: "pow2 (expo y)
      \<le> of_int (rhe (y / pow2 (expo y - 52))) * pow2 (expo y - 52)" .
  have "pow2 (expo x + 1) \<le> pow2 (expo y)" using lt by (intro pow2_mono) simp
  with rounded_upper [OF assms(1)] lo show ?thesis by linarith
qed

lemma round64_mono_nonneg:
  assumes "0 \<le> x" and "x \<le> y"
  shows "js_le (round64 x) (round64 y)"
proof (cases "x = 0")
  case True
  then show ?thesis using round64_nonneg [of y] assms by simp
next
  case False
  then have xpos: "0 < x" using assms(1) by simp
  then have ypos: "0 < y" using assms(2) by simp
  let ?rx = "of_int (rhe (x / pow2 (expo x - 52))) * pow2 (expo x - 52)"
  let ?ry = "of_int (rhe (y / pow2 (expo y - 52))) * pow2 (expo y - 52)"
  have m: "?rx \<le> ?ry" by (rule rounded_mono [OF xpos assms(2)])
  have "0 \<le> x / pow2 (expo x - 52)" using assms(1) by simp
  then have "0 \<le> rhe (x / pow2 (expo x - 52))" by (rule rhe_nonneg)
  then have rx0: "0 \<le> ?rx" by simp
  have x0: "x \<noteq> 0" and y0: "y \<noteq> 0" using xpos ypos by simp_all
  show ?thesis
    unfolding round64_cases [OF x0] round64_cases [OF y0]
    using m rx0 pow2_pos [of 1024] by auto
qed

lemma round64_idem:
  assumes "round64 x = Fin y"
  shows "round64 y = Fin y"
proof (cases "x = 0")
  case True
  with assms show ?thesis by simp
next
  case False
  let ?e = "expo x"
  let ?q = "pow2 (?e - 52)"
  define n where "n = rhe (x / ?q)"
  have y: "y = of_int n * ?q" and fin: "\<bar>of_int n * ?q\<bar> < pow2 1024"
    using assms False by (auto simp: round64_def Let_def n_def split: if_splits)
  have "\<bar>x\<bar> < pow2 (?e + 1)" by (rule expo_upper [OF False])
  also have "\<dots> = pow2 53 * ?q" using pow2_add [of 53 "?e - 52"] by (simp add: add.commute)
  finally have "\<bar>x\<bar> / ?q < pow2 53" by (simp add: pos_divide_less_eq)
  moreover have "\<bar>x / ?q\<bar> = \<bar>x\<bar> / ?q" by (simp add: abs_divide)
  moreover have "pow2 53 = of_int (2 ^ 53)" by (simp add: pow2_def)
  ultimately have "\<bar>x / ?q\<bar> < of_int (2 ^ 53)" by (simp only:)
  then have b: "x / ?q \<le> of_int (2 ^ 53)" "of_int (- (2 ^ 53)) \<le> x / ?q"
    by linarith+
  have n53: "n \<le> 2 ^ 53" "- (2 ^ 53) \<le> n"
    unfolding n_def using rhe_le [OF b(1)] rhe_ge [OF b(2)] by simp_all
  have j: "- 1074 \<le> ?e - 52" using expo_ge [of x] by simp
  show ?thesis
  proof (cases "\<bar>n\<bar> < 2 ^ 53")
    case True
    from round64_repr [OF True j fin] show ?thesis by (simp only: y)
  next
    case False
    with n53 have "n = 2 ^ 53 \<or> n = - (2 ^ 53)" by linarith
    then obtain m :: int where m: "\<bar>m\<bar> < 2 ^ 53" "n = m * 2"
      by (auto intro: that [of "2 ^ 52"] that [of "- (2 ^ 52)"])
    have "pow2 (?e - 51) = 2 * ?q" using pow2_add [of 1 "?e - 52"] by (simp add: pow2_def)
    then have y': "y = of_int m * pow2 (?e - 51)" by (simp add: y m(2))
    have j': "- 1074 \<le> ?e - 51" using expo_ge [of x] by simp
    have "\<bar>of_int m * pow2 (?e - 51)\<bar> < pow2 1024" using fin y y' by simp
    from round64_repr [OF m(1) j' this] show ?thesis by (simp only: y')
  qed
qed

lemma round64_le_double:
  assumes "0 \<le> x" and "x \<le> d" and "round64 d = Fin d"
  shows "\<exists>y. round64 x = Fin y \<and> 0 \<le> y \<and> y \<le> d"
proof -
  have "js_le (round64 x) (Fin d)"
    using round64_mono_nonneg [OF assms(1,2)] by (simp only: assms(3))
  moreover have "js_le (Fin 0) (round64 x)" by (rule round64_nonneg [OF assms(1)])
  ultimately show ?thesis by (cases "round64 x") simp_all
qed

lemma round64_ge_double:
  assumes "0 \<le> d" and "d \<le> x" and "round64 d = Fin d"
  shows "js_le (Fin d) (round64 x)"
  using round64_mono_nonneg [OF assms(1,2)] by (simp only: assms(3))

lemma round64_not_NaN [simp]: "round64 x \<noteq> NaN"
  by (simp add: round64_def Let_def)

lemma round64_half [simp]: "round64 (1 / 2) = Fin (1 / 2)"
  using round64_repr [of 1 "- 1"] by (simp add: pow2_def)

lemma fl_add_Fin [simp]: "fl_add (Fin a) (Fin b) = round64 (a + b)"
  by (simp add: fl_add_def)

lemma fl_sub_Fin [simp]: "fl_sub (Fin a) (Fin b) = round64 (a - b)"
  by (simp add: fl_sub_def)

lemma fl_mul_Fin [simp]: "fl_mul (Fin a) (Fin b) = round64 (a * b)"
  by (simp add: fl_mul_def)

lemma fl_div_Fin [simp]: "b \<noteq> 0 \<Longrightarrow> fl_div (Fin a) (Fin b) = round64 (a / b)"
  by (simp add: fl_div_def)

text \<open>Adding to zero, and multiplying by one, change no rounded value.\<close>

lemma fl_add_zero_round: "fl_add (Fin 0) (round64 x) = round64 x"
proof (cases "round64 x")
  case (Fin y)
  then show ?thesis using round64_idem [OF Fin] by simp
qed (simp_all add: fl_add_def)

lemma fl_mul_one_round: "fl_mul (round64 x) (Fin 1) = round64 x"
proof (cases "round64 x")
  case (Fin y)
  then show ?thesis using round64_idem [OF Fin] by simp
qed (simp_all add: fl_mul_def)

text \<open>The literal \<open>1e-12\<close> is not negative.\<close>

lemma dust_nonneg: "js_le (Fin 0) (round64 (1 / 10 ^ 12))"
  by (rule round64_nonneg) simp

lemma dbl_eq: "round64 x = Fin y \<Longrightarrow> dbl x = y"
  by (simp add: dbl_def)

section \<open>Properties of the lot matcher\<close>

lemma isFinite_iff: "isFinite x \<longleftrightarrow> (\<exists>a. x = Fin a)"
  by (cases x) simp_all

lemma matchLots_zero: "matchLots (Fin 0) stack (c, n, et) = (Fin 0, stack, (c, n, et))"
  by (cases stack) (simp_all add: js_gt_def)

text \<open>
  The loop on a remaining quantity that is a binary64 number and not negative,
  over lots whose quantities are finite and not negative. The loop takes from
  the lots in order: the \<open>i\<close>-th take is the smaller of the running remainder
  and the quantity of the \<open>i\<close>-th lot. The remainder stays between 0 and its
  first value, and the loop stops with a non-empty queue only when nothing
  remains.
\<close>

lemma matchLots_takes:
  assumes "0 \<le> r" and "round64 r = Fin r"
    and "\<forall>l\<in>set stack. \<exists>q. lot_qty l = Fin q \<and> 0 \<le> q"
  shows "\<exists>r' stack' n' et' takes.
      matchLots (Fin r) stack (c, n, et)
        = (Fin r', stack', (foldl fl_add c (map Fin takes), n', et')) \<and>
      0 \<le> r' \<and> r' \<le> r \<and> (r' = 0 \<or> stack' = []) \<and>
      length takes \<le> length stack \<and>
      (\<forall>i<length takes. 0 \<le> takes ! i \<and>
          Fin (takes ! i) = js_min (foldl fl_sub (Fin r) (map Fin (take i takes)))
                                   (lot_qty (stack ! i))) \<and>
      Fin r' = foldl fl_sub (Fin r) (map Fin takes)"
  using assms
proof (induction stack arbitrary: r c n et)
  case Nil
  have "matchLots (Fin r) [] (c, n, et) = (Fin r, [], (foldl fl_add c (map Fin []), n, et)) \<and>
      0 \<le> r \<and> r \<le> r \<and> (r = 0 \<or> ([]::lot list) = []) \<and>
      length ([]::real list) \<le> length ([]::lot list) \<and>
      (\<forall>i<length ([]::real list). 0 \<le> [] ! i \<and>
          Fin ([] ! i) = js_min (foldl fl_sub (Fin r) (map Fin (take i [])))
                                (lot_qty ([] ! i))) \<and>
      Fin r = foldl fl_sub (Fin r) (map Fin [])"
    using Nil.prems(1) by simp
  then show ?case by (intro exI)
next
  case (Cons lot rest)
  obtain q where q: "lot_qty lot = Fin q" "0 \<le> q" using Cons.prems(3) by auto
  define et1 where "et1 = (case et of None \<Rightarrow> Some (lot_time lot)
      | Some e \<Rightarrow> if lot_time lot < e then Some (lot_time lot) else Some e)"
  show ?case
  proof (cases "0 < r")
    case False
    then have r0: "r = 0" using Cons.prems(1) by simp
    have "matchLots (Fin r) (lot # rest) (c, n, et)
          = (Fin 0, lot # rest, (foldl fl_add c (map Fin []), n, et)) \<and>
      (0::real) \<le> 0 \<and> 0 \<le> r \<and> ((0::real) = 0 \<or> lot # rest = []) \<and>
      length ([]::real list) \<le> length (lot # rest) \<and>
      (\<forall>i<length ([]::real list). 0 \<le> [] ! i \<and>
          Fin ([] ! i) = js_min (foldl fl_sub (Fin r) (map Fin (take i [])))
                                (lot_qty ((lot # rest) ! i))) \<and>
      Fin 0 = foldl fl_sub (Fin r) (map Fin [])"
      using r0 by (simp add: js_gt_def)
    then show ?thesis by (intro exI)
  next
    case pos: True
    show ?thesis
    proof (cases "r < q")
      case True
      define stack' where "stack' = (if js_le (round64 (q - r)) (round64 (1 / 10 ^ 12))
          then rest else lot\<lparr>lot_qty := round64 (q - r)\<rparr> # rest)"
      have run: "matchLots (Fin r) (lot # rest) (c, n, et)
          = (Fin 0, stack', (fl_add c (Fin r), fl_add n (fl_mul (Fin r) (lot_price lot)), et1))"
        using pos True q
        by (simp add: js_gt_def js_min_def Let_def matchLots_zero stack'_def et1_def)
      have "matchLots (Fin r) (lot # rest) (c, n, et)
          = (Fin 0, stack', (foldl fl_add c (map Fin [r]),
               fl_add n (fl_mul (Fin r) (lot_price lot)), et1)) \<and>
        (0::real) \<le> 0 \<and> 0 \<le> r \<and> ((0::real) = 0 \<or> stack' = []) \<and>
        length [r] \<le> length (lot # rest) \<and>
        (\<forall>i<length [r]. 0 \<le> [r] ! i \<and>
            Fin ([r] ! i) = js_min (foldl fl_sub (Fin r) (map Fin (take i [r])))
                                   (lot_qty ((lot # rest) ! i))) \<and>
        Fin 0 = foldl fl_sub (Fin r) (map Fin [r])"
        using run pos True q by (simp add: js_min_def)
      then show ?thesis by (intro exI)
    next
      case False
      then have qr: "q \<le> r" by simp
      have "0 \<le> r - q" "r - q \<le> r" using qr q(2) by simp_all
      from round64_le_double [OF this Cons.prems(2)]
      obtain r1 where r1: "round64 (r - q) = Fin r1" "0 \<le> r1" "r1 \<le> r" by blast
      have d1: "round64 r1 = Fin r1" by (rule round64_idem [OF r1(1)])
      have fin: "\<forall>l\<in>set rest. \<exists>q. lot_qty l = Fin q \<and> 0 \<le> q"
        using Cons.prems(3) by simp
      have step: "matchLots (Fin r) (lot # rest) (c, n, et)
          = matchLots (Fin r1) rest
              (fl_add c (Fin q), fl_add n (fl_mul (Fin q) (lot_price lot)), et1)"
        using pos False q r1(1) dust_nonneg
        by (simp add: js_gt_def js_min_def Let_def et1_def)
      from Cons.IH [OF r1(2) d1 fin, of "fl_add c (Fin q)"
          "fl_add n (fl_mul (Fin q) (lot_price lot))" et1]
      obtain r' stack' n' et' takes where
        run: "matchLots (Fin r1) rest
                (fl_add c (Fin q), fl_add n (fl_mul (Fin q) (lot_price lot)), et1)
              = (Fin r', stack', (foldl fl_add (fl_add c (Fin q)) (map Fin takes), n', et'))"
        and rng: "0 \<le> r'" "r' \<le> r1" "r' = 0 \<or> stack' = []"
        and len: "length takes \<le> length rest"
        and tk: "\<forall>i<length takes. 0 \<le> takes ! i \<and>
            Fin (takes ! i) = js_min (foldl fl_sub (Fin r1) (map Fin (take i takes)))
                                     (lot_qty (rest ! i))"
        and rem: "Fin r' = foldl fl_sub (Fin r1) (map Fin takes)"
        by blast
      have tk': "0 \<le> (q # takes) ! i \<and>
            Fin ((q # takes) ! i) = js_min (foldl fl_sub (Fin r) (map Fin (take i (q # takes))))
                                           (lot_qty ((lot # rest) ! i))"
        if "i < length (q # takes)" for i
      proof (cases i)
        case 0
        then show ?thesis using q False by (simp add: js_min_def)
      next
        case (Suc j)
        with that have "j < length takes" by simp
        with tk have "0 \<le> takes ! j \<and>
            Fin (takes ! j) = js_min (foldl fl_sub (Fin r1) (map Fin (take j takes)))
                                     (lot_qty (rest ! j))"
          by blast
        then show ?thesis using Suc r1(1) by simp
      qed
      have "matchLots (Fin r) (lot # rest) (c, n, et)
          = (Fin r', stack', (foldl fl_add c (map Fin (q # takes)), n', et')) \<and>
        0 \<le> r' \<and> r' \<le> r \<and> (r' = 0 \<or> stack' = []) \<and>
        length (q # takes) \<le> length (lot # rest) \<and>
        (\<forall>i<length (q # takes). 0 \<le> (q # takes) ! i \<and>
            Fin ((q # takes) ! i) = js_min (foldl fl_sub (Fin r) (map Fin (take i (q # takes))))
                                           (lot_qty ((lot # rest) ! i))) \<and>
        Fin r' = foldl fl_sub (Fin r) (map Fin (q # takes))"
        using step run rng r1 len tk' rem by simp
      then show ?thesis by (intro exI)
    qed
  qed
qed

text \<open>What a CLOSE fill does to the state, given the outcome of its matching loop.\<close>

lemma processFill_close:
  assumes "action f = CLOSE"
    and "matchLots (qty f) (getStack stacks (getKey f)) (Fin 0, Fin 0, None)
         = (remaining, stack', (c, n, et))"
  shows "processFill (stacks, trades) f =
     (stacks(getKey f \<mapsto> stack'),
      trades @
      [\<lparr>exchange = ''BloFin'',
        trade_symbol = symbol f,
        trade_direction = direction f,
        entryPrice = finiteOrNull (if js_gt c (Fin 0) then fl_div n c else NaN),
        exitPrice = finiteOrNull (avgFill f),
        trade_qty = finiteOrNull (qty f),
        trade_pnl = pnl f,
        trade_pnlPct = pnlPct f,
        holdMins = finiteOrNull (case et of None \<Rightarrow> NaN | Some e \<Rightarrow> minsBetween e (time f)),
        closeTime = time f,
        trade_note = (if js_gt c (Fin 0) then None
                      else Some ''No matching open found (CSV may be partial).'')\<rparr>])"
  using assms by (simp add: processFill_def Let_def)

lemma processFill_not_close:
  "action f \<noteq> CLOSE \<Longrightarrow> snd (processFill (stacks, trades) f) = trades"
  by (simp add: processFill_def Let_def)

text \<open>
  C1, as the code has it, in binary64 arithmetic. A CLOSE fill whose quantity
  \<open>Q \<ge> 0\<close> is a binary64 number, against a queue of lots whose quantities are
  finite and not negative, always emits exactly one trade. The loop takes from
  the lots at the head of the queue, in order: the \<open>i\<close>-th take is the smaller
  of the running remainder and the quantity of the \<open>i\<close>-th lot, the running
  remainder being \<open>Q\<close> less the earlier takes, each subtraction rounded. The
  final remainder is between 0 and \<open>Q\<close>, and it is 0 unless the loop emptied the
  queue. The quantity taken, \<open>entryQtyTotal\<close>, is the sum of the takes, each
  addition rounded. The note is set exactly when \<open>entryQtyTotal\<close> is not
  positive: a partial match is emitted with a null note.
\<close>

theorem close_quantity_conservation:
  assumes "action f = CLOSE" and "qty f = Fin Q" and "0 \<le> Q" and "round64 Q = Fin Q"
    and "\<forall>l\<in>set (getStack stacks (getKey f)). \<exists>q. lot_qty l = Fin q \<and> 0 \<le> q"
  shows "\<exists>rem stack' c notional et tr takes.
     matchLots (qty f) (getStack stacks (getKey f)) (Fin 0, Fin 0, None)
       = (Fin rem, stack', (c, notional, et)) \<and>
     processFill (stacks, trades) f = (stacks(getKey f \<mapsto> stack'), trades @ [tr]) \<and>
     0 \<le> rem \<and> rem \<le> Q \<and> (rem = 0 \<or> stack' = []) \<and>
     length takes \<le> length (getStack stacks (getKey f)) \<and>
     (\<forall>i<length takes. 0 \<le> takes ! i \<and>
        Fin (takes ! i) = js_min (foldl fl_sub (Fin Q) (map Fin (take i takes)))
                                 (lot_qty (getStack stacks (getKey f) ! i))) \<and>
     Fin rem = foldl fl_sub (Fin Q) (map Fin takes) \<and>
     c = foldl fl_add (Fin 0) (map Fin takes) \<and>
     trade_note tr = (if js_gt c (Fin 0) then None
                      else Some ''No matching open found (CSV may be partial).'')"
proof -
  from matchLots_takes [OF assms(3,4,5), of "Fin 0" "Fin 0" None]
  obtain rem stack' notional et takes where
    m: "matchLots (Fin Q) (getStack stacks (getKey f)) (Fin 0, Fin 0, None)
        = (Fin rem, stack', (foldl fl_add (Fin 0) (map Fin takes), notional, et))"
    and rest: "0 \<le> rem" "rem \<le> Q" "rem = 0 \<or> stack' = []"
      "length takes \<le> length (getStack stacks (getKey f))"
      "\<forall>i<length takes. 0 \<le> takes ! i \<and>
        Fin (takes ! i) = js_min (foldl fl_sub (Fin Q) (map Fin (take i takes)))
                                 (lot_qty (getStack stacks (getKey f) ! i))"
      "Fin rem = foldl fl_sub (Fin Q) (map Fin takes)"
    by blast
  have m': "matchLots (qty f) (getStack stacks (getKey f)) (Fin 0, Fin 0, None)
        = (Fin rem, stack', (foldl fl_add (Fin 0) (map Fin takes), notional, et))"
    using m by (simp only: assms(2))
  let ?c = "foldl fl_add (Fin 0) (map Fin takes)"
  let ?tr = "\<lparr>exchange = ''BloFin'',
        trade_symbol = symbol f,
        trade_direction = direction f,
        entryPrice = finiteOrNull (if js_gt ?c (Fin 0) then fl_div notional ?c else NaN),
        exitPrice = finiteOrNull (avgFill f),
        trade_qty = finiteOrNull (qty f),
        trade_pnl = pnl f,
        trade_pnlPct = pnlPct f,
        holdMins = finiteOrNull (case et of None \<Rightarrow> NaN | Some e \<Rightarrow> minsBetween e (time f)),
        closeTime = time f,
        trade_note = (if js_gt ?c (Fin 0) then None
                      else Some ''No matching open found (CSV may be partial).'')\<rparr>"
  have "matchLots (qty f) (getStack stacks (getKey f)) (Fin 0, Fin 0, None)
       = (Fin rem, stack', (?c, notional, et)) \<and>
     processFill (stacks, trades) f = (stacks(getKey f \<mapsto> stack'), trades @ [?tr]) \<and>
     0 \<le> rem \<and> rem \<le> Q \<and> (rem = 0 \<or> stack' = []) \<and>
     length takes \<le> length (getStack stacks (getKey f)) \<and>
     (\<forall>i<length takes. 0 \<le> takes ! i \<and>
        Fin (takes ! i) = js_min (foldl fl_sub (Fin Q) (map Fin (take i takes)))
                                 (lot_qty (getStack stacks (getKey f) ! i))) \<and>
     Fin rem = foldl fl_sub (Fin Q) (map Fin takes) \<and>
     ?c = foldl fl_add (Fin 0) (map Fin takes) \<and>
     trade_note ?tr = (if js_gt ?c (Fin 0) then None
                      else Some ''No matching open found (CSV may be partial).'')"
    using m' rest processFill_close [OF assms(1) m', of trades] by simp
  then show ?thesis by (intro exI)
qed

text \<open>
  The theorem at a CLOSE of 5 against one open lot of 2: the hypotheses hold,
  and 2 is taken, 3 remains, the queue is emptied and the note is null.
\<close>

theorem close_quantity_conservation_witness:
  "action (closeFill 10 110 5) = CLOSE \<and> qty (closeFill 10 110 5) = Fin 5 \<and> (0::real) \<le> 5 \<and>
   round64 5 = Fin 5 \<and>
   list_all (\<lambda>l. \<exists>q. lot_qty l = Fin q \<and> 0 \<le> q)
     (getStack [''BTCUSDT|LONG'' \<mapsto> [sampleLot 0 100 2]] (getKey (closeFill 10 110 5))) \<and>
   (\<exists>rem stack' c notional et tr takes.
     matchLots (qty (closeFill 10 110 5))
        (getStack [''BTCUSDT|LONG'' \<mapsto> [sampleLot 0 100 2]] (getKey (closeFill 10 110 5)))
        (Fin 0, Fin 0, None)
       = (Fin rem, stack', (c, notional, et)) \<and>
     processFill ([''BTCUSDT|LONG'' \<mapsto> [sampleLot 0 100 2]], []) (closeFill 10 110 5)
       = ([''BTCUSDT|LONG'' \<mapsto> [sampleLot 0 100 2]](getKey (closeFill 10 110 5) \<mapsto> stack'), [] @ [tr]) \<and>
     0 \<le> rem \<and> rem \<le> 5 \<and> (rem = 0 \<or> stack' = []) \<and>
     length takes \<le> length (getStack [''BTCUSDT|LONG'' \<mapsto> [sampleLot 0 100 2]]
                                (getKey (closeFill 10 110 5))) \<and>
     (\<forall>i<length takes. 0 \<le> takes ! i \<and>
        Fin (takes ! i) = js_min (foldl fl_sub (Fin 5) (map Fin (take i takes)))
                                 (lot_qty (getStack [''BTCUSDT|LONG'' \<mapsto> [sampleLot 0 100 2]]
                                             (getKey (closeFill 10 110 5)) ! i))) \<and>
     Fin rem = foldl fl_sub (Fin 5) (map Fin takes) \<and>
     c = foldl fl_add (Fin 0) (map Fin takes) \<and>
     trade_note tr = (if js_gt c (Fin 0) then None
                      else Some ''No matching open found (CSV may be partial).'')) \<and>
   matchLots (Fin 5) [sampleLot 0 100 2] (Fin 0, Fin 0, None)
     = (Fin 3, [], (Fin 2, Fin 200, Some 0))"
proof -
  have h1: "action (closeFill 10 110 5) = CLOSE" by (simp add: closeFill_def)
  have h2: "qty (closeFill 10 110 5) = Fin 5" by (simp add: closeFill_def)
  have h3: "(0::real) \<le> 5" by simp
  have h4: "round64 5 = Fin 5" by simp
  have h5: "\<forall>l\<in>set (getStack [''BTCUSDT|LONG'' \<mapsto> [sampleLot 0 100 2]]
                (getKey (closeFill 10 110 5))). \<exists>q. lot_qty l = Fin q \<and> 0 \<le> q"
    by (simp add: getStack_def getKey_def closeFill_def sampleLot_def)
  have run: "matchLots (Fin 5) [sampleLot 0 100 2] (Fin 0, Fin 0, None)
     = (Fin 3, [], (Fin 2, Fin 200, Some 0))"
    using dust_nonneg by (simp add: sampleLot_def js_gt_def js_min_def)
  from close_quantity_conservation [OF h1 h2 h3 h4 h5, of "[]"] h1 h2 h4 h5 run
  show ?thesis by (simp add: list_all_iff)
qed

text \<open>
  The double nearest to a decimal literal, for the literals of the examples.
\<close>

lemma dust_value:
  "round64 (1 / 10 ^ 12) = Fin (4951760157141521 / 4951760157141521099596496896)"
  by (simp add: round64_at [of "- 40"] pow2_def rhe_def)

lemma dust_numeral:
  "round64 (1 / 1000000000000) = Fin (4951760157141521 / 4951760157141521099596496896)"
  using dust_value by simp

lemma dbl_3366: "dbl (3366 / 1000) = 7579558172864545 / 2251799813685248"
  by (rule dbl_eq) (simp add: round64_at [of 1] pow2_def rhe_def)

lemma dbl_1277: "dbl (1277 / 1000) = 5751096724152123 / 4503599627370496"
  by (rule dbl_eq) (simp add: round64_at [of 0] pow2_def rhe_def)

lemma dbl_4209: "dbl (4209 / 1000) = 1184728176975151 / 281474976710656"
  by (rule dbl_eq) (simp add: round64_at [of 2] pow2_def rhe_def)

text \<open>
  C1 as stated fails in two ways. A CLOSE of 5 against a single open lot of 2
  takes 2, which falls short of 5, and the emitted trade's note is null. And in
  binary64 arithmetic the quantity taken can exceed the requested quantity while
  a lot is left in the queue: a CLOSE of 3.366 against lots of 1.277 and 4.209
  takes 1.277 and then 2.0890000000000004, which add up to 3.3660000000000005.
\<close>

theorem close_conservation_counterexample:
  "matchLots (Fin 5) [sampleLot 0 100 2] (Fin 0, Fin 0, None)
     = (Fin 3, [], (Fin 2, Fin 200, Some 0)) \<and>
   map trade_note (buildClosedTradesFromFills [closeFill 10 110 5, openFill 0 100 2]) = [None] \<and>
   matchLots (Fin (dbl (3366 / 1000)))
       [sampleLot 0 100 (dbl (1277 / 1000)), sampleLot 1 100 (dbl (4209 / 1000))]
       (Fin 0, Fin 0, None)
     = (Fin 0, [sampleLot 1 100 (1193453901253181 / 562949953421312)],
        (Fin (3789779086432273 / 1125899906842624), Fin (2960764911275213 / 8796093022208),
         Some 0)) \<and>
   dbl (3366 / 1000) < 3789779086432273 / 1125899906842624"
proof -
  have one: "matchLots (Fin 5) [sampleLot 0 100 2] (Fin 0, Fin 0, None)
     = (Fin 3, [], (Fin 2, Fin 200, Some 0))"
    using dust_nonneg by (simp add: sampleLot_def js_gt_def js_min_def)
  have two: "map trade_note (buildClosedTradesFromFills [closeFill 10 110 5, openFill 0 100 2])
     = [None]"
    using dust_nonneg
    by (simp add: buildClosedTradesFromFills_def runFills_def sortFills_def closeFill_def
      openFill_def processFill_def getKey_def getStack_def js_gt_def js_min_def)
  have three: "matchLots (Fin (dbl (3366 / 1000)))
       [sampleLot 0 100 (dbl (1277 / 1000)), sampleLot 1 100 (dbl (4209 / 1000))]
       (Fin 0, Fin 0, None)
     = (Fin 0, [sampleLot 1 100 (1193453901253181 / 562949953421312)],
        (Fin (3789779086432273 / 1125899906842624), Fin (2960764911275213 / 8796093022208),
         Some 0))"
    unfolding dbl_3366 dbl_1277 dbl_4209
    by (simp add: sampleLot_def js_gt_def js_min_def dust_numeral Let_def
        round64_at [of 0] round64_at [of 1] round64_at [of 6] round64_at [of 7]
        round64_at [of 8] pow2_def rhe_def)
  have four: "dbl (3366 / 1000) < 3789779086432273 / 1125899906842624"
    unfolding dbl_3366 by simp
  show ?thesis using one two three four by (simp only: simp_thms)
qed

text \<open>
  C7, as the code has it, in binary64 arithmetic. A CLOSE takes the two lots
  \<open>q1 @ p1\<close> and \<open>q2 @ p2\<close> at the head of the queue whole, and no other lot,
  when \<open>q1\<close> is at most the requested quantity \<open>Q\<close>, \<open>q2\<close> is at most the
  remainder \<open>r\<close> that the rounded subtraction \<open>Q - q1\<close> leaves, and either
  \<open>r\<close> is \<open>q2\<close> or the queue holds nothing else. The trade it emits then has
  the entry price \<open>(q1 * p1 + q2 * p2) / (q1 + q2)\<close> with every operation
  rounded, null when that is not finite, and the rest of the queue is left.
\<close>

theorem weighted_average_entry:
  assumes "action f = CLOSE" and "qty f = Fin Q"
    and "getStack stacks (getKey f) =
           \<lparr>lot_time = t1, lot_price = Fin p1, lot_qty = Fin q1\<rparr> #
           \<lparr>lot_time = t2, lot_price = Fin p2, lot_qty = Fin q2\<rparr> # rest"
    and "0 < q1" and "0 < q2" and "round64 q1 = Fin q1"
    and "q1 \<le> Q" and "fl_sub (Fin Q) (Fin q1) = Fin r" and "q2 \<le> r"
    and "r = q2 \<or> rest = []"
  shows "\<exists>tr. processFill (stacks, trades) f = (stacks(getKey f \<mapsto> rest), trades @ [tr]) \<and>
     entryPrice tr =
       finiteOrNull (fl_div (fl_add (fl_mul (Fin q1) (Fin p1)) (fl_mul (Fin q2) (Fin p2)))
                            (fl_add (Fin q1) (Fin q2)))"
proof -
  let ?n = "fl_add (fl_mul (Fin q1) (Fin p1)) (fl_mul (Fin q2) (Fin p2))"
  let ?c = "fl_add (Fin q1) (Fin q2)"
  have r: "round64 (Q - q1) = Fin r" using assms(8) by simp
  have n1: "fl_add (Fin 0) (fl_mul (Fin q1) (Fin p1)) = fl_mul (Fin q1) (Fin p1)"
    by (simp only: fl_mul_Fin fl_add_zero_round)
  have last: "matchLots (fl_sub (Fin r) (Fin q2)) rest (?c, ?n, Some (min t1 t2))
      = (fl_sub (Fin r) (Fin q2), rest, (?c, ?n, Some (min t1 t2)))"
  proof (cases rest)
    case Nil
    then show ?thesis by simp
  next
    case (Cons l ls)
    with assms(10) have "r = q2" by simp
    then show ?thesis by (simp add: matchLots_zero del: fl_add_Fin fl_mul_Fin)
  qed
  have two: "matchLots (Fin r)
        (\<lparr>lot_time = t2, lot_price = Fin p2, lot_qty = Fin q2\<rparr> # rest)
        (Fin q1, fl_mul (Fin q1) (Fin p1), Some t1)
      = (fl_sub (Fin r) (Fin q2), rest, (?c, ?n, Some (min t1 t2)))"
  proof -
    have "matchLots (Fin r)
        (\<lparr>lot_time = t2, lot_price = Fin p2, lot_qty = Fin q2\<rparr> # rest)
        (Fin q1, fl_mul (Fin q1) (Fin p1), Some t1)
      = matchLots (fl_sub (Fin r) (Fin q2)) rest (?c, ?n, Some (min t1 t2))"
      using assms(5,9) dust_nonneg
      by (simp add: js_gt_def js_min_def Let_def min_def del: fl_mul_Fin fl_add_Fin)
    then show ?thesis by (simp only: last)
  qed
  have m: "matchLots (qty f) (getStack stacks (getKey f)) (Fin 0, Fin 0, None)
     = (fl_sub (Fin r) (Fin q2), rest, (?c, ?n, Some (min t1 t2)))"
  proof -
    have "matchLots (Fin Q)
        (\<lparr>lot_time = t1, lot_price = Fin p1, lot_qty = Fin q1\<rparr> #
         \<lparr>lot_time = t2, lot_price = Fin p2, lot_qty = Fin q2\<rparr> # rest)
        (Fin 0, Fin 0, None)
      = matchLots (Fin r)
        (\<lparr>lot_time = t2, lot_price = Fin p2, lot_qty = Fin q2\<rparr> # rest)
        (Fin q1, fl_mul (Fin q1) (Fin p1), Some t1)"
      using assms(4,6,7) r dust_nonneg n1
      by (simp add: js_gt_def js_min_def Let_def del: fl_mul_Fin)
    then show ?thesis by (simp only: assms(2,3) two)
  qed
  have "js_le (Fin q1) (round64 (q1 + q2))"
    by (rule round64_ge_double) (use assms(4,5,6) in simp_all)
  then have pos: "js_gt ?c (Fin 0)"
    using assms(4) by (cases "round64 (q1 + q2)") (simp_all add: js_gt_def)
  show ?thesis
    using pos by (simp add: processFill_close [OF assms(1) m] del: fl_add_Fin fl_mul_Fin)
qed

text \<open>
  The scenario of the specification: a CLOSE of 5 against the lots 2 @ 100 and
  3 @ 200 has entry price 160, by the theorem and by running the whole
  reconstruction on the three fills. No operation rounds here.
\<close>

theorem weighted_average_entry_witness:
  "action (closeFill 10 110 5) = CLOSE \<and> qty (closeFill 10 110 5) = Fin 5 \<and>
   getStack [''BTCUSDT|LONG'' \<mapsto> [sampleLot 0 100 2, sampleLot 1 200 3]]
       (getKey (closeFill 10 110 5))
     = \<lparr>lot_time = 0, lot_price = Fin 100, lot_qty = Fin 2\<rparr> #
       \<lparr>lot_time = 1, lot_price = Fin 200, lot_qty = Fin 3\<rparr> # [] \<and>
   round64 2 = Fin 2 \<and> fl_sub (Fin 5) (Fin 2) = Fin 3 \<and>
   (\<exists>tr. processFill ([''BTCUSDT|LONG'' \<mapsto> [sampleLot 0 100 2, sampleLot 1 200 3]], [])
            (closeFill 10 110 5)
          = ([''BTCUSDT|LONG'' \<mapsto> []], [tr]) \<and>
         entryPrice tr = Some 160) \<and>
   map entryPrice (buildClosedTradesFromFills
     [openFill 0 100 2, openFill 1 200 3, closeFill 10 110 5]) = [Some 160]"
proof -
  have h1: "action (closeFill 10 110 5) = CLOSE" by (simp add: closeFill_def)
  have h2: "qty (closeFill 10 110 5) = Fin 5" by (simp add: closeFill_def)
  have h3: "getStack [''BTCUSDT|LONG'' \<mapsto> [sampleLot 0 100 2, sampleLot 1 200 3]]
              (getKey (closeFill 10 110 5)) =
            \<lparr>lot_time = 0, lot_price = Fin 100, lot_qty = Fin 2\<rparr> #
            \<lparr>lot_time = 1, lot_price = Fin 200, lot_qty = Fin 3\<rparr> # []"
    by (simp add: getStack_def getKey_def closeFill_def sampleLot_def)
  have h6: "round64 2 = Fin 2" by simp
  have h8: "fl_sub (Fin 5) (Fin 2) = Fin 3" by simp
  have k: "getKey (closeFill 10 110 5) = ''BTCUSDT|LONG''"
    by (simp add: getKey_def closeFill_def)
  have e: "map entryPrice (buildClosedTradesFromFills
     [openFill 0 100 2, openFill 1 200 3, closeFill 10 110 5]) = [Some 160]"
    using dust_nonneg
    by (simp add: buildClosedTradesFromFills_def runFills_def sortFills_def closeFill_def
      openFill_def processFill_def getKey_def getStack_def js_gt_def js_min_def)
  from weighted_average_entry [OF h1 h2 h3 _ _ h6 _ h8, of "[]"] k h1 h2 h3 e
  show ?thesis by simp
qed

lemma dbl_tenth: "dbl (1 / 10) = 3602879701896397 / 36028797018963968"
  by (rule dbl_eq) (simp add: round64_at [of "- 4"] pow2_def rhe_def)

lemma dbl_fifth: "dbl (2 / 10) = 3602879701896397 / 18014398509481984"
  by (rule dbl_eq) (simp add: round64_at [of "- 3"] pow2_def rhe_def)

lemma dbl_three_tenths: "dbl (3 / 10) = 5404319552844595 / 18014398509481984"
  by (rule dbl_eq) (simp add: round64_at [of "- 2"] pow2_def rhe_def)

text \<open>
  C7 as stated fails: the entry price is not the exact weighted average, nor the
  binary64 number nearest to it. A CLOSE of 3 against the lots 1 @ 0.1 and
  2 @ 0.2 takes both lots whole and has the entry price 0.16666666666666666,
  where the weighted average of the two prices is nearest to
  0.16666666666666669. And a CLOSE of 0.3 against the lots 0.1 @ 100 and
  0.2 @ 200 does not take the second lot whole: 0.3 - 0.1 leaves
  0.19999999999999998, the rest of the lot is dropped as dust, and the entry
  price is 166.66666666666669, where the weighted average is nearest to
  166.66666666666666.
\<close>

theorem weighted_average_counterexample:
  "map entryPrice (buildClosedTradesFromFills
     [openFill 0 (dbl (1 / 10)) 1, openFill 1 (dbl (2 / 10)) 2, closeFill 10 110 3])
     = [Some (6004799503160661 / 36028797018963968)] \<and>
   (1 * dbl (1 / 10) + 2 * dbl (2 / 10)) / (1 + 2)
     \<noteq> 6004799503160661 / 36028797018963968 \<and>
   round64 ((1 * dbl (1 / 10) + 2 * dbl (2 / 10)) / (1 + 2))
     = Fin (3002399751580331 / 18014398509481984) \<and>
   map entryPrice (buildClosedTradesFromFills
     [openFill 0 100 (dbl (1 / 10)), openFill 1 200 (dbl (2 / 10)),
      closeFill 10 110 (dbl (3 / 10))])
     = [Some (2932031007402667 / 17592186044416)] \<and>
   fst (runFills [openFill 0 100 (dbl (1 / 10)), openFill 1 200 (dbl (2 / 10)),
      closeFill 10 110 (dbl (3 / 10))]) ''BTCUSDT|LONG'' = Some [] \<and>
   round64 ((dbl (1 / 10) * 100 + dbl (2 / 10) * 200) / (dbl (1 / 10) + dbl (2 / 10)))
     = Fin (5864062014805333 / 35184372088832)"
proof -
  have one: "map entryPrice (buildClosedTradesFromFills
     [openFill 0 (dbl (1 / 10)) 1, openFill 1 (dbl (2 / 10)) 2, closeFill 10 110 3])
     = [Some (6004799503160661 / 36028797018963968)]"
    unfolding dbl_tenth dbl_fifth using dust_nonneg
    by (simp add: buildClosedTradesFromFills_def runFills_def sortFills_def closeFill_def
      openFill_def processFill_def getKey_def getStack_def js_gt_def js_min_def Let_def
      round64_at [of "- 4"] round64_at [of "- 3"] round64_at [of "- 2"] round64_at [of "- 1"]
      pow2_def rhe_def)
  have two: "(1 * dbl (1 / 10) + 2 * dbl (2 / 10)) / (1 + 2)
     \<noteq> 6004799503160661 / 36028797018963968"
    unfolding dbl_tenth dbl_fifth by simp
  have three: "round64 ((1 * dbl (1 / 10) + 2 * dbl (2 / 10)) / (1 + 2))
     = Fin (3002399751580331 / 18014398509481984)"
    unfolding dbl_tenth dbl_fifth by (simp add: round64_at [of "- 3"] pow2_def rhe_def)
  have run: "runFills [openFill 0 100 (dbl (1 / 10)), openFill 1 200 (dbl (2 / 10)),
      closeFill 10 110 (dbl (3 / 10))]
    = ([''BTCUSDT|LONG'' \<mapsto> []],
       [\<lparr>exchange = ''BloFin'', trade_symbol = ''BTCUSDT'', trade_direction = LONG,
         entryPrice = Some (2932031007402667 / 17592186044416), exitPrice = Some 110,
         trade_qty = Some (5404319552844595 / 18014398509481984), trade_pnl = Some 7,
         trade_pnlPct = None, holdMins = Some (6148914691236517 / 36893488147419103232),
         closeTime = 10, trade_note = None\<rparr>])"
    unfolding dbl_tenth dbl_fifth dbl_three_tenths
    by (simp add: runFills_def closeFill_def minsBetween_def
      openFill_def processFill_def getKey_def getStack_def js_gt_def js_min_def Let_def
      dust_numeral
      round64_at [of "- 4"] round64_at [of "- 3"] round64_at [of "- 2"] round64_at [of "- 55"]
      round64_at [of 3] round64_at [of 5] round64_at [of 7] round64_at [of "- 13"]
      pow2_def rhe_def)
  have srt: "sortFills [openFill 0 100 (dbl (1 / 10)), openFill 1 200 (dbl (2 / 10)),
      closeFill 10 110 (dbl (3 / 10))]
    = [openFill 0 100 (dbl (1 / 10)), openFill 1 200 (dbl (2 / 10)),
      closeFill 10 110 (dbl (3 / 10))]"
    by (simp add: sortFills_def closeFill_def openFill_def)
  have four: "map entryPrice (buildClosedTradesFromFills
     [openFill 0 100 (dbl (1 / 10)), openFill 1 200 (dbl (2 / 10)),
      closeFill 10 110 (dbl (3 / 10))])
     = [Some (2932031007402667 / 17592186044416)]"
    unfolding buildClosedTradesFromFills_def srt run by simp
  have five: "fst (runFills [openFill 0 100 (dbl (1 / 10)), openFill 1 200 (dbl (2 / 10)),
      closeFill 10 110 (dbl (3 / 10))]) ''BTCUSDT|LONG'' = Some []"
    unfolding run by simp
  have six: "round64 ((dbl (1 / 10) * 100 + dbl (2 / 10) * 200) / (dbl (1 / 10) + dbl (2 / 10)))
     = Fin (5864062014805333 / 35184372088832)"
    unfolding dbl_tenth dbl_fifth by (simp add: round64_at [of 7] pow2_def rhe_def)
  show ?thesis using one two three four five six by (simp only: simp_thms)
qed



section \<open>FIFO order of the lot matcher\<close>









section \<open>Properties of the hindsight evaluation\<close>

text \<open>
  On a series in ascending order of open time the scan visits exactly the
  candles with \<open>startMs \<le> t \<le> endMs\<close>: the \<open>break\<close> skips only candles that
  are later than \<open>endMs\<close>.
\<close>

lemma bestLoop_sorted:
  "sorted (map candle_t cs) \<Longrightarrow>
   bestLoop cs s e d best found =
     (fold (\<lambda>c b. if d = SHORT then js_min b (candle_low c) else js_max b (candle_high c))
        (filter (\<lambda>c. s \<le> candle_t c \<and> candle_t c \<le> e) cs) best,
      found \<or> filter (\<lambda>c. s \<le> candle_t c \<and> candle_t c \<le> e) cs \<noteq> [])"
proof (induction cs arbitrary: best found)
  case Nil
  then show ?case by simp
next
  case (Cons c cs)
  show ?case
  proof (cases "candle_t c > e \<and> \<not> candle_t c < s")
    case True
    with Cons.prems have "\<forall>x\<in>set cs. candle_t x > e" by auto
    then have "filter (\<lambda>c. s \<le> candle_t c \<and> candle_t c \<le> e) cs = []"
      by (auto simp: filter_empty_conv)
    with True show ?thesis by simp
  next
    case False
    with Cons show ?thesis by auto
  qed
qed

lemma fold_js_max:
  "\<forall>c\<in>set w. isFinite (candle_high c) \<Longrightarrow>
   fold (\<lambda>c b. js_max b (candle_high c)) w (Fin b)
     = Fin (fold max (map (\<lambda>c. the_fin (candle_high c)) w) b)"
  by (induction w arbitrary: b) (auto simp: isFinite_iff js_max_def max_def)

lemma fold_js_min:
  "\<forall>c\<in>set w. isFinite (candle_low c) \<Longrightarrow>
   fold (\<lambda>c b. js_min b (candle_low c)) w (Fin b)
     = Fin (fold min (map (\<lambda>c. the_fin (candle_low c)) w) b)"
  by (induction w arbitrary: b) (auto simp: isFinite_iff js_min_def min_def)

lemma bestPriceInWindow_extremum:
  assumes "sorted (map candle_t series)"
    and "\<forall>c\<in>set series. isFinite (candle_high c) \<and> isFinite (candle_low c)"
  shows "bestPriceInWindow series s e d =
    (if filter (\<lambda>c. s \<le> candle_t c \<and> candle_t c \<le> e) series = [] then None
     else Some (Fin (if d = SHORT
       then Min (set (map (\<lambda>c. the_fin (candle_low c))
                   (filter (\<lambda>c. s \<le> candle_t c \<and> candle_t c \<le> e) series)))
       else Max (set (map (\<lambda>c. the_fin (candle_high c))
                   (filter (\<lambda>c. s \<le> candle_t c \<and> candle_t c \<le> e) series))))))"
proof (cases "filter (\<lambda>c. s \<le> candle_t c \<and> candle_t c \<le> e) series")
  case Nil
  then show ?thesis
    by (simp add: bestPriceInWindow_def bestLoop_sorted [OF assms(1)])
next
  case (Cons c w)
  have "set (c # w) \<subseteq> set series" unfolding Cons [symmetric] by (rule filter_is_subset)
  then have fin: "isFinite (candle_high c)" "isFinite (candle_low c)"
    "\<forall>c\<in>set w. isFinite (candle_high c)" "\<forall>c\<in>set w. isFinite (candle_low c)"
    using assms(2) by auto
  obtain h l where hl: "candle_high c = Fin h" "candle_low c = Fin l"
    using fin by (auto simp: isFinite_iff)
  have mn: "Min (set (map (\<lambda>c. the_fin (candle_low c)) (c # w)))
      = fold min (map (\<lambda>c. the_fin (candle_low c)) w) l"
    using Min.set_eq_fold [of l "map (\<lambda>c. the_fin (candle_low c)) w"] hl by simp
  have mx: "Max (set (map (\<lambda>c. the_fin (candle_high c)) (c # w)))
      = fold max (map (\<lambda>c. the_fin (candle_high c)) w) h"
    using Max.set_eq_fold [of h "map (\<lambda>c. the_fin (candle_high c)) w"] hl by simp
  show ?thesis
  proof (cases "d = SHORT")
    case True
    have "bestPriceInWindow series s e d
        = Some (Fin (fold min (map (\<lambda>c. the_fin (candle_low c)) w) l))"
      using fold_js_min [OF fin(4), of l] hl True
      by (simp add: bestPriceInWindow_def bestLoop_sorted [OF assms(1)] Cons js_min_def)
    then show ?thesis unfolding Cons mn [symmetric] using True by simp
  next
    case False
    have "bestPriceInWindow series s e d
        = Some (Fin (fold max (map (\<lambda>c. the_fin (candle_high c)) w) h))"
      using fold_js_max [OF fin(3), of h] hl False
      by (simp add: bestPriceInWindow_def bestLoop_sorted [OF assms(1)] Cons js_max_def)
    then show ?thesis unfolding Cons mx [symmetric] using False by simp
  qed
qed

text \<open>
  C3, as the code has it. The window is closed at both ends: a candle is
  considered when its open time \<open>t\<close> satisfies \<open>startMs \<le> t \<le> endMs\<close>, where
  \<open>runHindsight\<close> passes \<open>closeTime\<close> and \<open>closeTime + lookaheadMs\<close>. On a
  time-ordered series of candles with finite highs and lows,
  \<open>bestPriceInWindow\<close> returns null exactly when no candle is in that window,
  the minimum low of the candles in it for SHORT, and the maximum high otherwise.
\<close>

theorem best_price_closed_window:
  assumes "sorted (map candle_t series)"
    and "\<forall>c\<in>set series. isFinite (candle_high c) \<and> isFinite (candle_low c)"
  shows "(bestPriceInWindow series startMs endMs d = None \<longleftrightarrow>
           (\<forall>c\<in>set series. \<not> (startMs \<le> candle_t c \<and> candle_t c \<le> endMs))) \<and>
         ((\<exists>c\<in>set series. startMs \<le> candle_t c \<and> candle_t c \<le> endMs) \<longrightarrow>
           bestPriceInWindow series startMs endMs d =
             Some (Fin (if d = SHORT
               then Min (set (map (\<lambda>c. the_fin (candle_low c))
                      (filter (\<lambda>c. startMs \<le> candle_t c \<and> candle_t c \<le> endMs) series)))
               else Max (set (map (\<lambda>c. the_fin (candle_high c))
                      (filter (\<lambda>c. startMs \<le> candle_t c \<and> candle_t c \<le> endMs) series))))))"
  unfolding bestPriceInWindow_extremum [OF assms]
  by (auto simp: filter_empty_conv)

text \<open>
  Four five-minute candles and the window from 300000 to 3600000: the candles
  at both ends of the window count, the one after it does not.
\<close>

theorem best_price_closed_window_witness:
  "sorted (map candle_t [sampleCandle 0 5 1, sampleCandle 300000 9 3, sampleCandle 3600000 7 2,
      sampleCandle 3900000 20 0]) \<and>
   bestPriceInWindow [sampleCandle 0 5 1, sampleCandle 300000 9 3, sampleCandle 3600000 7 2,
      sampleCandle 3900000 20 0] 300000 3600000 LONG = Some (Fin 9) \<and>
   bestPriceInWindow [sampleCandle 0 5 1, sampleCandle 300000 9 3, sampleCandle 3600000 7 2,
      sampleCandle 3900000 20 0] 300000 3600000 SHORT = Some (Fin 2) \<and>
   bestPriceInWindow [sampleCandle 0 5 1, sampleCandle 300000 9 3, sampleCandle 3600000 7 2,
      sampleCandle 3900000 20 0] 4000000 5000000 LONG = None"
proof -
  let ?s = "[sampleCandle 0 5 1, sampleCandle 300000 9 3, sampleCandle 3600000 7 2,
      sampleCandle 3900000 20 0]"
  have srt: "sorted (map candle_t ?s)" by (simp add: sampleCandle_def)
  have fin: "\<forall>c\<in>set ?s. isFinite (candle_high c) \<and> isFinite (candle_low c)"
    by (simp add: sampleCandle_def)
  have inw: "\<exists>c\<in>set ?s. 300000 \<le> candle_t c \<and> candle_t c \<le> 3600000"
    by (simp add: sampleCandle_def)
  have out: "\<forall>c\<in>set ?s. \<not> (4000000 \<le> candle_t c \<and> candle_t c \<le> 5000000)"
    by (simp add: sampleCandle_def)
  note T = best_price_closed_window [OF srt fin]
  have a: "bestPriceInWindow ?s 300000 3600000 LONG = Some (Fin 9)"
    using T [of 300000 3600000 LONG] inw by (simp add: sampleCandle_def)
  have b: "bestPriceInWindow ?s 300000 3600000 SHORT = Some (Fin 2)"
    using T [of 300000 3600000 SHORT] inw by (simp add: sampleCandle_def)
  have c: "bestPriceInWindow ?s 4000000 5000000 LONG = None"
    using T [of 4000000 5000000 LONG] out by blast
  show ?thesis using srt a b c by simp
qed

text \<open>
  C3 as stated fails at the upper end of the window: with \<open>closeTime = 0\<close> and
  a lookahead of one hour, a candle opening exactly at \<open>closeTime + lookahead\<close>
  is outside the half-open window, and \<open>bestPriceInWindow\<close> returns its high.
\<close>

theorem half_open_window_counterexample:
  "filter (\<lambda>c. 0 \<le> candle_t c \<and> candle_t c < 0 + 3600000) [sampleCandle 3600000 5 1] = [] \<and>
   bestPriceInWindow [sampleCandle 3600000 5 1] 0 (0 + 3600000) LONG = Some (Fin 5)"
  by (simp add: bestPriceInWindow_def sampleCandle_def js_max_def)

lemma realismOf_range: "\<exists>r. realismOf pct = Fin r \<and> 0 \<le> r \<and> r \<le> 1"
  by (cases "round64 (pct / 100)")
    (auto simp: realismOf_def clamp_def js_max_def js_min_def)

lemma realismOf_0: "realismOf 0 = Fin 0"
  by (simp add: realismOf_def clamp_def js_max_def js_min_def)

lemma realismOf_100: "realismOf 100 = Fin 1"
  by (simp add: realismOf_def clamp_def js_max_def js_min_def)

lemma hindsightTrade_bestExit:
  assumes "bestPriceInWindow series (closeTime t) (closeTime t + lookaheadMs) (trade_direction t)
             = Some (Fin raw)"
  shows "bestExit (hindsightTrade realism lookaheadMs (Some series) t) =
     Some (case exitPrice t of
             Some exit \<Rightarrow> fl_add (Fin exit) (fl_mul (fl_sub (Fin raw) (Fin exit)) realism)
           | None \<Rightarrow> Fin raw)"
  using assms
  by (simp add: hindsightTrade_def Let_def split: option.splits)

text \<open>
  C4, as the code has it, in binary64 arithmetic. For a closed trade whose
  window (closed at both ends, on a time-ordered series of candles with finite
  highs and lows) holds a candle, \<open>rawBest\<close> is the extremum of the window,
  \<open>realism\<close> is in [0, 1] (0 at \<open>realismPct = 0\<close>, 1 at \<open>realismPct = 100\<close>),
  and, when the trade has an \<open>exitPrice\<close>,
  \<open>bestExit = exitPrice + (rawBest - exitPrice) * realism\<close> with every operation
  rounded; when the trade's \<open>exitPrice\<close> is null, \<open>bestExit\<close> is \<open>rawBest\<close>
  whatever the realism. At \<open>realismPct = 0\<close> the best exit of a trade with an
  exit price (a binary64 number) is the exit price, unless the subtraction
  overflows. At \<open>realismPct = 100\<close> it is the rounded sum of the exit price and
  the rounded difference \<open>rawBest - exitPrice\<close>, which is \<open>rawBest\<close> when the
  subtraction is exact.
\<close>

theorem realism_dampening:
  assumes "sorted (map candle_t series)"
    and "\<forall>c\<in>set series. isFinite (candle_high c) \<and> isFinite (candle_low c)"
    and "\<exists>c\<in>set series. closeTime t \<le> candle_t c \<and> candle_t c \<le> closeTime t + lookaheadMs"
  shows "\<exists>rawBest realism.
     bestPriceInWindow series (closeTime t) (closeTime t + lookaheadMs) (trade_direction t)
       = Some (Fin rawBest) \<and>
     rawBest = (if trade_direction t = SHORT
       then Min (set (map (\<lambda>c. the_fin (candle_low c))
              (filter (\<lambda>c. closeTime t \<le> candle_t c \<and> candle_t c \<le> closeTime t + lookaheadMs)
                 series)))
       else Max (set (map (\<lambda>c. the_fin (candle_high c))
              (filter (\<lambda>c. closeTime t \<le> candle_t c \<and> candle_t c \<le> closeTime t + lookaheadMs)
                 series)))) \<and>
     realismOf pct = Fin realism \<and> 0 \<le> realism \<and> realism \<le> 1 \<and>
     realismOf 0 = Fin 0 \<and> realismOf 100 = Fin 1 \<and>
     bestExit (hindsightTrade (realismOf pct) lookaheadMs (Some series) t)
       = Some (case exitPrice t of
                 Some exit \<Rightarrow>
                   fl_add (Fin exit) (fl_mul (fl_sub (Fin rawBest) (Fin exit)) (Fin realism))
               | None \<Rightarrow> Fin rawBest) \<and>
     (\<forall>exit. exitPrice t = Some exit \<and> round64 exit = Fin exit \<and>
             isFinite (fl_sub (Fin rawBest) (Fin exit))
        \<longrightarrow> bestExit (hindsightTrade (realismOf 0) lookaheadMs (Some series) t)
              = Some (Fin exit)) \<and>
     (\<forall>exit. exitPrice t = Some exit
        \<longrightarrow> bestExit (hindsightTrade (realismOf 100) lookaheadMs (Some series) t)
              = Some (fl_add (Fin exit) (fl_sub (Fin rawBest) (Fin exit)))) \<and>
     (\<forall>exit. exitPrice t = Some exit \<and> round64 rawBest = Fin rawBest \<and>
             fl_sub (Fin rawBest) (Fin exit) = Fin (rawBest - exit)
        \<longrightarrow> bestExit (hindsightTrade (realismOf 100) lookaheadMs (Some series) t)
              = Some (Fin rawBest))"
proof -
  let ?w = "filter (\<lambda>c. closeTime t \<le> candle_t c \<and> candle_t c \<le> closeTime t + lookaheadMs) series"
  let ?rawBest = "if trade_direction t = SHORT
       then Min (set (map (\<lambda>c. the_fin (candle_low c)) ?w))
       else Max (set (map (\<lambda>c. the_fin (candle_high c)) ?w))"
  have ne: "?w \<noteq> []"
    using assms(3) by (auto simp: filter_empty_conv)
  have raw: "bestPriceInWindow series (closeTime t) (closeTime t + lookaheadMs) (trade_direction t)
       = Some (Fin ?rawBest)"
    using bestPriceInWindow_extremum [OF assms(1,2), of "closeTime t" "closeTime t + lookaheadMs"
        "trade_direction t"] ne
    by simp
  obtain realism where rl: "realismOf pct = Fin realism" "0 \<le> realism" "realism \<le> 1"
    using realismOf_range [of pct] by blast
  have b: "bestExit (hindsightTrade (realismOf pct) lookaheadMs (Some series) t)
       = Some (case exitPrice t of
                 Some exit \<Rightarrow>
                   fl_add (Fin exit) (fl_mul (fl_sub (Fin ?rawBest) (Fin exit)) (Fin realism))
               | None \<Rightarrow> Fin ?rawBest)"
    unfolding rl(1) by (rule hindsightTrade_bestExit [OF raw])
  have b0: "bestExit (hindsightTrade (realismOf 0) lookaheadMs (Some series) t) = Some (Fin exit)"
    if "exitPrice t = Some exit \<and> round64 exit = Fin exit \<and>
        isFinite (fl_sub (Fin ?rawBest) (Fin exit))" for exit
  proof -
    from that obtain d where d: "round64 (?rawBest - exit) = Fin d"
      by (auto simp: isFinite_iff)
    show ?thesis
      unfolding realismOf_0 hindsightTrade_bestExit [OF raw]
      using that d by simp
  qed
  have b100: "bestExit (hindsightTrade (realismOf 100) lookaheadMs (Some series) t)
       = Some (fl_add (Fin exit) (fl_sub (Fin ?rawBest) (Fin exit)))"
    if "exitPrice t = Some exit" for exit
    unfolding realismOf_100 hindsightTrade_bestExit [OF raw]
    using that by (simp add: fl_mul_one_round)
  have b100': "bestExit (hindsightTrade (realismOf 100) lookaheadMs (Some series) t)
       = Some (Fin ?rawBest)"
    if "exitPrice t = Some exit \<and> round64 ?rawBest = Fin ?rawBest \<and>
        fl_sub (Fin ?rawBest) (Fin exit) = Fin (?rawBest - exit)" for exit
  proof -
    from that have e: "exitPrice t = Some exit" and r: "round64 ?rawBest = Fin ?rawBest"
      and s: "fl_sub (Fin ?rawBest) (Fin exit) = Fin (?rawBest - exit)"
      by blast+
    have "fl_add (Fin exit) (fl_sub (Fin ?rawBest) (Fin exit)) = round64 (exit + (?rawBest - exit))"
      by (simp only: s fl_add_Fin)
    also have "exit + (?rawBest - exit) = ?rawBest" by simp
    finally show ?thesis using b100 [OF e] r by (simp only:)
  qed
  have "bestPriceInWindow series (closeTime t) (closeTime t + lookaheadMs) (trade_direction t)
       = Some (Fin ?rawBest) \<and>
     ?rawBest = ?rawBest \<and>
     realismOf pct = Fin realism \<and> 0 \<le> realism \<and> realism \<le> 1 \<and>
     realismOf 0 = Fin 0 \<and> realismOf 100 = Fin 1 \<and>
     bestExit (hindsightTrade (realismOf pct) lookaheadMs (Some series) t)
       = Some (case exitPrice t of
                 Some exit \<Rightarrow>
                   fl_add (Fin exit) (fl_mul (fl_sub (Fin ?rawBest) (Fin exit)) (Fin realism))
               | None \<Rightarrow> Fin ?rawBest) \<and>
     (\<forall>exit. exitPrice t = Some exit \<and> round64 exit = Fin exit \<and>
             isFinite (fl_sub (Fin ?rawBest) (Fin exit))
        \<longrightarrow> bestExit (hindsightTrade (realismOf 0) lookaheadMs (Some series) t)
              = Some (Fin exit)) \<and>
     (\<forall>exit. exitPrice t = Some exit
        \<longrightarrow> bestExit (hindsightTrade (realismOf 100) lookaheadMs (Some series) t)
              = Some (fl_add (Fin exit) (fl_sub (Fin ?rawBest) (Fin exit)))) \<and>
     (\<forall>exit. exitPrice t = Some exit \<and> round64 ?rawBest = Fin ?rawBest \<and>
             fl_sub (Fin ?rawBest) (Fin exit) = Fin (?rawBest - exit)
        \<longrightarrow> bestExit (hindsightTrade (realismOf 100) lookaheadMs (Some series) t)
              = Some (Fin ?rawBest))"
    using raw rl realismOf_0 realismOf_100 b b0 b100 b100' by blast
  then show ?thesis by (intro exI)
qed

text \<open>
  A LONG trade closed at 110 with highs 120 and 130 in its window: the raw best is
  130, the realism at 80 percent is the binary64 number nearest to 0.8, and the
  damped best exit is 126 at 80 percent, 110 at 0 and 130 at 100. The same trade
  without exit price has the best exit 130 at 80 percent.
\<close>

theorem realism_dampening_witness:
  "sorted (map candle_t [sampleCandle 0 120 90, sampleCandle 300000 130 105]) \<and>
   exitPrice sampleTrade = Some 110 \<and>
   bestPriceInWindow [sampleCandle 0 120 90, sampleCandle 300000 130 105]
       (closeTime sampleTrade) (closeTime sampleTrade + 3600000) (trade_direction sampleTrade)
     = Some (Fin 130) \<and>
   realismOf 80 = Fin (3602879701896397 / 4503599627370496) \<and>
   round64 110 = Fin 110 \<and> round64 130 = Fin 130 \<and>
   fl_sub (Fin 130) (Fin 110) = Fin (130 - 110) \<and>
   bestExit (hindsightTrade (realismOf 80) 3600000
       (Some [sampleCandle 0 120 90, sampleCandle 300000 130 105]) sampleTrade)
     = Some (Fin 126) \<and>
   bestExit (hindsightTrade (realismOf 0) 3600000
       (Some [sampleCandle 0 120 90, sampleCandle 300000 130 105]) sampleTrade)
     = Some (Fin 110) \<and>
   bestExit (hindsightTrade (realismOf 100) 3600000
       (Some [sampleCandle 0 120 90, sampleCandle 300000 130 105]) sampleTrade)
     = Some (Fin 130) \<and>
   bestExit (hindsightTrade (realismOf 80) 3600000
       (Some [sampleCandle 0 120 90, sampleCandle 300000 130 105])
       (sampleTrade\<lparr>exitPrice := None\<rparr>))
     = Some (Fin 130)"
proof -
  let ?s = "[sampleCandle 0 120 90, sampleCandle 300000 130 105]"
  let ?u = "sampleTrade\<lparr>exitPrice := None\<rparr>"
  have srt: "sorted (map candle_t ?s)" by (simp add: sampleCandle_def)
  have fin: "\<forall>c\<in>set ?s. isFinite (candle_high c) \<and> isFinite (candle_low c)"
    by (simp add: sampleCandle_def)
  have inw: "\<exists>c\<in>set ?s. closeTime sampleTrade \<le> candle_t c \<and>
      candle_t c \<le> closeTime sampleTrade + 3600000"
    by (simp add: sampleCandle_def sampleTrade_def)
  have inu: "\<exists>c\<in>set ?s. closeTime ?u \<le> candle_t c \<and> candle_t c \<le> closeTime ?u + 3600000"
    by (simp add: sampleCandle_def sampleTrade_def)
  have ex: "exitPrice sampleTrade = Some 110" by (simp add: sampleTrade_def)
  have exu: "exitPrice ?u = None" by simp
  have raw: "bestPriceInWindow ?s (closeTime sampleTrade) (closeTime sampleTrade + 3600000)
      (trade_direction sampleTrade) = Some (Fin 130)"
    by (simp add: bestPriceInWindow_def sampleCandle_def sampleTrade_def js_max_def)
  have rawu: "bestPriceInWindow ?s (closeTime ?u) (closeTime ?u + 3600000)
      (trade_direction ?u) = Some (Fin 130)"
    by (simp add: bestPriceInWindow_def sampleCandle_def sampleTrade_def js_max_def)
  have r: "realismOf 80 = Fin (3602879701896397 / 4503599627370496)"
    by (simp add: realismOf_def clamp_def js_max_def js_min_def round64_at [of "- 1"]
        pow2_def rhe_def)
  have d: "round64 110 = Fin 110" "round64 130 = Fin 130"
    "fl_sub (Fin 130) (Fin 110) = Fin (130 - 110)"
    by simp_all
  have damp: "fl_add (Fin 110)
      (fl_mul (fl_sub (Fin 130) (Fin 110)) (Fin (3602879701896397 / 4503599627370496))) = Fin 126"
    by (simp add: round64_at [of 4] pow2_def rhe_def)
  from realism_dampening [OF srt fin inw, of 80]
  obtain rb rl where
    t1: "bestPriceInWindow ?s (closeTime sampleTrade) (closeTime sampleTrade + 3600000)
           (trade_direction sampleTrade) = Some (Fin rb)"
    and t2: "realismOf 80 = Fin rl"
    and t3: "bestExit (hindsightTrade (realismOf 80) 3600000 (Some ?s) sampleTrade)
       = Some (case exitPrice sampleTrade of
                 Some exit \<Rightarrow> fl_add (Fin exit) (fl_mul (fl_sub (Fin rb) (Fin exit)) (Fin rl))
               | None \<Rightarrow> Fin rb)"
    and t4: "\<forall>exit. exitPrice sampleTrade = Some exit \<and> round64 exit = Fin exit \<and>
             isFinite (fl_sub (Fin rb) (Fin exit))
        \<longrightarrow> bestExit (hindsightTrade (realismOf 0) 3600000 (Some ?s) sampleTrade)
              = Some (Fin exit)"
    and t5: "\<forall>exit. exitPrice sampleTrade = Some exit \<and> round64 rb = Fin rb \<and>
             fl_sub (Fin rb) (Fin exit) = Fin (rb - exit)
        \<longrightarrow> bestExit (hindsightTrade (realismOf 100) 3600000 (Some ?s) sampleTrade)
              = Some (Fin rb)"
    by blast
  have rb: "rb = 130" using t1 raw by simp
  have rl: "rl = 3602879701896397 / 4503599627370496" using t2 r by simp
  have one: "bestExit (hindsightTrade (realismOf 80) 3600000 (Some ?s) sampleTrade)
      = Some (Fin 126)"
    unfolding t3 ex rb rl by (simp only: option.case damp)
  have z: "bestExit (hindsightTrade (realismOf 0) 3600000 (Some ?s) sampleTrade) = Some (Fin 110)"
    using t4 [rule_format, of 110] ex d rb by simp
  have f: "bestExit (hindsightTrade (realismOf 100) 3600000 (Some ?s) sampleTrade)
      = Some (Fin 130)"
    using t5 [rule_format, of 110] ex d rb by simp
  from realism_dampening [OF srt fin inu, of 80]
  obtain rb' rl' where
    u1: "bestPriceInWindow ?s (closeTime ?u) (closeTime ?u + 3600000) (trade_direction ?u)
           = Some (Fin rb')"
    and u3: "bestExit (hindsightTrade (realismOf 80) 3600000 (Some ?s) ?u)
       = Some (case exitPrice ?u of
                 Some exit \<Rightarrow> fl_add (Fin exit) (fl_mul (fl_sub (Fin rb') (Fin exit)) (Fin rl'))
               | None \<Rightarrow> Fin rb')"
    by blast
  have rb': "rb' = 130" using u1 rawu by simp
  have two: "bestExit (hindsightTrade (realismOf 80) 3600000 (Some ?s) ?u) = Some (Fin 130)"
    unfolding u3 exu rb' by (simp only: option.case)
  show ?thesis
    using srt ex raw r d one z f two by (simp only: simp_thms)
qed

lemma dbl_exit: "dbl (15748 / 100) = 5540834916549263 / 35184372088832"
  by (rule dbl_eq) (simp add: round64_at [of 7] pow2_def rhe_def)

lemma dbl_raw: "dbl (257 / 10) = 7233906901463859 / 281474976710656"
  by (rule dbl_eq) (simp add: round64_at [of 4] pow2_def rhe_def)

text \<open>
  C4 as stated fails in two ways. A CLOSE fill whose average fill price did not
  parse gives a closed trade with \<open>exitPrice = null\<close>; with a candle of high 5 in
  its window and \<open>realismPct = 0\<close> its \<open>bestExit\<close> is the raw best 5, not the
  exit price. And in binary64 arithmetic the best exit at \<open>realismPct = 100\<close>
  need not be the raw best: with the exit price 157.48 and the raw best 25.7 it
  is 25.69999999999999.
\<close>

theorem realism_dampening_counterexample:
  "map exitPrice (buildClosedTradesFromFills [closeNoPrice]) = [None] \<and>
   map (\<lambda>t. bestPriceInWindow [sampleCandle 0 5 1] (closeTime t) (closeTime t + 3600000)
              (trade_direction t))
     (buildClosedTradesFromFills [closeNoPrice]) = [Some (Fin 5)] \<and>
   map (\<lambda>t. bestExit (hindsightTrade (realismOf 0) 3600000 (Some [sampleCandle 0 5 1]) t))
     (buildClosedTradesFromFills [closeNoPrice]) = [Some (Fin 5)] \<and>
   realismOf 100 = Fin 1 \<and>
   bestPriceInWindow [sampleCandle 0 (dbl (257 / 10)) 1] 0 (0 + 3600000) LONG
     = Some (Fin (dbl (257 / 10))) \<and>
   bestExit (hindsightTrade (realismOf 100) 3600000 (Some [sampleCandle 0 (dbl (257 / 10)) 1])
       (sampleTrade\<lparr>exitPrice := Some (dbl (15748 / 100))\<rparr>))
     = Some (Fin (452119181341491 / 17592186044416)) \<and>
   dbl (257 / 10) \<noteq> 452119181341491 / 17592186044416"
proof -
  have one: "map exitPrice (buildClosedTradesFromFills [closeNoPrice]) = [None] \<and>
   map (\<lambda>t. bestPriceInWindow [sampleCandle 0 5 1] (closeTime t) (closeTime t + 3600000)
              (trade_direction t))
     (buildClosedTradesFromFills [closeNoPrice]) = [Some (Fin 5)] \<and>
   map (\<lambda>t. bestExit (hindsightTrade (realismOf 0) 3600000 (Some [sampleCandle 0 5 1]) t))
     (buildClosedTradesFromFills [closeNoPrice]) = [Some (Fin 5)]"
    by (simp add: buildClosedTradesFromFills_def runFills_def sortFills_def closeNoPrice_def
      processFill_def getKey_def getStack_def js_gt_def hindsightTrade_def bestPriceInWindow_def
      sampleCandle_def js_max_def Let_def)
  have two: "bestPriceInWindow [sampleCandle 0 (dbl (257 / 10)) 1] 0 (0 + 3600000) LONG
     = Some (Fin (dbl (257 / 10)))"
    by (simp add: bestPriceInWindow_def sampleCandle_def js_max_def)
  have three: "bestExit (hindsightTrade (realismOf 100) 3600000
       (Some [sampleCandle 0 (dbl (257 / 10)) 1])
       (sampleTrade\<lparr>exitPrice := Some (dbl (15748 / 100))\<rparr>))
     = Some (Fin (452119181341491 / 17592186044416))"
    unfolding dbl_exit dbl_raw realismOf_100
    by (simp add: hindsightTrade_def bestPriceInWindow_def sampleCandle_def sampleTrade_def
      js_max_def Let_def round64_at [of 7] round64_at [of 4] pow2_def rhe_def)
  have four: "dbl (257 / 10) \<noteq> 452119181341491 / 17592186044416"
    unfolding dbl_raw by simp
  show ?thesis using one two three four realismOf_100 by (simp only: simp_thms)
qed

section \<open>Properties of the behavioural summary\<close>

text \<open>
  The hold durations that \<open>buildClosedTradesFromFills\<close> records are never
  negative: \<open>minsBetween\<close> turns an inverted interval into NaN, stored as null.
\<close>

lemma minsBetween_nonneg:
  assumes "finiteOrNull (minsBetween a b) = Some h"
  shows "0 \<le> h"
proof (cases "b - a < 0")
  case True
  with assms show ?thesis by (simp add: minsBetween_def)
next
  case False
  then have "js_le (Fin 0) (round64 (real_of_int (b - a) / 60000))"
    by (intro round64_nonneg) simp
  with assms False show ?thesis
    by (cases "round64 (real_of_int (b - a) / 60000)") (simp_all add: minsBetween_def)
qed

lemma processFill_hold_nonneg:
  assumes "\<forall>t\<in>set trades. \<forall>h. holdMins t = Some h \<longrightarrow> 0 \<le> h"
  shows "\<forall>t\<in>set (snd (processFill (stacks, trades) f)). \<forall>h. holdMins t = Some h \<longrightarrow> 0 \<le> h"
proof (cases "action f = CLOSE")
  case True
  obtain remaining stack' c n et where
    m: "matchLots (qty f) (getStack stacks (getKey f)) (Fin 0, Fin 0, None)
        = (remaining, stack', (c, n, et))"
    by (metis prod_cases3)
  show ?thesis
    using assms minsBetween_nonneg
    by (auto simp: processFill_close [OF True m] split: option.splits)
next
  case False
  then show ?thesis using assms by (simp add: processFill_not_close)
qed

lemma runFills_hold_nonneg:
  "\<forall>t\<in>set trades. \<forall>h. holdMins t = Some h \<longrightarrow> 0 \<le> h \<Longrightarrow>
   \<forall>t\<in>set (snd (foldl processFill (stacks, trades) fs)). \<forall>h. holdMins t = Some h \<longrightarrow> 0 \<le> h"
proof (induction fs arbitrary: stacks trades)
  case Nil
  then show ?case by simp
next
  case (Cons f fs)
  obtain stacks1 trades1 where p: "processFill (stacks, trades) f = (stacks1, trades1)"
    by (cases "processFill (stacks, trades) f")
  have "\<forall>t\<in>set trades1. \<forall>h. holdMins t = Some h \<longrightarrow> 0 \<le> h"
    using processFill_hold_nonneg [OF Cons.prems, of stacks f] p by simp
  from Cons.IH [OF this, of stacks1] p show ?case by simp
qed

lemma closed_trades_hold_nonneg:
  "\<forall>t\<in>set (buildClosedTradesFromFills fills). \<forall>h. holdMins t = Some h \<longrightarrow> 0 \<le> h"
  using runFills_hold_nonneg [of "[]" Map.empty "sortFills fills"]
  by (simp add: buildClosedTradesFromFills_def runFills_def)

text \<open>
  The mean of hold durations that are not negative is NaN or not negative, and so
  is the paperhands ratio.
\<close>

lemma foldl_plus_sum: "foldl (+) (a::real) xs = a + sum_list xs"
  by (induction xs arbitrary: a) simp_all

lemma mean_cases:
  assumes "\<forall>x\<in>set arr. \<forall>h. x = Some h \<longrightarrow> 0 \<le> h"
  shows "mean arr = NaN \<or> (\<exists>m. mean arr = Fin m \<and> 0 \<le> m)"
proof -
  let ?a = "map the (filter (\<lambda>x. x \<noteq> None) arr)"
  have "0 \<le> sum_list ?a"
    by (rule sum_list_nonneg) (use assms in auto)
  then show ?thesis
    by (auto simp: mean_def Let_def foldl_plus_sum)
qed

lemma paperhands_cases:
  assumes "\<forall>t\<in>set trades. \<forall>h. holdMins t = Some h \<longrightarrow> 0 \<le> h"
  shows "paperhands (summarizeClosedTrades trades) = NaN \<or>
         (\<exists>p. paperhands (summarizeClosedTrades trades) = Fin p \<and> 0 \<le> p)"
proof -
  let ?wins = "filter (\<lambda>t. case trade_pnl t of Some p \<Rightarrow> p > 0 | None \<Rightarrow> False) trades"
  let ?losses = "filter (\<lambda>t. case trade_pnl t of Some p \<Rightarrow> p < 0 | None \<Rightarrow> False) trades"
  have w: "mean (map holdMins ?wins) = NaN \<or> (\<exists>m. mean (map holdMins ?wins) = Fin m \<and> 0 \<le> m)"
    by (rule mean_cases) (use assms in auto)
  have l: "mean (map holdMins ?losses) = NaN \<or> (\<exists>m. mean (map holdMins ?losses) = Fin m \<and> 0 \<le> m)"
    by (rule mean_cases) (use assms in auto)
  show ?thesis
    using w l by (auto simp: summarizeClosedTrades_def Let_def js_gt_def)
qed

lemma fumbleScore_of_paperhands:
  "fumbleScore (summarizeClosedTrades trades) =
     (if isFinite (paperhands (summarizeClosedTrades trades))
      then clamp (js_sub (Fin 60) (js_mul (Fin 20) (js_log2 (paperhands (summarizeClosedTrades trades)))))
             (Fin 0) (Fin 100)
      else NaN)"
  by (simp add: summarizeClosedTrades_def Let_def)

lemma clamp_score:
  "0 \<le> p \<Longrightarrow>
   clamp (js_sub (Fin 60) (js_mul (Fin 20) (js_log2 (Fin p)))) (Fin 0) (Fin 100)
     = Fin (if p = 0 then 100 else max 0 (min 100 (60 - 20 * log 2 p)))"
  by (auto simp: clamp_def js_sub_def js_max_def js_min_def max_def min_def)

text \<open>
  C8. For closed trades whose hold durations are not negative (as those of
  \<open>buildClosedTradesFromFills\<close> are): when the paperhands ratio is a number
  \<open>p\<close>, \<open>fumbleScore = clamp(60 - 20 * log2(p), 0, 100)\<close>, which is 100 at
  \<open>p = 0\<close> (where \<open>log2\<close> is minus infinity) and the real value
  \<open>max 0 (min 100 (60 - 20 * log 2 p))\<close> otherwise; \<open>fumbleScore\<close> is NaN exactly
  when the ratio is; and a defined score lies in [0, 100].
\<close>

theorem fumble_score_bounded:
  assumes "\<forall>t\<in>set trades. \<forall>h. holdMins t = Some h \<longrightarrow> 0 \<le> h"
  shows "(\<forall>p. paperhands (summarizeClosedTrades trades) = Fin p \<longrightarrow>
            0 \<le> p \<and>
            fumbleScore (summarizeClosedTrades trades)
              = clamp (js_sub (Fin 60) (js_mul (Fin 20) (js_log2 (Fin p)))) (Fin 0) (Fin 100) \<and>
            fumbleScore (summarizeClosedTrades trades)
              = Fin (if p = 0 then 100 else max 0 (min 100 (60 - 20 * log 2 p)))) \<and>
         (isFinite (fumbleScore (summarizeClosedTrades trades))
            \<longleftrightarrow> isFinite (paperhands (summarizeClosedTrades trades))) \<and>
         (\<not> isFinite (paperhands (summarizeClosedTrades trades))
            \<longrightarrow> fumbleScore (summarizeClosedTrades trades) = NaN) \<and>
         (\<forall>x. fumbleScore (summarizeClosedTrades trades) = Fin x \<longrightarrow> 0 \<le> x \<and> x \<le> 100)"
proof -
  let ?S = "summarizeClosedTrades trades"
  from paperhands_cases [OF assms] show ?thesis
  proof
    assume nan: "paperhands ?S = NaN"
    then have "fumbleScore ?S = NaN" by (simp add: fumbleScore_of_paperhands)
    with nan show ?thesis by simp
  next
    assume "\<exists>p. paperhands ?S = Fin p \<and> 0 \<le> p"
    then obtain p where p: "paperhands ?S = Fin p" "0 \<le> p" by blast
    have f: "fumbleScore ?S
        = clamp (js_sub (Fin 60) (js_mul (Fin 20) (js_log2 (Fin p)))) (Fin 0) (Fin 100)"
      using p by (simp only: fumbleScore_of_paperhands isFinite.simps if_True)
    have v: "fumbleScore ?S = Fin (if p = 0 then 100 else max 0 (min 100 (60 - 20 * log 2 p)))"
      unfolding f by (rule clamp_score [OF p(2)])
    have b: "0 \<le> (if p = 0 then 100 else max 0 (min 100 (60 - 20 * log 2 p)))"
      "(if p = 0 then 100 else max 0 (min 100 (60 - 20 * log 2 p))) \<le> 100"
      by simp_all
    show ?thesis
      using p v b f by (simp del: js_log2.simps)
  qed
qed

text \<open>
  A winner held 2 minutes and a loser held 1 minute: the ratio is 2 and the score
  40. With no trades both are NaN.
\<close>

theorem fumble_score_bounded_witness:
  "list_all (\<lambda>t. case holdMins t of Some h \<Rightarrow> 0 \<le> h | None \<Rightarrow> True) scoreTrades \<and>
   paperhands (summarizeClosedTrades scoreTrades) = Fin 2 \<and>
   fumbleScore (summarizeClosedTrades scoreTrades) = Fin 40 \<and>
   paperhands (summarizeClosedTrades []) = NaN \<and>
   fumbleScore (summarizeClosedTrades []) = NaN"
proof -
  have h: "\<forall>t\<in>set scoreTrades. \<forall>h. holdMins t = Some h \<longrightarrow> 0 \<le> h"
    by (simp add: scoreTrades_def sampleTrade_def)
  have ph: "paperhands (summarizeClosedTrades scoreTrades) = Fin 2"
    by (simp add: summarizeClosedTrades_def mean_def scoreTrades_def sampleTrade_def js_gt_def)
  have e: "\<forall>t\<in>set ([]::trade list). \<forall>h. holdMins t = Some h \<longrightarrow> 0 \<le> h" by simp
  have pe: "paperhands (summarizeClosedTrades []) = NaN"
    by (simp add: summarizeClosedTrades_def mean_def)
  have "fumbleScore (summarizeClosedTrades scoreTrades) = Fin 40"
    using fumble_score_bounded [OF h] ph by auto
  moreover have "fumbleScore (summarizeClosedTrades []) = NaN"
    using fumble_score_bounded [OF e] pe by simp
  ultimately show ?thesis
    using ph pe by (simp add: scoreTrades_def sampleTrade_def)
qed

section \<open>Properties of the price series fetcher\<close>

text \<open>
  The deduplication loop appends, to what it has kept, the first kline of every
  open time that it has not seen.
\<close>

lemma dedupLoop_spec:
  "\<exists>r. dedupLoop ks seen dedup = dedup @ r \<and>
       distinct (map kline_openTime r) \<and>
       set (map kline_openTime r) = set (map kline_openTime ks) - seen \<and>
       (\<forall>k\<in>set r. find (\<lambda>x. kline_openTime x = kline_openTime k) ks = Some k)"
proof (induction ks arbitrary: seen dedup)
  case Nil
  then show ?case by simp
next
  case (Cons k ks)
  show ?case
  proof (cases "kline_openTime k \<in> seen")
    case True
    from Cons.IH [of seen dedup] obtain r where
      r: "dedupLoop ks seen dedup = dedup @ r" "distinct (map kline_openTime r)"
        "set (map kline_openTime r) = set (map kline_openTime ks) - seen"
        "\<forall>k\<in>set r. find (\<lambda>x. kline_openTime x = kline_openTime k) ks = Some k"
      by blast
    have "\<forall>k'\<in>set r. kline_openTime k \<noteq> kline_openTime k'"
      using r(3) True by force
    then show ?thesis
      using r True by (intro exI [of _ r]) auto
  next
    case False
    from Cons.IH [of "insert (kline_openTime k) seen" "dedup @ [k]"] obtain r where
      r: "dedupLoop ks (insert (kline_openTime k) seen) (dedup @ [k]) = (dedup @ [k]) @ r"
        "distinct (map kline_openTime r)"
        "set (map kline_openTime r) = set (map kline_openTime ks) - insert (kline_openTime k) seen"
        "\<forall>k\<in>set r. find (\<lambda>x. kline_openTime x = kline_openTime k) ks = Some k"
      by blast
    have ne: "\<forall>k'\<in>set r. kline_openTime k \<noteq> kline_openTime k'"
      using r(3) by force
    have "kline_openTime k \<notin> set (map kline_openTime r)" using r(3) by simp
    then show ?thesis
      using r False ne by (intro exI [of _ "k # r"]) auto
  qed
qed

lemma distinct_map_sort_key:
  "distinct (map f (sort_key f xs)) = distinct (map f xs)"
proof -
  have "mset (map f (sort_key f xs)) = mset (map f xs)" by simp
  then show ?thesis by (rule mset_eq_imp_distinct_iff)
qed

lemma fetchAllKlines_result:
  "fetchAllKlines net onProgress s itv startTime endTime a = Some (Inr klines, a') \<Longrightarrow>
   \<exists>out. fetchLoop net onProgress s itv (intervalMsOf itv) endTime startTime [] 0 a
           = Some (Inr out, a') \<and> klines = dedupSort out"
  by (auto simp: fetchAllKlines_def split: option.splits sum.splits prod.splits)

text \<open>
  A run of \<open>fetchAllKlines\<close> against the sample source: three chunks, each
  overlapping the one before, four klines after deduplication.
\<close>

lemma sample_run:
  "fetchAllKlines sampleNet (\<lambda>chunk start end a. a) ''BTCUSDT'' ''5m'' 0 900000 sampleApp =
     Some (Inr [sampleKline (- 300000) 0, sampleKline 0 0, sampleKline 300000 1, sampleKline 600000 2],
           sampleApp\<lparr>requests :=
             [(''https://api.binance.com'', sampleRequest 0 900000),
              (''https://api.binance.com'', sampleRequest 300000 900000),
              (''https://api.binance.com'', sampleRequest 600000 900000)]\<rparr>)"
  by (simp add: fetchAllKlines_def fetchLoop.simps intervalMsOf_def INTERVALS_def
      fetchKlinesAnyBase_def BINANCE_BASES_def attempt_def sampleNet_def sampleApp_def
      nextCursor_def dedupSort_def sampleKline_def sampleRequest_def Let_def)

text \<open>
  C9. Whatever the chunks that were concatenated, the result of deduplicating
  and sorting has strictly ascending open times (so no open time twice), holds
  exactly the open times of the input, and for each open time the first kline of
  the input that has it; and this is what every successful \<open>fetchAllKlines\<close>
  returns.
\<close>

theorem klines_unique_ascending:
  "sorted_wrt (<) (map kline_openTime (dedupSort out)) \<and>
   set (map kline_openTime (dedupSort out)) = set (map kline_openTime out) \<and>
   (\<forall>k\<in>set (dedupSort out). find (\<lambda>x. kline_openTime x = kline_openTime k) out = Some k) \<and>
   (\<forall>net onProgress s itv startTime endTime a klines a'.
      fetchAllKlines net onProgress s itv startTime endTime a = Some (Inr klines, a') \<longrightarrow>
      sorted_wrt (<) (map kline_openTime klines))"
proof -
  have srt: "sorted_wrt (<) (map kline_openTime (dedupSort out'))" for out'
  proof -
    from dedupLoop_spec [of out' "{}" "[]"] obtain r where
      r: "dedupLoop out' {} [] = r" "distinct (map kline_openTime r)"
      by auto
    show ?thesis
      unfolding strict_sorted_iff dedupSort_def r(1)
      using r(2) by (simp add: distinct_map_sort_key)
  qed
  from dedupLoop_spec [of out "{}" "[]"] obtain r where
    r: "dedupLoop out {} [] = r"
      "set (map kline_openTime r) = set (map kline_openTime out)"
      "\<forall>k\<in>set r. find (\<lambda>x. kline_openTime x = kline_openTime k) out = Some k"
    by auto
  have a: "set (map kline_openTime (dedupSort out)) = set (map kline_openTime out)"
    unfolding dedupSort_def r(1) using r(2) by simp
  have b: "\<forall>k\<in>set (dedupSort out). find (\<lambda>x. kline_openTime x = kline_openTime k) out = Some k"
    unfolding dedupSort_def r(1) using r(3) by simp
  have c: "\<forall>net onProgress s itv startTime endTime a klines a'.
      fetchAllKlines net onProgress s itv startTime endTime a = Some (Inr klines, a') \<longrightarrow>
      sorted_wrt (<) (map kline_openTime klines)"
    using fetchAllKlines_result srt by blast
  show ?thesis using srt a b c by blast
qed

text \<open>
  Five klines with two open times repeated: the first kline of each open time
  is kept. And the run against the sample source gives ascending open times.
\<close>

lemma dedupSort_overlapping:
  "dedupSort overlappingChunks = [sampleKline (- 5) 4, sampleKline 0 1, sampleKline 300000 1]"
  by (simp add: dedupSort_def overlappingChunks_def sampleKline_def)

theorem klines_unique_ascending_witness:
  "dedupSort overlappingChunks = [sampleKline (- 5) 4, sampleKline 0 1, sampleKline 300000 1] \<and>
   sorted_wrt (<) (map kline_openTime [sampleKline (- 5) 4, sampleKline 0 1, sampleKline 300000 1]) \<and>
   set (map kline_openTime [sampleKline (- 5) 4, sampleKline 0 1, sampleKline 300000 1])
     = set (map kline_openTime overlappingChunks) \<and>
   find (\<lambda>x. kline_openTime x = kline_openTime (sampleKline 300000 1)) overlappingChunks
     = Some (sampleKline 300000 1) \<and>
   fetchAllKlines sampleNet (\<lambda>chunk start end a. a) ''BTCUSDT'' ''5m'' 0 900000 sampleApp =
     Some (Inr [sampleKline (- 300000) 0, sampleKline 0 0, sampleKline 300000 1, sampleKline 600000 2],
           sampleApp\<lparr>requests :=
             [(''https://api.binance.com'', sampleRequest 0 900000),
              (''https://api.binance.com'', sampleRequest 300000 900000),
              (''https://api.binance.com'', sampleRequest 600000 900000)]\<rparr>) \<and>
   sorted_wrt (<) (map kline_openTime
     [sampleKline (- 300000) 0, sampleKline 0 0, sampleKline 300000 1, sampleKline 600000 2])"
proof -
  note T = klines_unique_ascending [of overlappingChunks]
  have a: "sorted_wrt (<) (map kline_openTime (dedupSort overlappingChunks))"
    using T by blast
  have b: "set (map kline_openTime (dedupSort overlappingChunks))
      = set (map kline_openTime overlappingChunks)"
    using T by blast
  have "\<forall>k\<in>set (dedupSort overlappingChunks).
      find (\<lambda>x. kline_openTime x = kline_openTime k) overlappingChunks = Some k"
    using T by blast
  then have c: "find (\<lambda>x. kline_openTime x = kline_openTime (sampleKline 300000 1)) overlappingChunks
      = Some (sampleKline 300000 1)"
    unfolding dedupSort_overlapping by simp
  have "\<forall>net onProgress s itv startTime endTime a klines a'.
      fetchAllKlines net onProgress s itv startTime endTime a = Some (Inr klines, a') \<longrightarrow>
      sorted_wrt (<) (map kline_openTime klines)"
    using T by blast
  from this [rule_format, OF sample_run]
  have d: "sorted_wrt (<) (map kline_openTime
     [sampleKline (- 300000) 0, sampleKline 0 0, sampleKline 300000 1, sampleKline 600000 2])" .
  show ?thesis
    using a b c d sample_run unfolding dedupSort_overlapping by simp
qed

text \<open>
  A chunk that comes back with data came from a response of the source, so a
  bound on the responses of the source bounds the chunks of the loop.
\<close>

lemma tryBases_data:
  "tryBases net bases req lastErr reqs = (Inr kl, reqs') \<Longrightarrow>
   \<exists>n base. attempt (net n base req) = Inr kl"
  by (induction bases arbitrary: lastErr reqs) (auto split: sum.splits)

lemma intervalMsOf_pos: "0 < intervalMsOf itv"
  by (simp add: intervalMsOf_def INTERVALS_def)

lemma nextCursor_advances:
  "\<lbrakk>t < endTime; 0 < intervalMs; kl \<noteq> [] \<longrightarrow> t \<le> kline_openTime (last kl)\<rbrakk>
   \<Longrightarrow> t < nextCursor intervalMs (min endTime (t + intervalMs * 1000)) kl"
  by (auto simp: nextCursor_def)

lemma fetchLoop_done:
  "\<not> t < endTime \<Longrightarrow>
   fetchLoop net onProgress s itv intervalMs endTime t out chunk a = Some (Inr out, a)"
  by (subst fetchLoop.simps) simp

lemma fetchLoop_step:
  assumes "t < endTime"
    and "fetchKlinesAnyBase net
           \<lparr>req_symbol = s, req_interval = itv, req_startTime = t,
            req_endTime = min endTime (t + intervalMs * 1000)\<rparr>
           (requests (onProgress (Suc chunk) t (min endTime (t + intervalMs * 1000)) a))
         = (r, reqs)"
  shows "fetchLoop net onProgress s itv intervalMs endTime t out chunk a =
     (case r of
        Inl e \<Rightarrow>
          Some (Inl e, (onProgress (Suc chunk) t (min endTime (t + intervalMs * 1000)) a)
                         \<lparr>requests := reqs\<rparr>)
      | Inr kl \<Rightarrow>
          fetchLoop net onProgress s itv intervalMs endTime
            (nextCursor intervalMs (min endTime (t + intervalMs * 1000)) kl) (out @ kl) (Suc chunk)
            ((onProgress (Suc chunk) t (min endTime (t + intervalMs * 1000)) a)
               \<lparr>requests := reqs\<rparr>))"
  using assms by (subst fetchLoop.simps) (simp add: Let_def)

lemma fetchLoop_returns:
  assumes pre: "\<forall>n base req kl.
      attempt (net n base req) = Inr kl \<and> kl \<noteq> []
        \<longrightarrow> req_startTime req \<le> kline_openTime (last kl)"
    and pos: "0 < intervalMs"
  shows "\<exists>res. fetchLoop net onProgress s itv intervalMs endTime t out chunk a = Some res"
proof (induction "nat (endTime - t)" arbitrary: t out chunk a rule: less_induct)
  case less
  show ?case
  proof (cases "t < endTime")
    case False
    then show ?thesis by (simp add: fetchLoop_done)
  next
    case True
    let ?chunkEnd = "min endTime (t + intervalMs * 1000)"
    let ?a1 = "onProgress (Suc chunk) t ?chunkEnd a"
    let ?req = "\<lparr>req_symbol = s, req_interval = itv, req_startTime = t,
      req_endTime = ?chunkEnd\<rparr>"
    obtain r reqs where f: "fetchKlinesAnyBase net ?req (requests ?a1) = (r, reqs)"
      by (cases "fetchKlinesAnyBase net ?req (requests ?a1)")
    have step: "fetchLoop net onProgress s itv intervalMs endTime t out chunk a =
     (case r of
        Inl e \<Rightarrow> Some (Inl e, ?a1\<lparr>requests := reqs\<rparr>)
      | Inr kl \<Rightarrow>
          fetchLoop net onProgress s itv intervalMs endTime
            (nextCursor intervalMs ?chunkEnd kl) (out @ kl) (Suc chunk)
            (?a1\<lparr>requests := reqs\<rparr>))"
      by (rule fetchLoop_step [where onProgress = onProgress and chunk = chunk and a = a, OF True f])
    show ?thesis
    proof (cases r)
      case (Inl e)
      then show ?thesis unfolding step by simp
    next
      case (Inr kl)
      from f Inr obtain n base where "attempt (net n base ?req) = Inr kl"
        unfolding fetchKlinesAnyBase_def by (blast dest: tryBases_data)
      with pre have "kl \<noteq> [] \<longrightarrow> req_startTime ?req \<le> kline_openTime (last kl)"
        by blast
      then have "kl \<noteq> [] \<longrightarrow> t \<le> kline_openTime (last kl)" by simp
      from nextCursor_advances [OF True pos this]
      have "nat (endTime - nextCursor intervalMs ?chunkEnd kl) < nat (endTime - t)"
        using True by simp
      from less [OF this] show ?thesis unfolding step Inr by simp
    qed
  qed
qed

text \<open>
  C6. If the last candle of every non-empty response that an attempt accepts
  opens no earlier than the requested chunk start, \<open>fetchAllKlines\<close> returns (with the klines, or with the
  error of a failed chunk) whatever the range. Each iteration moves the cursor
  strictly forward: to the last open time plus the interval after a non-empty
  chunk, to the end of the chunk after an empty one.
\<close>

theorem fetch_loop_terminates:
  assumes "\<forall>n base req kl.
      attempt (net n base req) = Inr kl \<and> kl \<noteq> []
        \<longrightarrow> req_startTime req \<le> kline_openTime (last kl)"
  shows "(\<exists>res. fetchAllKlines net onProgress s itv startTime endTime a = Some res) \<and>
         (\<forall>t kl. t < endTime \<and> (kl \<noteq> [] \<longrightarrow> t \<le> kline_openTime (last kl)) \<longrightarrow>
            t < nextCursor (intervalMsOf itv) (min endTime (t + intervalMsOf itv * 1000)) kl \<and>
            nextCursor (intervalMsOf itv) (min endTime (t + intervalMsOf itv * 1000)) kl
              = (if kl \<noteq> [] then kline_openTime (last kl) + intervalMsOf itv
                 else min endTime (t + intervalMsOf itv * 1000)))"
proof -
  from fetchLoop_returns [OF assms intervalMsOf_pos]
  obtain res where
    "fetchLoop net onProgress s itv (intervalMsOf itv) endTime startTime [] 0 a = Some res"
    by blast
  then have "\<exists>res. fetchAllKlines net onProgress s itv startTime endTime a = Some res"
    by (cases res) (auto simp: fetchAllKlines_def split: sum.splits)
  moreover have "\<forall>t kl. t < endTime \<and> (kl \<noteq> [] \<longrightarrow> t \<le> kline_openTime (last kl)) \<longrightarrow>
            t < nextCursor (intervalMsOf itv) (min endTime (t + intervalMsOf itv * 1000)) kl \<and>
            nextCursor (intervalMsOf itv) (min endTime (t + intervalMsOf itv * 1000)) kl
              = (if kl \<noteq> [] then kline_openTime (last kl) + intervalMsOf itv
                 else min endTime (t + intervalMsOf itv * 1000))"
    using nextCursor_advances [OF _ intervalMsOf_pos] by (simp add: nextCursor_def)
  ultimately show ?thesis by blast
qed

text \<open>
  The sample source meets the hypothesis, and the run over [0, 900000) returns
  after three chunks; the cursor moves from 0 to 300000 after the first chunk, and
  would move to 900000 after an empty one.
\<close>

theorem fetch_loop_terminates_witness:
  "(\<exists>res. fetchAllKlines sampleNet (\<lambda>chunk start end a. a) ''BTCUSDT'' ''5m'' 0 900000 sampleApp
           = Some res) \<and>
   fetchAllKlines sampleNet (\<lambda>chunk start end a. a) ''BTCUSDT'' ''5m'' 0 900000 sampleApp =
     Some (Inr [sampleKline (- 300000) 0, sampleKline 0 0, sampleKline 300000 1, sampleKline 600000 2],
           sampleApp\<lparr>requests :=
             [(''https://api.binance.com'', sampleRequest 0 900000),
              (''https://api.binance.com'', sampleRequest 300000 900000),
              (''https://api.binance.com'', sampleRequest 600000 900000)]\<rparr>) \<and>
   (0::int) < nextCursor (intervalMsOf ''5m'') (min 900000 (0 + intervalMsOf ''5m'' * 1000))
                [sampleKline (- 300000) 0, sampleKline 0 0] \<and>
   nextCursor (intervalMsOf ''5m'') (min 900000 (0 + intervalMsOf ''5m'' * 1000))
     [sampleKline (- 300000) 0, sampleKline 0 0] = 300000 \<and>
   (0::int) < nextCursor (intervalMsOf ''5m'') (min 900000 (0 + intervalMsOf ''5m'' * 1000)) [] \<and>
   nextCursor (intervalMsOf ''5m'') (min 900000 (0 + intervalMsOf ''5m'' * 1000)) [] = 900000"
proof -
  have pre: "\<forall>n base req kl.
      attempt (sampleNet n base req) = Inr kl \<and> kl \<noteq> []
        \<longrightarrow> req_startTime req \<le> kline_openTime (last kl)"
    by (auto simp: sampleNet_def attempt_def)
  note T = fetch_loop_terminates [OF pre, of "\<lambda>chunk start end a. a" "''BTCUSDT''" "''5m''" 0
      900000 sampleApp]
  have ex: "\<exists>res. fetchAllKlines sampleNet (\<lambda>chunk start end a. a) ''BTCUSDT'' ''5m'' 0 900000
      sampleApp = Some res"
    using T by blast
  have adv: "\<forall>t kl. t < 900000 \<and> (kl \<noteq> [] \<longrightarrow> t \<le> kline_openTime (last kl)) \<longrightarrow>
      t < nextCursor (intervalMsOf ''5m'') (min 900000 (t + intervalMsOf ''5m'' * 1000)) kl \<and>
      nextCursor (intervalMsOf ''5m'') (min 900000 (t + intervalMsOf ''5m'' * 1000)) kl
        = (if kl \<noteq> [] then kline_openTime (last kl) + intervalMsOf ''5m''
           else min 900000 (t + intervalMsOf ''5m'' * 1000))"
    using T by blast
  have iv: "intervalMsOf ''5m'' = 300000" by (simp add: intervalMsOf_def INTERVALS_def)
  have one: "(0::int) < nextCursor (intervalMsOf ''5m'') (min 900000 (0 + intervalMsOf ''5m'' * 1000))
                [sampleKline (- 300000) 0, sampleKline 0 0] \<and>
      nextCursor (intervalMsOf ''5m'') (min 900000 (0 + intervalMsOf ''5m'' * 1000))
        [sampleKline (- 300000) 0, sampleKline 0 0] = 300000"
    using adv [rule_format, of 0 "[sampleKline (- 300000) 0, sampleKline 0 0]"]
    by (simp add: sampleKline_def iv)
  have two: "(0::int) < nextCursor (intervalMsOf ''5m'') (min 900000 (0 + intervalMsOf ''5m'' * 1000)) [] \<and>
      nextCursor (intervalMsOf ''5m'') (min 900000 (0 + intervalMsOf ''5m'' * 1000)) [] = 900000"
    using adv [rule_format, of 0 "[]"] by (simp add: iv)
  show ?thesis using ex sample_run one two by simp
qed

section \<open>Properties of the hindsight run\<close>

text \<open>
  One chunk request: the primary base is tried first, and the fallback once,
  only when the primary failed.
\<close>

lemma fetchKlinesAnyBase_cases:
  "fetchKlinesAnyBase net req reqs =
     (case attempt (net (length reqs) ''https://api.binance.com'' req) of
        Inr data \<Rightarrow> (Inr data, reqs @ [(''https://api.binance.com'', req)])
      | Inl e1 \<Rightarrow>
          (case attempt (net (Suc (length reqs)) ''https://data-api.binance.vision'' req) of
             Inr data \<Rightarrow>
               (Inr data, reqs @ [(''https://api.binance.com'', req),
                                  (''https://data-api.binance.vision'', req)])
           | Inl e2 \<Rightarrow>
               (Inl e2, reqs @ [(''https://api.binance.com'', req),
                                (''https://data-api.binance.vision'', req)])))"
  by (simp add: fetchKlinesAnyBase_def BINANCE_BASES_def split: sum.splits)

text \<open>
  Fetching changes the status line and the request log only: the closed trades
  and the hindsight results are as they were.
\<close>

lemma fetchLoop_preserves:
  assumes run: "fetchLoop net onProgress s itv intervalMs endTime t out chunk a = Some y"
    and onp: "\<forall>c st en b. closedTrades (onProgress c st en b) = closedTrades b \<and>
                     hData (onProgress c st en b) = hData b"
  shows "closedTrades (snd y) = closedTrades a \<and> hData (snd y) = hData a"
proof -
  have "(\<forall>c st en b. closedTrades (onProgress c st en b) = closedTrades b \<and>
                     hData (onProgress c st en b) = hData b)
        \<longrightarrow> closedTrades (snd y) = closedTrades a \<and> hData (snd y) = hData a"
  proof (rule fetchLoop.raw_induct [where P = "\<lambda>net onProgress s itv intervalMs endTime t out chunk a y.
      (\<forall>c st en b. closedTrades (onProgress c st en b) = closedTrades b \<and>
                     hData (onProgress c st en b) = hData b)
        \<longrightarrow> closedTrades (snd y) = closedTrades a \<and> hData (snd y) = hData a", OF _ run])
    fix loop :: "net \<Rightarrow> (nat \<Rightarrow> int \<Rightarrow> int \<Rightarrow> app \<Rightarrow> app) \<Rightarrow> string \<Rightarrow> string \<Rightarrow> int \<Rightarrow> int
        \<Rightarrow> int \<Rightarrow> kline list \<Rightarrow> nat \<Rightarrow> app \<Rightarrow> ((js_error + kline list) \<times> app) option"
      and net onProgress s itv intervalMs endTime t out chunk a y
    assume IH: "\<And>net onProgress s itv intervalMs endTime t out chunk a y.
        loop net onProgress s itv intervalMs endTime t out chunk a = Some y \<Longrightarrow>
        (\<forall>c st en b. closedTrades (onProgress c st en b) = closedTrades b \<and>
                     hData (onProgress c st en b) = hData b)
        \<longrightarrow> closedTrades (snd y) = closedTrades a \<and> hData (snd y) = hData a"
      and body: "(if t < endTime
          then let maxSpan = intervalMs * 1000;
                   chunkEnd = min endTime (t + maxSpan);
                   a1 = onProgress (Suc chunk) t chunkEnd a
               in case fetchKlinesAnyBase net
                        \<lparr>req_symbol = s, req_interval = itv, req_startTime = t,
                         req_endTime = chunkEnd\<rparr> (requests a1) of
                  (Inl e, reqs) \<Rightarrow> Some (Inl e, a1\<lparr>requests := reqs\<rparr>)
                | (Inr kl, reqs) \<Rightarrow>
                    loop net onProgress s itv intervalMs endTime
                      (nextCursor intervalMs chunkEnd kl) (out @ kl) (Suc chunk)
                      (a1\<lparr>requests := reqs\<rparr>)
          else Some (Inr out, a)) = Some y"
    show "(\<forall>c st en b. closedTrades (onProgress c st en b) = closedTrades b \<and>
                     hData (onProgress c st en b) = hData b)
        \<longrightarrow> closedTrades (snd y) = closedTrades a \<and> hData (snd y) = hData a"
    proof
      assume onp: "\<forall>c st en b. closedTrades (onProgress c st en b) = closedTrades b \<and>
                     hData (onProgress c st en b) = hData b"
      show "closedTrades (snd y) = closedTrades a \<and> hData (snd y) = hData a"
      proof (cases "t < endTime")
        case False
        with body show ?thesis by auto
      next
        case True
        let ?a1 = "onProgress (Suc chunk) t (min endTime (t + intervalMs * 1000)) a"
        obtain r reqs where f: "fetchKlinesAnyBase net
            \<lparr>req_symbol = s, req_interval = itv, req_startTime = t,
             req_endTime = min endTime (t + intervalMs * 1000)\<rparr> (requests ?a1) = (r, reqs)"
          by (metis prod.collapse)
        have a1: "closedTrades ?a1 = closedTrades a \<and> hData ?a1 = hData a"
          using onp by blast
        show ?thesis
        proof (cases r)
          case (Inl e)
          with body True f a1 show ?thesis by (auto simp: Let_def)
        next
          case (Inr kl)
          with body True f
          have "loop net onProgress s itv intervalMs endTime
              (nextCursor intervalMs (min endTime (t + intervalMs * 1000)) kl) (out @ kl) (Suc chunk)
              (?a1\<lparr>requests := reqs\<rparr>) = Some y"
            by (simp add: Let_def)
          from IH [OF this] onp a1 show ?thesis by simp
        qed
      qed
    qed
  qed
  with onp show ?thesis by blast
qed

lemma fetchAllKlines_preserves:
  assumes "fetchAllKlines net onProgress s itv startTime endTime a = Some (r, a')"
    and "\<forall>c st en b. closedTrades (onProgress c st en b) = closedTrades b \<and>
                     hData (onProgress c st en b) = hData b"
  shows "closedTrades a' = closedTrades a \<and> hData a' = hData a"
proof -
  from assms(1) obtain r0 where
    "fetchLoop net onProgress s itv (intervalMsOf itv) endTime startTime [] 0 a = Some (r0, a')"
    by (auto simp: fetchAllKlines_def split: option.splits sum.splits prod.splits)
  from fetchLoop_preserves [OF this assms(2)] show ?thesis by simp
qed

lemma fetchSymbols_preserves:
  "fetchSymbols net itv intervalMs lookaheadMs n bySymbol symIdx symbolSeries a = Some (r, a')
   \<Longrightarrow> closedTrades a' = closedTrades a \<and> hData a' = hData a"
proof (induction bySymbol arbitrary: symIdx symbolSeries a)
  case Nil
  then show ?case by simp
next
  case (Cons p rest)
  obtain s trades where p: "p = (s, trades)" by (cases p)
  let ?a1 = "a\<lparr>hStatus := ''Fetching '' @ s @ '' candles ('' @ show_nat (Suc symIdx) @ ''/''
                            @ show_nat n @ '')...''\<rparr>"
  let ?onP = "\<lambda>chunk (start::int) (end::int) a. a\<lparr>hStatus := ''Fetching '' @ s @ '' candles... chunk ''
                                                   @ show_nat chunk\<rparr>"
  let ?st = "Min (set (map closeTime trades)) - intervalMs * 2"
  let ?en = "Max (set (map closeTime trades)) + lookaheadMs + intervalMs * 2"
  from Cons.prems p obtain r1 a2 where
    f: "fetchAllKlines net ?onP s itv ?st ?en ?a1 = Some (r1, a2)"
    by (auto simp: Let_def split: option.splits)
  have pr: "closedTrades a2 = closedTrades a \<and> hData a2 = hData a"
    using fetchAllKlines_preserves [OF f] by simp
  show ?case
  proof (cases r1)
    case (Inl e)
    with Cons.prems p f pr show ?thesis by (simp add: Let_def)
  next
    case (Inr klines)
    with Cons.prems p f
    have "fetchSymbols net itv intervalMs lookaheadMs n rest (Suc symIdx)
        (mapSet s (indexKlines klines) symbolSeries) a2 = Some (r, a')"
      by (simp add: Let_def)
    from Cons.IH [OF this] pr show ?thesis by simp
  qed
qed

lemma runHindsight_closedTrades:
  assumes "runHindsight net a = Some a'"
  shows "closedTrades a' = closedTrades a"
proof (cases "length (closedTrades a) = 0")
  case True
  with assms show ?thesis by (simp add: runHindsight_def)
next
  case False
  let ?a1 = "a\<lparr>hLoading := True, hStatus := ''Warming up the roast...'', error := '''',
                    hData := None\<rparr>"
  let ?by = "groupBySymbol (closedTrades a)"
  from assms False obtain r a2 where
    f: "fetchSymbols net (interval a) (intervalMsOf (interval a)) (lookaheadHours a * 3600000)
          (length ?by) ?by 0 [] ?a1 = Some (r, a2)"
    by (auto simp: runHindsight_def Let_def split: option.splits)
  from fetchSymbols_preserves [OF f] have c: "closedTrades a2 = closedTrades a" by simp
  show ?thesis
    using assms False f c
    by (cases r) (auto simp: runHindsight_def Let_def)
qed

lemma fetchLoop_failed_chunk:
  assumes "t < endTime"
    and "fetchKlinesAnyBase net
           \<lparr>req_symbol = s, req_interval = itv, req_startTime = t,
            req_endTime = min endTime (t + intervalMs * 1000)\<rparr>
           (requests (onProgress (Suc chunk) t (min endTime (t + intervalMs * 1000)) a))
         = (Inl e, reqs)"
  shows "fetchLoop net onProgress s itv intervalMs endTime t out chunk a =
     Some (Inl e, (onProgress (Suc chunk) t (min endTime (t + intervalMs * 1000)) a)
                    \<lparr>requests := reqs\<rparr>)"
  using assms by (subst fetchLoop.simps) (simp add: Let_def)

lemma runHindsight_failed:
  assumes ne: "closedTrades a \<noteq> []"
    and f: "fetchSymbols net (interval a) (intervalMsOf (interval a)) (lookaheadHours a * 3600000)
          (length (groupBySymbol (closedTrades a))) (groupBySymbol (closedTrades a)) 0 []
          (a\<lparr>hLoading := True, hStatus := ''Warming up the roast...'', error := '''',
             hData := None\<rparr>) = Some (Inl e, a2)"
  shows "runHindsight net a =
           Some (a2\<lparr>error := ''Hindsight failed: '' @ errText e, hStatus := '''',
                    hLoading := False\<rparr>) \<and>
         hData a2 = None \<and> closedTrades a2 = closedTrades a"
proof -
  from fetchSymbols_preserves [OF f] have "hData a2 = None" "closedTrades a2 = closedTrades a"
    by simp_all
  moreover have "runHindsight net a =
           Some (a2\<lparr>error := ''Hindsight failed: '' @ errText e, hStatus := '''',
                    hLoading := False\<rparr>)"
    using ne f by (simp add: runHindsight_def Let_def)
  ultimately show ?thesis by simp
qed

text \<open>
  The request log of a run. Requests are only ever appended; a chunk request
  that comes back with data leaves no failed fallback request in the log, and a
  chunk request that fails leaves its failed fallback request as the last entry.
\<close>

lemma fallbackFailed_append:
  "i < length reqs \<Longrightarrow> fallbackFailed net (reqs @ ext) i = fallbackFailed net reqs i"
  by (simp add: fallbackFailed_def nth_append)

lemma fallbackFailed_bound: "fallbackFailed net reqs i \<Longrightarrow> i < length reqs"
  by (simp add: fallbackFailed_def)

lemma fetchKlinesAnyBase_log:
  assumes "fetchKlinesAnyBase net req reqs = (r, reqs')"
  shows "(\<exists>ext. reqs' = reqs @ ext) \<and>
     (case r of
        Inr x \<Rightarrow> \<forall>i. length (reqs) \<le> i \<longrightarrow> \<not> fallbackFailed net (reqs') i
      | Inl e \<Rightarrow>
          length (reqs) < length (reqs') \<and>
          fallbackFailed net (reqs') (length (reqs') - 1) \<and>
          attempt (net (length (reqs') - 1) ''https://data-api.binance.vision'' (snd (last (reqs')))) = Inl e)"
proof (cases "attempt (net (length reqs) ''https://api.binance.com'' req)")
  case (Inr data)
  with assms have r: "r = Inr data" "reqs' = reqs @ [(''https://api.binance.com'', req)]"
    by (simp_all add: fetchKlinesAnyBase_cases)
  have "\<not> fallbackFailed net reqs' i" if "length reqs \<le> i" for i
    using that by (auto simp: r(2) fallbackFailed_def nth_append)
  then show ?thesis using r by simp
next
  case e1: (Inl e1)
  show ?thesis
  proof (cases "attempt (net (Suc (length reqs)) ''https://data-api.binance.vision'' req)")
    case (Inr data)
    with e1 assms have r: "r = Inr data"
      "reqs' = reqs @ [(''https://api.binance.com'', req), (''https://data-api.binance.vision'', req)]"
      by (simp_all add: fetchKlinesAnyBase_cases)
    have "\<not> fallbackFailed net reqs' i" if "length reqs \<le> i" for i
    proof (cases "i = Suc (length reqs)")
      case True
      then show ?thesis using Inr by (simp add: r(2) fallbackFailed_def nth_append)
    next
      case False
      with that show ?thesis
        by (auto simp: r(2) fallbackFailed_def nth_append nth_Cons split: nat.splits)
    qed
    then show ?thesis using r by simp
  next
    case (Inl e2)
    with e1 assms have r: "r = Inl e2"
      "reqs' = reqs @ [(''https://api.binance.com'', req), (''https://data-api.binance.vision'', req)]"
      by (simp_all add: fetchKlinesAnyBase_cases)
    show ?thesis using Inl by (simp add: r fallbackFailed_def nth_append)
  qed
qed

lemma log_compose:
  assumes "reqs1 = reqs0 @ ext1"
    and "\<forall>i. length reqs0 \<le> i \<longrightarrow> \<not> fallbackFailed net reqs1 i"
    and "(\<exists>ext. reqs2 = reqs1 @ ext) \<and>
         (case r of
            Inr x \<Rightarrow> \<forall>i. length (reqs1) \<le> i \<longrightarrow> \<not> fallbackFailed net (reqs2) i
          | Inl e \<Rightarrow>
              length (reqs1) < length (reqs2) \<and>
              fallbackFailed net (reqs2) (length (reqs2) - 1) \<and>
              attempt (net (length (reqs2) - 1) ''https://data-api.binance.vision'' (snd (last (reqs2)))) = Inl e)"
  shows "(\<exists>ext. reqs2 = reqs0 @ ext) \<and>
         (case r of
            Inr x \<Rightarrow> \<forall>i. length (reqs0) \<le> i \<longrightarrow> \<not> fallbackFailed net (reqs2) i
          | Inl e \<Rightarrow>
              length (reqs0) < length (reqs2) \<and>
              fallbackFailed net (reqs2) (length (reqs2) - 1) \<and>
              attempt (net (length (reqs2) - 1) ''https://data-api.binance.vision'' (snd (last (reqs2)))) = Inl e)"
proof -
  from assms(3) obtain ext2 where e2: "reqs2 = reqs1 @ ext2" by blast
  have ext: "\<exists>ext. reqs2 = reqs0 @ ext" using assms(1) e2 by simp
  have le: "length reqs0 \<le> length reqs1" using assms(1) by simp
  show ?thesis
  proof (cases r)
    case (Inl e)
    with assms(3) le ext show ?thesis by simp
  next
    case (Inr x)
    have "\<not> fallbackFailed net reqs2 i" if "length reqs0 \<le> i" for i
    proof (cases "i < length reqs1")
      case True
      then have "fallbackFailed net reqs2 i = fallbackFailed net reqs1 i"
        unfolding e2 by (rule fallbackFailed_append)
      with assms(2) that show ?thesis by simp
    next
      case False
      with assms(3) Inr show ?thesis by simp
    qed
    with ext Inr show ?thesis by simp
  qed
qed

lemma fetchLoop_log:
  assumes run: "fetchLoop net onProgress s itv intervalMs endTime t out chunk a = Some y"
    and onp: "\<forall>c st en b. requests (onProgress c st en b) = requests b \<and>
                     error (onProgress c st en b) = error b"
  shows "error (snd y) = error a \<and>
     (\<exists>ext. requests (snd y) = requests a @ ext) \<and>
     (case fst y of
        Inr x \<Rightarrow> \<forall>i. length (requests a) \<le> i \<longrightarrow> \<not> fallbackFailed net (requests (snd y)) i
      | Inl e \<Rightarrow>
          length (requests a) < length (requests (snd y)) \<and>
          fallbackFailed net (requests (snd y)) (length (requests (snd y)) - 1) \<and>
          attempt (net (length (requests (snd y)) - 1) ''https://data-api.binance.vision'' (snd (last (requests (snd y))))) = Inl e)"
proof -
  have "(\<forall>c st en b. requests (onProgress c st en b) = requests b \<and>
                     error (onProgress c st en b) = error b)
        \<longrightarrow> error (snd y) = error a \<and>
          (\<exists>ext. requests (snd y) = requests a @ ext) \<and>
          (case fst y of
             Inr x \<Rightarrow> \<forall>i. length (requests a) \<le> i \<longrightarrow> \<not> fallbackFailed net (requests (snd y)) i
           | Inl e \<Rightarrow>
               length (requests a) < length (requests (snd y)) \<and>
               fallbackFailed net (requests (snd y)) (length (requests (snd y)) - 1) \<and>
               attempt (net (length (requests (snd y)) - 1) ''https://data-api.binance.vision'' (snd (last (requests (snd y))))) = Inl e)"
  proof (rule fetchLoop.raw_induct [where P = "\<lambda>net onProgress s itv intervalMs endTime t out chunk a y.
      (\<forall>c st en b. requests (onProgress c st en b) = requests b \<and>
                     error (onProgress c st en b) = error b)
        \<longrightarrow> error (snd y) = error a \<and>
          (\<exists>ext. requests (snd y) = requests a @ ext) \<and>
          (case fst y of
             Inr x \<Rightarrow> \<forall>i. length (requests a) \<le> i \<longrightarrow> \<not> fallbackFailed net (requests (snd y)) i
           | Inl e \<Rightarrow>
               length (requests a) < length (requests (snd y)) \<and>
               fallbackFailed net (requests (snd y)) (length (requests (snd y)) - 1) \<and>
               attempt (net (length (requests (snd y)) - 1) ''https://data-api.binance.vision'' (snd (last (requests (snd y))))) = Inl e)", OF _ run])
    fix loop :: "net \<Rightarrow> (nat \<Rightarrow> int \<Rightarrow> int \<Rightarrow> app \<Rightarrow> app) \<Rightarrow> string \<Rightarrow> string \<Rightarrow> int \<Rightarrow> int
        \<Rightarrow> int \<Rightarrow> kline list \<Rightarrow> nat \<Rightarrow> app \<Rightarrow> ((js_error + kline list) \<times> app) option"
      and net onProgress s itv intervalMs endTime t out chunk a y
    assume IH: "\<And>net onProgress s itv intervalMs endTime t out chunk a y.
        loop net onProgress s itv intervalMs endTime t out chunk a = Some y \<Longrightarrow>
        (\<forall>c st en b. requests (onProgress c st en b) = requests b \<and>
                     error (onProgress c st en b) = error b)
        \<longrightarrow> error (snd y) = error a \<and>
          (\<exists>ext. requests (snd y) = requests a @ ext) \<and>
          (case fst y of
             Inr x \<Rightarrow> \<forall>i. length (requests a) \<le> i \<longrightarrow> \<not> fallbackFailed net (requests (snd y)) i
           | Inl e \<Rightarrow>
               length (requests a) < length (requests (snd y)) \<and>
               fallbackFailed net (requests (snd y)) (length (requests (snd y)) - 1) \<and>
               attempt (net (length (requests (snd y)) - 1) ''https://data-api.binance.vision'' (snd (last (requests (snd y))))) = Inl e)"
      and body: "(if t < endTime
          then let maxSpan = intervalMs * 1000;
                   chunkEnd = min endTime (t + maxSpan);
                   a1 = onProgress (Suc chunk) t chunkEnd a
               in case fetchKlinesAnyBase net
                        \<lparr>req_symbol = s, req_interval = itv, req_startTime = t,
                         req_endTime = chunkEnd\<rparr> (requests a1) of
                  (Inl e, reqs) \<Rightarrow> Some (Inl e, a1\<lparr>requests := reqs\<rparr>)
                | (Inr kl, reqs) \<Rightarrow>
                    loop net onProgress s itv intervalMs endTime
                      (nextCursor intervalMs chunkEnd kl) (out @ kl) (Suc chunk)
                      (a1\<lparr>requests := reqs\<rparr>)
          else Some (Inr out, a)) = Some y"
    show "(\<forall>c st en b. requests (onProgress c st en b) = requests b \<and>
                     error (onProgress c st en b) = error b)
        \<longrightarrow> error (snd y) = error a \<and>
          (\<exists>ext. requests (snd y) = requests a @ ext) \<and>
          (case fst y of
             Inr x \<Rightarrow> \<forall>i. length (requests a) \<le> i \<longrightarrow> \<not> fallbackFailed net (requests (snd y)) i
           | Inl e \<Rightarrow>
               length (requests a) < length (requests (snd y)) \<and>
               fallbackFailed net (requests (snd y)) (length (requests (snd y)) - 1) \<and>
               attempt (net (length (requests (snd y)) - 1) ''https://data-api.binance.vision'' (snd (last (requests (snd y))))) = Inl e)"
    proof
      assume onp: "\<forall>c st en b. requests (onProgress c st en b) = requests b \<and>
                     error (onProgress c st en b) = error b"
      show "error (snd y) = error a \<and>
          (\<exists>ext. requests (snd y) = requests a @ ext) \<and>
          (case fst y of
             Inr x \<Rightarrow> \<forall>i. length (requests a) \<le> i \<longrightarrow> \<not> fallbackFailed net (requests (snd y)) i
           | Inl e \<Rightarrow>
               length (requests a) < length (requests (snd y)) \<and>
               fallbackFailed net (requests (snd y)) (length (requests (snd y)) - 1) \<and>
               attempt (net (length (requests (snd y)) - 1) ''https://data-api.binance.vision'' (snd (last (requests (snd y))))) = Inl e)"
      proof (cases "t < endTime")
        case False
        with body have y: "y = (Inr out, a)" by simp
        show ?thesis by (auto simp: y dest!: fallbackFailed_bound)
      next
        case True
        let ?a1 = "onProgress (Suc chunk) t (min endTime (t + intervalMs * 1000)) a"
        let ?req = "\<lparr>req_symbol = s, req_interval = itv, req_startTime = t,
             req_endTime = min endTime (t + intervalMs * 1000)\<rparr>"
        obtain r reqs where f: "fetchKlinesAnyBase net ?req (requests ?a1) = (r, reqs)"
          by (metis prod.collapse)
        have a1: "requests ?a1 = requests a" "error ?a1 = error a"
          using onp by simp_all
        note one = fetchKlinesAnyBase_log [OF f, unfolded a1(1)]
        show ?thesis
        proof (cases r)
          case (Inl e)
          with body True f have y: "y = (Inl e, ?a1\<lparr>requests := reqs\<rparr>)"
            by (simp add: Let_def)
          show ?thesis using one Inl a1(2) by (simp add: y)
        next
          case (Inr kl)
          with body True f
          have "loop net onProgress s itv intervalMs endTime
              (nextCursor intervalMs (min endTime (t + intervalMs * 1000)) kl) (out @ kl) (Suc chunk)
              (?a1\<lparr>requests := reqs\<rparr>) = Some y"
            by (simp add: Let_def)
          from IH [OF this] onp
          have two: "error (snd y) = error a"
            "(\<exists>ext. requests (snd y) = reqs @ ext) \<and>
             (case fst y of
                Inr x \<Rightarrow> \<forall>i. length (reqs) \<le> i \<longrightarrow> \<not> fallbackFailed net (requests (snd y)) i
              | Inl e \<Rightarrow>
                  length (reqs) < length (requests (snd y)) \<and>
                  fallbackFailed net (requests (snd y)) (length (requests (snd y)) - 1) \<and>
                  attempt (net (length (requests (snd y)) - 1) ''https://data-api.binance.vision'' (snd (last (requests (snd y))))) = Inl e)"
            using a1(2) by (simp_all cong: sum.case_cong)
          from one Inr obtain ext1 where
            e1: "reqs = requests a @ ext1"
            and ok1: "\<forall>i. length (requests a) \<le> i \<longrightarrow> \<not> fallbackFailed net reqs i"
            by auto
          from log_compose [OF e1 ok1 two(2)] two(1) show ?thesis by simp
        qed
      qed
    qed
  qed
  with onp show ?thesis by blast
qed

lemma fetchAllKlines_log:
  assumes "fetchAllKlines net onProgress s itv startTime endTime a = Some (r, a')"
    and "\<forall>c st en b. requests (onProgress c st en b) = requests b \<and>
                     error (onProgress c st en b) = error b"
  shows "error a' = error a \<and>
     (\<exists>ext. requests a' = requests a @ ext) \<and>
     (case r of
        Inr x \<Rightarrow> \<forall>i. length (requests a) \<le> i \<longrightarrow> \<not> fallbackFailed net (requests a') i
      | Inl e \<Rightarrow>
          length (requests a) < length (requests a') \<and>
          fallbackFailed net (requests a') (length (requests a') - 1) \<and>
          attempt (net (length (requests a') - 1) ''https://data-api.binance.vision'' (snd (last (requests a')))) = Inl e)"
proof -
  from assms(1) obtain r0 where
    f: "fetchLoop net onProgress s itv (intervalMsOf itv) endTime startTime [] 0 a = Some (r0, a')"
    and r: "(case r0 of Inl e \<Rightarrow> r = Inl e | Inr out \<Rightarrow> r = Inr (dedupSort out))"
    by (auto simp: fetchAllKlines_def split: option.splits sum.splits prod.splits)
  from fetchLoop_log [OF f assms(2)] r show ?thesis
    by (cases r0) simp_all
qed

lemma fetchSymbols_log:
  "fetchSymbols net itv intervalMs lookaheadMs n bySymbol symIdx symbolSeries a = Some (r, a')
   \<Longrightarrow> error a' = error a \<and>
     (\<exists>ext. requests a' = requests a @ ext) \<and>
     (case r of
        Inr x \<Rightarrow> \<forall>i. length (requests a) \<le> i \<longrightarrow> \<not> fallbackFailed net (requests a') i
      | Inl e \<Rightarrow>
          length (requests a) < length (requests a') \<and>
          fallbackFailed net (requests a') (length (requests a') - 1) \<and>
          attempt (net (length (requests a') - 1) ''https://data-api.binance.vision'' (snd (last (requests a')))) = Inl e)"
proof (induction bySymbol arbitrary: symIdx symbolSeries a)
  case Nil
  then show ?case by (auto dest!: fallbackFailed_bound)
next
  case (Cons p rest)
  obtain s trades where p: "p = (s, trades)" by (cases p)
  let ?a1 = "a\<lparr>hStatus := ''Fetching '' @ s @ '' candles ('' @ show_nat (Suc symIdx) @ ''/''
                            @ show_nat n @ '')...''\<rparr>"
  let ?onP = "\<lambda>chunk (start::int) (end::int) a. a\<lparr>hStatus := ''Fetching '' @ s @ '' candles... chunk ''
                                                   @ show_nat chunk\<rparr>"
  let ?st = "Min (set (map closeTime trades)) - intervalMs * 2"
  let ?en = "Max (set (map closeTime trades)) + lookaheadMs + intervalMs * 2"
  from Cons.prems p obtain r1 a2 where
    f: "fetchAllKlines net ?onP s itv ?st ?en ?a1 = Some (r1, a2)"
    by (auto simp: Let_def split: option.splits)
  have one: "error a2 = error a"
    "(\<exists>ext. requests a2 = requests a @ ext) \<and>
       (case r1 of
          Inr x \<Rightarrow> \<forall>i. length (requests a) \<le> i \<longrightarrow> \<not> fallbackFailed net (requests a2) i
        | Inl e \<Rightarrow>
            length (requests a) < length (requests a2) \<and>
            fallbackFailed net (requests a2) (length (requests a2) - 1) \<and>
            attempt (net (length (requests a2) - 1) ''https://data-api.binance.vision'' (snd (last (requests a2)))) = Inl e)"
    using fetchAllKlines_log [OF f] by (simp_all cong: sum.case_cong)
  show ?case
  proof (cases r1)
    case (Inl e)
    with Cons.prems p f have "r = Inl e" "a' = a2" by (simp_all add: Let_def)
    with one Inl show ?thesis by simp
  next
    case (Inr klines)
    with Cons.prems p f
    have "fetchSymbols net itv intervalMs lookaheadMs n rest (Suc symIdx)
        (mapSet s (indexKlines klines) symbolSeries) a2 = Some (r, a')"
      by (simp add: Let_def)
    from Cons.IH [OF this]
    have two: "error a' = error a2"
      "(\<exists>ext. requests a' = requests a2 @ ext) \<and>
         (case r of
            Inr x \<Rightarrow> \<forall>i. length (requests a2) \<le> i \<longrightarrow> \<not> fallbackFailed net (requests a') i
          | Inl e \<Rightarrow>
              length (requests a2) < length (requests a') \<and>
              fallbackFailed net (requests a') (length (requests a') - 1) \<and>
              attempt (net (length (requests a') - 1) ''https://data-api.binance.vision'' (snd (last (requests a')))) = Inl e)"
      by simp_all
    from one(2) Inr obtain ext1 where
      e1: "requests a2 = requests a @ ext1"
      and ok1: "\<forall>i. length (requests a) \<le> i \<longrightarrow> \<not> fallbackFailed net (requests a2) i"
      by auto
    from log_compose [OF e1 ok1 two(2)] two(1) one(1) show ?thesis by simp
  qed
qed

text \<open>
  The outcome of a run that returns, read off the request log: the run has failed
  (no hindsight results, the message of the failed request in \<open>error\<close>) exactly
  when the log holds a failed request to the fallback base, which is then the
  last request of the run; otherwise there is a hindsight result for every closed
  trade and no error.
\<close>

lemma runHindsight_log:
  assumes ne: "closedTrades a \<noteq> []" and run: "runHindsight net a = Some a'"
  shows "(\<exists>ext. requests a' = requests a @ ext) \<and>
      ((\<exists>i. length (requests a) \<le> i \<and> fallbackFailed net (requests a') i)
         \<longleftrightarrow> hData a' = None) \<and>
      (hData a' = None \<longrightarrow>
         length (requests a) < length (requests a') \<and>
         fallbackFailed net (requests a') (length (requests a') - 1) \<and>
         (\<exists>e. attempt (net (length (requests a') - 1) ''https://data-api.binance.vision''
                         (snd (last (requests a')))) = Inl e \<and>
              error a' = ''Hindsight failed: '' @ errText e) \<and>
         hStatus a' = '''' \<and> hLoading a' = False) \<and>
      (hData a' \<noteq> None \<longrightarrow>
         (\<exists>series. hData a' =
            Some (map (\<lambda>t. hindsightTrade (realismOf (realismPct a)) (lookaheadHours a * 3600000)
                             (map_of series (normalizeToBinanceSymbol (trade_symbol t))) t)
                    (closedTrades a))) \<and>
         error a' = '''' \<and> hStatus a' = ''Roast complete'' \<and> hLoading a' = False)"
proof -
  let ?a1 = "a\<lparr>hLoading := True, hStatus := ''Warming up the roast...'', error := '''',
                    hData := None\<rparr>"
  let ?by = "groupBySymbol (closedTrades a)"
  from run ne obtain r a2 where
    f: "fetchSymbols net (interval a) (intervalMsOf (interval a)) (lookaheadHours a * 3600000)
          (length ?by) ?by 0 [] ?a1 = Some (r, a2)"
    by (auto simp: runHindsight_def Let_def split: option.splits)
  from fetchSymbols_preserves [OF f] have pres: "hData a2 = None" by simp
  from fetchSymbols_log [OF f]
  have err: "error a2 = ''''"
    and st: "(\<exists>ext. requests a2 = requests a @ ext) \<and>
          (case r of
             Inr x \<Rightarrow> \<forall>i. length (requests a) \<le> i \<longrightarrow> \<not> fallbackFailed net (requests a2) i
           | Inl e \<Rightarrow>
               length (requests a) < length (requests a2) \<and>
               fallbackFailed net (requests a2) (length (requests a2) - 1) \<and>
               attempt (net (length (requests a2) - 1) ''https://data-api.binance.vision'' (snd (last (requests a2)))) = Inl e)"
    by (simp_all cong: sum.case_cong)
  show ?thesis
  proof (cases r)
    case (Inl e)
    with run ne f have a': "a' = a2\<lparr>error := ''Hindsight failed: '' @ errText e, hStatus := '''',
                    hLoading := False\<rparr>"
      by (simp add: runHindsight_def Let_def)
    from st Inl have fail: "length (requests a) < length (requests a2)"
      "fallbackFailed net (requests a2) (length (requests a2) - 1)"
      "attempt (net (length (requests a2) - 1) ''https://data-api.binance.vision''
         (snd (last (requests a2)))) = Inl e"
      and ext: "\<exists>ext. requests a2 = requests a @ ext"
      by simp_all
    have ex: "\<exists>i. length (requests a) \<le> i \<and> fallbackFailed net (requests a2) i"
      using fail(1,2) by (intro exI [of _ "length (requests a2) - 1"]) simp
    show ?thesis
      unfolding a' using pres fail ext ex by simp
  next
    case (Inr series)
    with run ne f have a': "a' = a2\<lparr>hStatus := ''Computing fumbles...'',
        hData := Some (map (\<lambda>t. hindsightTrade (realismOf (realismPct a)) (lookaheadHours a * 3600000)
                             (map_of series (normalizeToBinanceSymbol (trade_symbol t))) t)
                    (closedTrades a)),
        hStatus := ''Roast complete'', hLoading := False\<rparr>"
      by (simp add: runHindsight_def Let_def)
    from st Inr have ok: "\<forall>i. length (requests a) \<le> i \<longrightarrow> \<not> fallbackFailed net (requests a2) i"
      and ext: "\<exists>ext. requests a2 = requests a @ ext"
      by simp_all
    show ?thesis
      unfolding a' using ok ext err by auto
  qed
qed

text \<open>
  When the loop of \<open>fetchAllKlines\<close> returns for every range, so do the loop over
  the symbols and the run.
\<close>

lemma fetchSymbols_returns:
  assumes "\<forall>n base req kl.
      attempt (net n base req) = Inr kl \<and> kl \<noteq> []
        \<longrightarrow> req_startTime req \<le> kline_openTime (last kl)"
  shows "\<exists>res. fetchSymbols net itv intervalMs lookaheadMs n bySymbol symIdx symbolSeries a
           = Some res"
proof (induction bySymbol arbitrary: symIdx symbolSeries a)
  case Nil
  then show ?case by simp
next
  case (Cons p rest)
  obtain s trades where p: "p = (s, trades)" by (cases p)
  let ?a1 = "a\<lparr>hStatus := ''Fetching '' @ s @ '' candles ('' @ show_nat (Suc symIdx) @ ''/''
                            @ show_nat n @ '')...''\<rparr>"
  let ?onP = "\<lambda>chunk (start::int) (end::int) a. a\<lparr>hStatus := ''Fetching '' @ s @ '' candles... chunk ''
                                                   @ show_nat chunk\<rparr>"
  let ?st = "Min (set (map closeTime trades)) - intervalMs * 2"
  let ?en = "Max (set (map closeTime trades)) + lookaheadMs + intervalMs * 2"
  have "\<exists>res. fetchLoop net ?onP s itv (intervalMsOf itv) ?en ?st [] 0 ?a1 = Some res"
    by (rule fetchLoop_returns [OF assms intervalMsOf_pos])
  then obtain r0 a2 where
    "fetchLoop net ?onP s itv (intervalMsOf itv) ?en ?st [] 0 ?a1 = Some (r0, a2)"
    by auto
  then obtain r1 where f: "fetchAllKlines net ?onP s itv ?st ?en ?a1 = Some (r1, a2)"
    by (cases r0) (auto simp: fetchAllKlines_def)
  show ?case
  proof (cases r1)
    case (Inl e)
    with f p show ?thesis by (simp add: Let_def)
  next
    case (Inr klines)
    from Cons.IH [of "Suc symIdx" "mapSet s (indexKlines klines) symbolSeries" a2]
    show ?thesis using f p Inr by (simp add: Let_def)
  qed
qed

lemma runHindsight_returns:
  assumes "\<forall>n base req kl.
      attempt (net n base req) = Inr kl \<and> kl \<noteq> []
        \<longrightarrow> req_startTime req \<le> kline_openTime (last kl)"
  shows "\<exists>a'. runHindsight net a = Some a'"
proof (cases "length (closedTrades a) = 0")
  case True
  then show ?thesis by (simp add: runHindsight_def)
next
  case False
  from fetchSymbols_returns [OF assms]
  obtain r a2 where
    "fetchSymbols net (interval a) (intervalMsOf (interval a)) (lookaheadHours a * 3600000)
        (length (groupBySymbol (closedTrades a))) (groupBySymbol (closedTrades a)) 0 []
        (a\<lparr>hLoading := True, hStatus := ''Warming up the roast...'', error := '''',
           hData := None\<rparr>) = Some (r, a2)"
    by (metis prod.collapse)
  then show ?thesis using False by (cases r) (simp_all add: runHindsight_def Let_def)
qed

text \<open>
  C5. A chunk request goes to the primary base; when that attempt fails (a
  rejected fetch, a status outside 200 to 299, a body that does not parse) it
  goes once to the fallback base, and when that fails too the request fails
  with the fallback's error, after exactly two requests. A failed chunk ends
  the loop of \<open>fetchAllKlines\<close> with that error wherever the loop stands, so
  no klines are returned; a failed \<open>fetchAllKlines\<close> ends the loop over the
  symbols wherever it stands, whatever series were fetched before; and a failed
  loop over the symbols ends \<open>runHindsight\<close> with the message
  \<open>Hindsight failed: ...\<close> in \<open>error\<close>, \<open>hData\<close> null, and the closed trades
  (hence the behavioural summary computed from them) unchanged. No run changes
  the closed trades.

  End to end, for every run on a page with closed trades that returns: the run
  only appends to the request log, and it ends with \<open>hData\<close> null exactly when
  some request of the run to the fallback base failed, whatever the chunk and
  the symbol. That request is then the last of the run, its error is the one
  shown after \<open>Hindsight failed: \<close>, the status is cleared and \<open>hLoading\<close> is
  false. Otherwise no request to the fallback base failed, \<open>hData\<close> holds a
  result for every closed trade, there is no error and the status is
  \<open>Roast complete\<close>. And the run returns whenever the price source meets the
  condition under which the loop of \<open>fetchAllKlines\<close> returns.
\<close>

theorem fetch_failure_fails_run:
  "fetchKlinesAnyBase net req reqs =
     (case attempt (net (length reqs) ''https://api.binance.com'' req) of
        Inr data \<Rightarrow> (Inr data, reqs @ [(''https://api.binance.com'', req)])
      | Inl e1 \<Rightarrow>
          (case attempt (net (Suc (length reqs)) ''https://data-api.binance.vision'' req) of
             Inr data \<Rightarrow>
               (Inr data, reqs @ [(''https://api.binance.com'', req),
                                  (''https://data-api.binance.vision'', req)])
           | Inl e2 \<Rightarrow>
               (Inl e2, reqs @ [(''https://api.binance.com'', req),
                                (''https://data-api.binance.vision'', req)]))) \<and>
   (\<forall>m. attempt (NetworkError m) = Inl (JsError ''TypeError'' m)) \<and>
   (\<forall>status body. \<not> (200 \<le> status \<and> status \<le> 299) \<longrightarrow>
      attempt (HttpResponse status body) = Inl (JsError ''Error'' (''HTTP '' @ show_nat status))) \<and>
   (\<forall>onProgress s itv intervalMs endTime t out chunk a e reqs'.
      t < endTime \<and>
      fetchKlinesAnyBase net
        \<lparr>req_symbol = s, req_interval = itv, req_startTime = t,
         req_endTime = min endTime (t + intervalMs * 1000)\<rparr>
        (requests (onProgress (Suc chunk) t (min endTime (t + intervalMs * 1000)) a))
        = (Inl e, reqs')
      \<longrightarrow> fetchLoop net onProgress s itv intervalMs endTime t out chunk a =
            Some (Inl e, (onProgress (Suc chunk) t (min endTime (t + intervalMs * 1000)) a)
                           \<lparr>requests := reqs'\<rparr>)) \<and>
   (\<forall>onProgress s itv startTime endTime a e a'.
      fetchLoop net onProgress s itv (intervalMsOf itv) endTime startTime [] 0 a = Some (Inl e, a')
      \<longrightarrow> fetchAllKlines net onProgress s itv startTime endTime a = Some (Inl e, a')) \<and>
   (\<forall>itv intervalMs lookaheadMs n s trades rest symIdx symbolSeries a e a2.
      fetchAllKlines net
        (\<lambda>chunk start end a. a\<lparr>hStatus := ''Fetching '' @ s @ '' candles... chunk ''
                                           @ show_nat chunk\<rparr>)
        s itv (Min (set (map closeTime trades)) - intervalMs * 2)
        (Max (set (map closeTime trades)) + lookaheadMs + intervalMs * 2)
        (a\<lparr>hStatus := ''Fetching '' @ s @ '' candles ('' @ show_nat (Suc symIdx) @ ''/''
                         @ show_nat n @ '')...''\<rparr>)
        = Some (Inl e, a2)
      \<longrightarrow> fetchSymbols net itv intervalMs lookaheadMs n ((s, trades) # rest) symIdx symbolSeries a
            = Some (Inl e, a2)) \<and>
   (\<forall>a e a2.
      closedTrades a \<noteq> [] \<and>
      fetchSymbols net (interval a) (intervalMsOf (interval a)) (lookaheadHours a * 3600000)
        (length (groupBySymbol (closedTrades a))) (groupBySymbol (closedTrades a)) 0 []
        (a\<lparr>hLoading := True, hStatus := ''Warming up the roast...'', error := '''',
           hData := None\<rparr>) = Some (Inl e, a2)
      \<longrightarrow> (\<exists>a'. runHindsight net a = Some a' \<and> hData a' = None \<and>
                error a' = ''Hindsight failed: '' @ errText e \<and> hStatus a' = '''' \<and>
                hLoading a' = False \<and> closedTrades a' = closedTrades a \<and>
                summarizeClosedTrades (closedTrades a') = summarizeClosedTrades (closedTrades a))) \<and>
   (\<forall>a a'. runHindsight net a = Some a' \<longrightarrow> closedTrades a' = closedTrades a) \<and>
   (\<forall>a a'. closedTrades a \<noteq> [] \<and> runHindsight net a = Some a' \<longrightarrow>
      (\<exists>ext. requests a' = requests a @ ext) \<and>
      ((\<exists>i. length (requests a) \<le> i \<and> fallbackFailed net (requests a') i)
         \<longleftrightarrow> hData a' = None) \<and>
      (hData a' = None \<longrightarrow>
         length (requests a) < length (requests a') \<and>
         fallbackFailed net (requests a') (length (requests a') - 1) \<and>
         (\<exists>e. attempt (net (length (requests a') - 1) ''https://data-api.binance.vision''
                         (snd (last (requests a')))) = Inl e \<and>
              error a' = ''Hindsight failed: '' @ errText e) \<and>
         hStatus a' = '''' \<and> hLoading a' = False) \<and>
      (hData a' \<noteq> None \<longrightarrow>
         (\<exists>series. hData a' =
            Some (map (\<lambda>t. hindsightTrade (realismOf (realismPct a)) (lookaheadHours a * 3600000)
                             (map_of series (normalizeToBinanceSymbol (trade_symbol t))) t)
                    (closedTrades a))) \<and>
         error a' = '''' \<and> hStatus a' = ''Roast complete'' \<and> hLoading a' = False)) \<and>
   ((\<forall>n base req kl.
       attempt (net n base req) = Inr kl \<and> kl \<noteq> []
         \<longrightarrow> req_startTime req \<le> kline_openTime (last kl))
    \<longrightarrow> (\<forall>a. \<exists>a'. runHindsight net a = Some a'))"
proof -
  have steps: "fetchKlinesAnyBase net req reqs =
     (case attempt (net (length reqs) ''https://api.binance.com'' req) of
        Inr data \<Rightarrow> (Inr data, reqs @ [(''https://api.binance.com'', req)])
      | Inl e1 \<Rightarrow>
          (case attempt (net (Suc (length reqs)) ''https://data-api.binance.vision'' req) of
             Inr data \<Rightarrow>
               (Inr data, reqs @ [(''https://api.binance.com'', req),
                                  (''https://data-api.binance.vision'', req)])
           | Inl e2 \<Rightarrow>
               (Inl e2, reqs @ [(''https://api.binance.com'', req),
                                (''https://data-api.binance.vision'', req)]))) \<and>
   (\<forall>m. attempt (NetworkError m) = Inl (JsError ''TypeError'' m)) \<and>
   (\<forall>status body. \<not> (200 \<le> status \<and> status \<le> 299) \<longrightarrow>
      attempt (HttpResponse status body) = Inl (JsError ''Error'' (''HTTP '' @ show_nat status))) \<and>
   (\<forall>onProgress s itv intervalMs endTime t out chunk a e reqs'.
      t < endTime \<and>
      fetchKlinesAnyBase net
        \<lparr>req_symbol = s, req_interval = itv, req_startTime = t,
         req_endTime = min endTime (t + intervalMs * 1000)\<rparr>
        (requests (onProgress (Suc chunk) t (min endTime (t + intervalMs * 1000)) a))
        = (Inl e, reqs')
      \<longrightarrow> fetchLoop net onProgress s itv intervalMs endTime t out chunk a =
            Some (Inl e, (onProgress (Suc chunk) t (min endTime (t + intervalMs * 1000)) a)
                           \<lparr>requests := reqs'\<rparr>)) \<and>
   (\<forall>onProgress s itv startTime endTime a e a'.
      fetchLoop net onProgress s itv (intervalMsOf itv) endTime startTime [] 0 a = Some (Inl e, a')
      \<longrightarrow> fetchAllKlines net onProgress s itv startTime endTime a = Some (Inl e, a')) \<and>
   (\<forall>itv intervalMs lookaheadMs n s trades rest symIdx symbolSeries a e a2.
      fetchAllKlines net
        (\<lambda>chunk start end a. a\<lparr>hStatus := ''Fetching '' @ s @ '' candles... chunk ''
                                           @ show_nat chunk\<rparr>)
        s itv (Min (set (map closeTime trades)) - intervalMs * 2)
        (Max (set (map closeTime trades)) + lookaheadMs + intervalMs * 2)
        (a\<lparr>hStatus := ''Fetching '' @ s @ '' candles ('' @ show_nat (Suc symIdx) @ ''/''
                         @ show_nat n @ '')...''\<rparr>)
        = Some (Inl e, a2)
      \<longrightarrow> fetchSymbols net itv intervalMs lookaheadMs n ((s, trades) # rest) symIdx symbolSeries a
            = Some (Inl e, a2)) \<and>
   (\<forall>a e a2.
      closedTrades a \<noteq> [] \<and>
      fetchSymbols net (interval a) (intervalMsOf (interval a)) (lookaheadHours a * 3600000)
        (length (groupBySymbol (closedTrades a))) (groupBySymbol (closedTrades a)) 0 []
        (a\<lparr>hLoading := True, hStatus := ''Warming up the roast...'', error := '''',
           hData := None\<rparr>) = Some (Inl e, a2)
      \<longrightarrow> (\<exists>a'. runHindsight net a = Some a' \<and> hData a' = None \<and>
                error a' = ''Hindsight failed: '' @ errText e \<and> hStatus a' = '''' \<and>
                hLoading a' = False \<and> closedTrades a' = closedTrades a \<and>
                summarizeClosedTrades (closedTrades a') = summarizeClosedTrades (closedTrades a))) \<and>
   (\<forall>a a'. runHindsight net a = Some a' \<longrightarrow> closedTrades a' = closedTrades a)"
  proof (intro conjI allI impI)
    show "fetchKlinesAnyBase net req reqs =
       (case attempt (net (length reqs) ''https://api.binance.com'' req) of
          Inr data \<Rightarrow> (Inr data, reqs @ [(''https://api.binance.com'', req)])
        | Inl e1 \<Rightarrow>
            (case attempt (net (Suc (length reqs)) ''https://data-api.binance.vision'' req) of
               Inr data \<Rightarrow>
                 (Inr data, reqs @ [(''https://api.binance.com'', req),
                                    (''https://data-api.binance.vision'', req)])
             | Inl e2 \<Rightarrow>
                 (Inl e2, reqs @ [(''https://api.binance.com'', req),
                                  (''https://data-api.binance.vision'', req)])))"
      by (rule fetchKlinesAnyBase_cases)
    show "attempt (NetworkError m) = Inl (JsError ''TypeError'' m)" for m
      by (simp add: attempt_def)
    show "attempt (HttpResponse status body) = Inl (JsError ''Error'' (''HTTP '' @ show_nat status))"
      if "\<not> (200 \<le> status \<and> status \<le> 299)" for status body
      using that by (simp add: attempt_def)
  next
    fix onProgress :: "nat \<Rightarrow> int \<Rightarrow> int \<Rightarrow> app \<Rightarrow> app"
      and s itv intervalMs endTime t out chunk and a :: app and e reqs'
    assume "t < endTime \<and>
        fetchKlinesAnyBase net
          \<lparr>req_symbol = s, req_interval = itv, req_startTime = t,
           req_endTime = min endTime (t + intervalMs * 1000)\<rparr>
          (requests (onProgress (Suc chunk) t (min endTime (t + intervalMs * 1000)) a))
          = (Inl e, reqs')"
    then show "fetchLoop net onProgress s itv intervalMs endTime t out chunk a =
              Some (Inl e, (onProgress (Suc chunk) t (min endTime (t + intervalMs * 1000)) a)
                             \<lparr>requests := reqs'\<rparr>)"
      by (simp add: fetchLoop_failed_chunk)
  next
    fix onProgress :: "nat \<Rightarrow> int \<Rightarrow> int \<Rightarrow> app \<Rightarrow> app"
      and s itv startTime endTime and a :: app and e and a' :: app
    assume "fetchLoop net onProgress s itv (intervalMsOf itv) endTime startTime [] 0 a
        = Some (Inl e, a')"
    then show "fetchAllKlines net onProgress s itv startTime endTime a = Some (Inl e, a')"
      by (simp add: fetchAllKlines_def)
  next
    fix itv intervalMs lookaheadMs n s and trades :: "trade list" and rest symIdx symbolSeries
      and a :: app and e and a2 :: app
    assume "fetchAllKlines net
          (\<lambda>chunk start end a. a\<lparr>hStatus := ''Fetching '' @ s @ '' candles... chunk ''
                                             @ show_nat chunk\<rparr>)
          s itv (Min (set (map closeTime trades)) - intervalMs * 2)
          (Max (set (map closeTime trades)) + lookaheadMs + intervalMs * 2)
          (a\<lparr>hStatus := ''Fetching '' @ s @ '' candles ('' @ show_nat (Suc symIdx) @ ''/''
                           @ show_nat n @ '')...''\<rparr>)
          = Some (Inl e, a2)"
    then show "fetchSymbols net itv intervalMs lookaheadMs n ((s, trades) # rest) symIdx symbolSeries a
              = Some (Inl e, a2)"
      by (simp add: Let_def)
  next
    fix a :: app and e and a2 :: app
    assume h: "closedTrades a \<noteq> [] \<and>
        fetchSymbols net (interval a) (intervalMsOf (interval a)) (lookaheadHours a * 3600000)
          (length (groupBySymbol (closedTrades a))) (groupBySymbol (closedTrades a)) 0 []
          (a\<lparr>hLoading := True, hStatus := ''Warming up the roast...'', error := '''',
             hData := None\<rparr>) = Some (Inl e, a2)"
    from runHindsight_failed [of a net e a2] h
    show "\<exists>a'. runHindsight net a = Some a' \<and> hData a' = None \<and>
                  error a' = ''Hindsight failed: '' @ errText e \<and> hStatus a' = '''' \<and>
                  hLoading a' = False \<and> closedTrades a' = closedTrades a \<and>
                  summarizeClosedTrades (closedTrades a') = summarizeClosedTrades (closedTrades a)"
      by simp
  next
    fix a a' :: app
    assume "runHindsight net a = Some a'"
    then show "closedTrades a' = closedTrades a" by (rule runHindsight_closedTrades)
  qed
  have outcome: "\<forall>a a'. closedTrades a \<noteq> [] \<and> runHindsight net a = Some a' \<longrightarrow>
      (\<exists>ext. requests a' = requests a @ ext) \<and>
      ((\<exists>i. length (requests a) \<le> i \<and> fallbackFailed net (requests a') i)
         \<longleftrightarrow> hData a' = None) \<and>
      (hData a' = None \<longrightarrow>
         length (requests a) < length (requests a') \<and>
         fallbackFailed net (requests a') (length (requests a') - 1) \<and>
         (\<exists>e. attempt (net (length (requests a') - 1) ''https://data-api.binance.vision''
                         (snd (last (requests a')))) = Inl e \<and>
              error a' = ''Hindsight failed: '' @ errText e) \<and>
         hStatus a' = '''' \<and> hLoading a' = False) \<and>
      (hData a' \<noteq> None \<longrightarrow>
         (\<exists>series. hData a' =
            Some (map (\<lambda>t. hindsightTrade (realismOf (realismPct a)) (lookaheadHours a * 3600000)
                             (map_of series (normalizeToBinanceSymbol (trade_symbol t))) t)
                    (closedTrades a))) \<and>
         error a' = '''' \<and> hStatus a' = ''Roast complete'' \<and> hLoading a' = False)"
    by (intro allI impI, elim conjE) (rule runHindsight_log, assumption+)
  have returns: "(\<forall>n base req kl.
       attempt (net n base req) = Inr kl \<and> kl \<noteq> []
         \<longrightarrow> req_startTime req \<le> kline_openTime (last kl))
    \<longrightarrow> (\<forall>a. \<exists>a'. runHindsight net a = Some a')"
    by (intro impI allI) (rule runHindsight_returns)
  show ?thesis
    using steps outcome returns by - (elim conjE, intro conjI, assumption+)
qed

text \<open>
  The run of the sample page against the failing source: the first chunk comes
  back with data, the second fails with status 500 on the primary base and with
  a network error on the fallback; the run ends with the fallback's message, no
  hindsight results and the closed trades as before, after three requests. And
  the run of the page with two symbols against the source that fails for the
  second symbol: the series of the first symbol is fetched, the first chunk of
  the second symbol fails on both bases, and the run ends with no hindsight
  results for either symbol.
\<close>

lemma show_nat_500: "show_nat 500 = ''500''"
  by code_simp

lemma show_nat_small:
  "show_nat (Suc 0) = ''1''" "show_nat (Suc (Suc 0)) = ''2''"
  by code_simp+

lemma failing_symbols:
  "fetchSymbols failingNet (interval sampleApp) (intervalMsOf (interval sampleApp))
     (lookaheadHours sampleApp * 3600000)
     (length (groupBySymbol (closedTrades sampleApp))) (groupBySymbol (closedTrades sampleApp)) 0 []
     (sampleApp\<lparr>hLoading := True, hStatus := ''Warming up the roast...'', error := '''',
        hData := None\<rparr>)
   = Some (Inl (JsError ''TypeError'' ''Failed to fetch''),
           sampleApp\<lparr>hLoading := True, hStatus := ''Fetching BTCUSDT candles... chunk 2'',
             requests := [(''https://api.binance.com'', sampleRequest (- 600000) 4200000),
                          (''https://api.binance.com'', sampleRequest (- 300000) 4200000),
                          (''https://data-api.binance.vision'', sampleRequest (- 300000) 4200000)]\<rparr>)"
  by (simp add: sampleApp_def sampleTrade_def groupBySymbol_def addTrade_def
      normalizeToBinanceSymbol_def trim_def toUpperChar_def isSpaceChar_def
      fetchAllKlines_def fetchLoop.simps intervalMsOf_def INTERVALS_def
      fetchKlinesAnyBase_def BINANCE_BASES_def attempt_def sampleNet_def failingNet_def
      nextCursor_def sampleRequest_def Let_def show_nat_small)

lemma run_failing:
  "runHindsight failingNet sampleApp =
     Some (sampleApp\<lparr>error := ''Hindsight failed: Failed to fetch'',
             requests := [(''https://api.binance.com'', sampleRequest (- 600000) 4200000),
                          (''https://api.binance.com'', sampleRequest (- 300000) 4200000),
                          (''https://data-api.binance.vision'', sampleRequest (- 300000) 4200000)]\<rparr>)"
  by (simp add: runHindsight_def sampleApp_def sampleTrade_def groupBySymbol_def addTrade_def
      normalizeToBinanceSymbol_def trim_def toUpperChar_def isSpaceChar_def
      fetchAllKlines_def fetchLoop.simps intervalMsOf_def INTERVALS_def
      fetchKlinesAnyBase_def BINANCE_BASES_def attempt_def sampleNet_def failingNet_def
      nextCursor_def sampleRequest_def Let_def)


lemma run_later:
  "runHindsight laterSymbolFails twoSymbolApp =
     Some (twoSymbolApp\<lparr>error := ''Hindsight failed: Failed to fetch'',
             requests :=
               [(''https://api.binance.com'', sampleRequest (- 600000) 4200000),
                (''https://api.binance.com'',
                 (sampleRequest (- 600000) 4200000)\<lparr>req_symbol := ''ETHUSDT''\<rparr>),
                (''https://data-api.binance.vision'',
                 (sampleRequest (- 600000) 4200000)\<lparr>req_symbol := ''ETHUSDT''\<rparr>)]\<rparr>)"
  by (simp add: runHindsight_def twoSymbolApp_def sampleApp_def sampleTrade_def groupBySymbol_def
      addTrade_def normalizeToBinanceSymbol_def trim_def toUpperChar_def isSpaceChar_def
      fetchAllKlines_def fetchLoop.simps intervalMsOf_def INTERVALS_def
      fetchKlinesAnyBase_def BINANCE_BASES_def attempt_def laterSymbolFails_def
      nextCursor_def sampleRequest_def Let_def)

theorem fetch_failure_fails_run_witness:
  "closedTrades sampleApp \<noteq> [] \<and>
   attempt (failingNet 1 ''https://api.binance.com'' (sampleRequest (- 300000) 4200000))
     = Inl (JsError ''Error'' ''HTTP 500'') \<and>
   attempt (failingNet 2 ''https://data-api.binance.vision'' (sampleRequest (- 300000) 4200000))
     = Inl (JsError ''TypeError'' ''Failed to fetch'') \<and>
   fetchKlinesAnyBase failingNet (sampleRequest (- 300000) 4200000)
       [(''https://api.binance.com'', sampleRequest (- 600000) 4200000)]
     = (Inl (JsError ''TypeError'' ''Failed to fetch''),
        [(''https://api.binance.com'', sampleRequest (- 600000) 4200000),
         (''https://api.binance.com'', sampleRequest (- 300000) 4200000),
         (''https://data-api.binance.vision'', sampleRequest (- 300000) 4200000)]) \<and>
   runHindsight failingNet sampleApp =
     Some (sampleApp\<lparr>error := ''Hindsight failed: Failed to fetch'',
             requests := [(''https://api.binance.com'', sampleRequest (- 600000) 4200000),
                          (''https://api.binance.com'', sampleRequest (- 300000) 4200000),
                          (''https://data-api.binance.vision'', sampleRequest (- 300000) 4200000)]\<rparr>) \<and>
   (\<exists>a'. runHindsight failingNet sampleApp = Some a' \<and> hData a' = None \<and>
         error a' = ''Hindsight failed: Failed to fetch'' \<and> hStatus a' = '''' \<and>
         hLoading a' = False \<and> closedTrades a' = closedTrades sampleApp \<and>
         summarizeClosedTrades (closedTrades a') = summarizeClosedTrades (closedTrades sampleApp)) \<and>
   closedTrades twoSymbolApp \<noteq> [] \<and>
   runHindsight laterSymbolFails twoSymbolApp =
     Some (twoSymbolApp\<lparr>error := ''Hindsight failed: Failed to fetch'',
             requests :=
               [(''https://api.binance.com'', sampleRequest (- 600000) 4200000),
                (''https://api.binance.com'',
                 (sampleRequest (- 600000) 4200000)\<lparr>req_symbol := ''ETHUSDT''\<rparr>),
                (''https://data-api.binance.vision'',
                 (sampleRequest (- 600000) 4200000)\<lparr>req_symbol := ''ETHUSDT''\<rparr>)]\<rparr>) \<and>
   fallbackFailed laterSymbolFails
     [(''https://api.binance.com'', sampleRequest (- 600000) 4200000),
      (''https://api.binance.com'',
       (sampleRequest (- 600000) 4200000)\<lparr>req_symbol := ''ETHUSDT''\<rparr>),
      (''https://data-api.binance.vision'',
       (sampleRequest (- 600000) 4200000)\<lparr>req_symbol := ''ETHUSDT''\<rparr>)] 2 \<and>
   (\<exists>a'. runHindsight laterSymbolFails twoSymbolApp = Some a' \<and> hData a' = None \<and>
         error a' = ''Hindsight failed: Failed to fetch'' \<and> hStatus a' = '''' \<and>
         hLoading a' = False \<and> length (requests a') = 3) \<and>
   (\<exists>a'. runHindsight failingNet sampleApp = Some a')"
proof -
  note T = fetch_failure_fails_run [of failingNet "sampleRequest (- 300000) 4200000"
      "[(''https://api.binance.com'', sampleRequest (- 600000) 4200000)]"]
  have ne: "closedTrades sampleApp \<noteq> []" by (simp add: sampleApp_def)
  have a1: "attempt (failingNet 1 ''https://api.binance.com'' (sampleRequest (- 300000) 4200000))
     = Inl (JsError ''Error'' ''HTTP 500'')"
    by (simp add: failingNet_def attempt_def show_nat_500)
  have a2: "attempt (failingNet 2 ''https://data-api.binance.vision''
      (sampleRequest (- 300000) 4200000)) = Inl (JsError ''TypeError'' ''Failed to fetch'')"
    by (simp add: failingNet_def attempt_def)
  have "fetchKlinesAnyBase failingNet (sampleRequest (- 300000) 4200000)
       [(''https://api.binance.com'', sampleRequest (- 600000) 4200000)]
     = (case attempt (failingNet (length [(''https://api.binance.com'',
                  sampleRequest (- 600000) 4200000)]) ''https://api.binance.com''
                  (sampleRequest (- 300000) 4200000)) of
        Inr data \<Rightarrow> (Inr data, [(''https://api.binance.com'', sampleRequest (- 600000) 4200000)]
                       @ [(''https://api.binance.com'', sampleRequest (- 300000) 4200000)])
      | Inl e1 \<Rightarrow>
          (case attempt (failingNet (Suc (length [(''https://api.binance.com'',
                  sampleRequest (- 600000) 4200000)])) ''https://data-api.binance.vision''
                  (sampleRequest (- 300000) 4200000)) of
             Inr data \<Rightarrow>
               (Inr data, [(''https://api.binance.com'', sampleRequest (- 600000) 4200000)]
                  @ [(''https://api.binance.com'', sampleRequest (- 300000) 4200000),
                     (''https://data-api.binance.vision'', sampleRequest (- 300000) 4200000)])
           | Inl e2 \<Rightarrow>
               (Inl e2, [(''https://api.binance.com'', sampleRequest (- 600000) 4200000)]
                  @ [(''https://api.binance.com'', sampleRequest (- 300000) 4200000),
                     (''https://data-api.binance.vision'', sampleRequest (- 300000) 4200000)])))"
    using T by blast
  then have chunk: "fetchKlinesAnyBase failingNet (sampleRequest (- 300000) 4200000)
       [(''https://api.binance.com'', sampleRequest (- 600000) 4200000)]
     = (Inl (JsError ''TypeError'' ''Failed to fetch''),
        [(''https://api.binance.com'', sampleRequest (- 600000) 4200000),
         (''https://api.binance.com'', sampleRequest (- 300000) 4200000),
         (''https://data-api.binance.vision'', sampleRequest (- 300000) 4200000)])"
    using a1 a2 by (simp add: numeral_2_eq_2)
  have "\<forall>a e a2.
      closedTrades a \<noteq> [] \<and>
      fetchSymbols failingNet (interval a) (intervalMsOf (interval a)) (lookaheadHours a * 3600000)
        (length (groupBySymbol (closedTrades a))) (groupBySymbol (closedTrades a)) 0 []
        (a\<lparr>hLoading := True, hStatus := ''Warming up the roast...'', error := '''',
           hData := None\<rparr>) = Some (Inl e, a2)
      \<longrightarrow> (\<exists>a'. runHindsight failingNet a = Some a' \<and> hData a' = None \<and>
                error a' = ''Hindsight failed: '' @ errText e \<and> hStatus a' = '''' \<and>
                hLoading a' = False \<and> closedTrades a' = closedTrades a \<and>
                summarizeClosedTrades (closedTrades a') = summarizeClosedTrades (closedTrades a))"
    using T by blast
  from this [rule_format, OF conjI [OF ne failing_symbols]]
  have run: "\<exists>a'. runHindsight failingNet sampleApp = Some a' \<and> hData a' = None \<and>
         error a' = ''Hindsight failed: Failed to fetch'' \<and> hStatus a' = '''' \<and>
         hLoading a' = False \<and> closedTrades a' = closedTrades sampleApp \<and>
         summarizeClosedTrades (closedTrades a') = summarizeClosedTrades (closedTrades sampleApp)"
    by simp
  have first: "closedTrades sampleApp \<noteq> [] \<and>
   attempt (failingNet 1 ''https://api.binance.com'' (sampleRequest (- 300000) 4200000))
     = Inl (JsError ''Error'' ''HTTP 500'') \<and>
   attempt (failingNet 2 ''https://data-api.binance.vision'' (sampleRequest (- 300000) 4200000))
     = Inl (JsError ''TypeError'' ''Failed to fetch'') \<and>
   fetchKlinesAnyBase failingNet (sampleRequest (- 300000) 4200000)
       [(''https://api.binance.com'', sampleRequest (- 600000) 4200000)]
     = (Inl (JsError ''TypeError'' ''Failed to fetch''),
        [(''https://api.binance.com'', sampleRequest (- 600000) 4200000),
         (''https://api.binance.com'', sampleRequest (- 300000) 4200000),
         (''https://data-api.binance.vision'', sampleRequest (- 300000) 4200000)]) \<and>
   runHindsight failingNet sampleApp =
     Some (sampleApp\<lparr>error := ''Hindsight failed: Failed to fetch'',
             requests := [(''https://api.binance.com'', sampleRequest (- 600000) 4200000),
                          (''https://api.binance.com'', sampleRequest (- 300000) 4200000),
                          (''https://data-api.binance.vision'', sampleRequest (- 300000) 4200000)]\<rparr>) \<and>
   (\<exists>a'. runHindsight failingNet sampleApp = Some a' \<and> hData a' = None \<and>
         error a' = ''Hindsight failed: Failed to fetch'' \<and> hStatus a' = '''' \<and>
         hLoading a' = False \<and> closedTrades a' = closedTrades sampleApp \<and>
         summarizeClosedTrades (closedTrades a') = summarizeClosedTrades (closedTrades sampleApp))"
    using ne a1 a2 chunk run_failing run by blast
  let ?log = "[(''https://api.binance.com'', sampleRequest (- 600000) 4200000),
      (''https://api.binance.com'',
       (sampleRequest (- 600000) 4200000)\<lparr>req_symbol := ''ETHUSDT''\<rparr>),
      (''https://data-api.binance.vision'',
       (sampleRequest (- 600000) 4200000)\<lparr>req_symbol := ''ETHUSDT''\<rparr>)]"
  let ?final = "twoSymbolApp\<lparr>error := ''Hindsight failed: Failed to fetch'', requests := ?log\<rparr>"
  note U = fetch_failure_fails_run [of laterSymbolFails "sampleRequest 0 0" "[]"]
  have ne2: "closedTrades twoSymbolApp \<noteq> []" by (simp add: twoSymbolApp_def)
  have ff: "fallbackFailed laterSymbolFails ?log 2"
    by (simp add: fallbackFailed_def attempt_def laterSymbolFails_def sampleRequest_def)
  have "\<forall>a a'. closedTrades a \<noteq> [] \<and> runHindsight laterSymbolFails a = Some a' \<longrightarrow>
      (\<exists>ext. requests a' = requests a @ ext) \<and>
      ((\<exists>i. length (requests a) \<le> i \<and> fallbackFailed laterSymbolFails (requests a') i)
         \<longleftrightarrow> hData a' = None) \<and>
      (hData a' = None \<longrightarrow>
         length (requests a) < length (requests a') \<and>
         fallbackFailed laterSymbolFails (requests a') (length (requests a') - 1) \<and>
         (\<exists>e. attempt (laterSymbolFails (length (requests a') - 1) ''https://data-api.binance.vision''
                         (snd (last (requests a')))) = Inl e \<and>
              error a' = ''Hindsight failed: '' @ errText e) \<and>
         hStatus a' = '''' \<and> hLoading a' = False) \<and>
      (hData a' \<noteq> None \<longrightarrow>
         (\<exists>series. hData a' =
            Some (map (\<lambda>t. hindsightTrade (realismOf (realismPct a)) (lookaheadHours a * 3600000)
                             (map_of series (normalizeToBinanceSymbol (trade_symbol t))) t)
                    (closedTrades a))) \<and>
         error a' = '''' \<and> hStatus a' = ''Roast complete'' \<and> hLoading a' = False)"
    using U by blast
  from this [rule_format, OF conjI [OF ne2 run_later]]
  have out: "(\<exists>ext. requests ?final = requests twoSymbolApp @ ext) \<and>
      ((\<exists>i. length (requests twoSymbolApp) \<le> i \<and> fallbackFailed laterSymbolFails (requests ?final) i)
         \<longleftrightarrow> hData ?final = None) \<and>
      (hData ?final = None \<longrightarrow>
         length (requests twoSymbolApp) < length (requests ?final) \<and>
         fallbackFailed laterSymbolFails (requests ?final) (length (requests ?final) - 1) \<and>
         (\<exists>e. attempt (laterSymbolFails (length (requests ?final) - 1) ''https://data-api.binance.vision''
                         (snd (last (requests ?final)))) = Inl e \<and>
              error ?final = ''Hindsight failed: '' @ errText e) \<and>
         hStatus ?final = '''' \<and> hLoading ?final = False) \<and>
      (hData ?final \<noteq> None \<longrightarrow>
         (\<exists>series. hData ?final =
            Some (map (\<lambda>t. hindsightTrade (realismOf (realismPct twoSymbolApp)) (lookaheadHours twoSymbolApp * 3600000)
                             (map_of series (normalizeToBinanceSymbol (trade_symbol t))) t)
                    (closedTrades twoSymbolApp))) \<and>
         error ?final = '''' \<and> hStatus ?final = ''Roast complete'' \<and> hLoading ?final = False)" .
  have rq: "requests ?final = ?log" "requests twoSymbolApp = []"
    by (simp_all add: twoSymbolApp_def sampleApp_def)
  have "\<exists>i. length (requests twoSymbolApp) \<le> i \<and> fallbackFailed laterSymbolFails (requests ?final) i"
    unfolding rq using ff by (intro exI [of _ 2]) simp
  with out have none: "hData ?final = None" by blast
  with out have "\<exists>e. attempt (laterSymbolFails (length (requests ?final) - 1)
        ''https://data-api.binance.vision'' (snd (last (requests ?final)))) = Inl e \<and>
      error ?final = ''Hindsight failed: '' @ errText e"
    and "hStatus ?final = ''''" and "hLoading ?final = False"
    by blast+
  then have second: "\<exists>a'. runHindsight laterSymbolFails twoSymbolApp = Some a' \<and> hData a' = None \<and>
         error a' = ''Hindsight failed: Failed to fetch'' \<and> hStatus a' = '''' \<and>
         hLoading a' = False \<and> length (requests a') = 3"
    using none run_later by (intro exI [of _ ?final]) simp
  have pre: "\<forall>n base req kl.
       attempt (failingNet n base req) = Inr kl \<and> kl \<noteq> []
         \<longrightarrow> req_startTime req \<le> kline_openTime (last kl)"
    by (auto simp: failingNet_def sampleNet_def attempt_def split: if_splits)
  have "(\<forall>n base req kl.
       attempt (failingNet n base req) = Inr kl \<and> kl \<noteq> []
         \<longrightarrow> req_startTime req \<le> kline_openTime (last kl))
    \<longrightarrow> (\<forall>a. \<exists>a'. runHindsight failingNet a = Some a')"
    using T by blast
  with pre have third: "\<exists>a'. runHindsight failingNet sampleApp = Some a'" by blast
  show ?thesis
    using first ne2 run_later ff second third by - (elim conjE, intro conjI, assumption+)
qed

end
